(* ===== verification/Prelude.thy ===== *)
theory Prelude
  imports Main "HOL-Library.Word"
begin

unbundle bit_operations_syntax

text \<open>
  Shared vocabulary of the MiniSQL storage-engine model: the machine types the
  C++ code uses (page and frame ids, bytes), the constants of the engine's
  configuration header (\<open>PAGE_SIZE\<close>, \<open>INVALID_PAGE_ID\<close>), C++ integer
  division, and the generic facts on lists, options and words that the
  component theories share.  The collection \<open>model_simps\<close> gathers the
  unfolding rules of small operations that the component proofs pass to
  \<open>simp\<close> together.
\<close>

named_theorems model_simps "unfolding rules of the small operations of the storage model"

section \<open>Machine types\<close>

text \<open>
  \<open>page_id_t\<close> and \<open>frame_id_t\<close> are 32-bit signed integers in the code.  Most
  operations only compare, store and index with them, so they are \<open>int\<close>; where
  the code computes with an \<open>int\<close> and the result can leave the 32-bit range (the
  disk manager's \<open>MapPageId\<close>, its byte offsets and file size), the model applies
  \<open>int32\<close>, the two's-complement wrap the compiled code performs.  A byte is an
  8-bit word.
\<close>

type_synonym page_id = int
type_synonym frame_id = int
type_synonym byte = "8 word"

definition INVALID_PAGE_ID :: page_id where
  "INVALID_PAGE_ID = -1"

definition PAGE_SIZE :: nat where
  "PAGE_SIZE = 4096"

text \<open>A freshly reset frame, and a page read past the end of the file, hold zeros.\<close>

definition zero_page :: "byte list" where
  "zero_page = replicate PAGE_SIZE 0"

section \<open>Little-endian byte images\<close>

text \<open>
  \<^verbatim>\<open>MACH_WRITE_TO(T, buf, v)\<close> and \<^verbatim>\<open>reinterpret_cast\<close> of a page store an
  integer as its \<open>sizeof(T)\<close> bytes, least significant first (the ABI the spec
  fixes).  \<open>le_bytes n w\<close> is the image of \<open>w\<close> in \<open>n\<close> bytes, \<open>le_word\<close> reads
  it back.
\<close>

definition le_bytes :: "nat \<Rightarrow> 'a::len word \<Rightarrow> byte list" where
  "le_bytes n w = map (\<lambda>i. ucast (drop_bit (8 * i) w)) [0..<n]"

definition le_word :: "byte list \<Rightarrow> 'a::len word" where
  "le_word bs = foldr (\<lambda>b acc. ucast b OR push_bit 8 acc) bs 0"

section \<open>Maps\<close>

text \<open>An \<open>unordered_map\<close> is a partial function; injectivity on its domain is the
  "at most one frame per page" shape of invariant.\<close>

definition map_injective :: "('a \<rightharpoonup> 'b) \<Rightarrow> bool" where
  "map_injective m \<longleftrightarrow> (\<forall>a b c. m a = Some c \<longrightarrow> m b = Some c \<longrightarrow> a = b)"

section \<open>C++ integer division\<close>

text \<open>
  C++ \<open>/\<close> and \<open>%\<close> on signed integers truncate towards zero; HOL's \<open>div\<close>
  and \<open>mod\<close> on \<open>int\<close> round towards minus infinity.  They agree on
  non-negative operands.
\<close>

definition cdiv :: "int \<Rightarrow> int \<Rightarrow> int" where
  "cdiv a b = sgn a * sgn b * (\<bar>a\<bar> div \<bar>b\<bar>)"

definition cmod :: "int \<Rightarrow> int \<Rightarrow> int" where
  "cmod a b = a - b * cdiv a b"

text \<open>The value of an \<open>int\<close> expression whose exact result is \<open>x\<close>, and the
  conversion of \<open>x\<close> to \<open>int\<close>: the wrap to \<open>[-2^31, 2^31)\<close>.\<close>

definition int32 :: "int \<Rightarrow> int" where
  "int32 x = (x + 2 ^ 31) mod 2 ^ 32 - 2 ^ 31"

lemma cdiv_nonneg [simp]: "0 \<le> a \<Longrightarrow> 0 < b \<Longrightarrow> cdiv a b = a div b"
  by (cases "a = 0") (auto simp: cdiv_def sgn_if)

lemma cmod_nonneg [simp]: "0 \<le> a \<Longrightarrow> 0 < b \<Longrightarrow> cmod a b = a mod b"
  by (simp add: cmod_def minus_div_mult_eq_mod [symmetric] mult.commute)

lemma cdiv_minus_one: "1 < b \<Longrightarrow> cdiv (-1) b = 0"
  by (simp add: cdiv_def)

text \<open>\<open>int32\<close> is the signed reading of a 32-bit word, the identity on the
  range of \<open>int\<close>, and it wraps by \<open>2^32\<close> just above it.\<close>

lemma int32_sint: "int32 x = sint (word_of_int x :: 32 word)"
  by (simp add: int32_def int_word_sint)

lemma int32_id [simp]: "- (2 ^ 31) \<le> x \<Longrightarrow> x < 2 ^ 31 \<Longrightarrow> int32 x = x"
  by (simp add: int32_def)

lemma int32_wrap: "2 ^ 31 \<le> x \<Longrightarrow> x < 2 ^ 31 + 2 ^ 32 \<Longrightarrow> int32 x = x - 2 ^ 32"
proof -
  assume a: "2 ^ 31 \<le> x" "x < 2 ^ 31 + 2 ^ 32"
  then have "(x + 2 ^ 31) mod 2 ^ 32 = x + 2 ^ 31 - 2 ^ 32"
    by (subst mod_pos_geq) (simp_all add: mod_pos_pos_trivial)
  then show ?thesis by (simp add: int32_def)
qed

lemma int32_range: "- (2 ^ 31) \<le> int32 x \<and> int32 x < 2 ^ 31"
  by (simp add: int32_def)

lemma int32_idem [simp]: "int32 (int32 x) = int32 x"
  using int32_range [of x] by simp

section \<open>Little-endian round trips\<close>

lemma le_bytes_Suc: "le_bytes (Suc n) w = ucast w # le_bytes n (drop_bit 8 w)"
  unfolding le_bytes_def
  by (simp add: map_upt_Suc drop_bit_drop_bit del: upt_Suc) (simp add: algebra_simps)

lemma le_word_Cons: "(le_word (b # bs) :: 'a::len word) = ucast b OR push_bit 8 (le_word bs)"
  by (simp add: le_word_def)

lemma length_le_bytes [simp]: "length (le_bytes n w) = n"
  by (simp add: le_bytes_def)

lemma le_word_le_bytes_take: "(le_word (le_bytes n w) :: 'a::len word) = take_bit (8 * n) w"
proof (induction n arbitrary: w)
  case 0
  then show ?case by (simp add: le_bytes_def le_word_def)
next
  case (Suc n)
  show ?case
    unfolding le_bytes_Suc le_word_Cons Suc.IH
    by (rule bit_word_eqI) (auto simp: bit_simps)
qed

lemma le_word_le_bytes [simp]:
  "LENGTH('a) \<le> 8 * n \<Longrightarrow> (le_word (le_bytes n w) :: 'a::len word) = w"
  by (simp add: le_word_le_bytes_take take_bit_word_eq_self)

lemma bit_le_word: "bit (le_word bs :: 'a::len word) n \<Longrightarrow> n < 8 * length bs"
proof (induction bs arbitrary: n)
  case Nil
  then show ?case by (simp add: le_word_def)
next
  case (Cons b bs)
  then show ?case
    by (cases "n < 8") (auto simp: le_word_Cons bit_simps dest: bit_imp_le_length Cons.IH)
qed

lemma le_bytes_le_word:
  "8 * length bs \<le> LENGTH('a) \<Longrightarrow> le_bytes (length bs) (le_word bs :: 'a::len word) = bs"
proof (induction bs)
  case Nil
  then show ?case by (simp add: le_bytes_def)
next
  case (Cons b bs)
  have d: "drop_bit 8 (le_word (b # bs) :: 'a word) = le_word bs"
  proof (rule bit_word_eqI)
    fix n assume "n < LENGTH('a)"
    show "bit (drop_bit 8 (le_word (b # bs) :: 'a word)) n = bit (le_word bs :: 'a word) n"
      using Cons.prems bit_le_word [of bs n, where 'a='a]
      by (auto simp: le_word_Cons bit_simps dest: bit_imp_le_length)
  qed
  have u: "(ucast (le_word (b # bs) :: 'a word) :: byte) = b"
    using Cons.prems by (intro bit_word_eqI) (auto simp: le_word_Cons bit_simps)
  show ?case
    using Cons by (simp add: le_bytes_Suc d u)
qed

lemma le_word_append:
  "(le_word (xs @ ys) :: 'a::len word) = le_word xs OR push_bit (8 * length xs) (le_word ys)"
proof (induction xs)
  case Nil
  then show ?case by (simp add: le_word_def)
next
  case (Cons b xs)
  then show ?case
    by (simp add: le_word_Cons push_bit_or push_bit_push_bit ac_simps)
qed

lemma le_word_nonzero:
  "length ys = n \<Longrightarrow> 8 * n \<le> LENGTH('a) \<Longrightarrow> ys \<noteq> replicate n 0 \<Longrightarrow> (le_word ys :: 'a::len word) \<noteq> 0"
  using le_bytes_le_word[of ys, where 'a='a] by (auto simp: le_bytes_def map_replicate_const)

lemma bit_nat_ge: "bit (n :: nat) m \<Longrightarrow> 2 ^ m \<le> n"
  by (metis bit_iff_odd div_less even_zero not_less)

lemma bit_unat_ge: "bit (w :: 'a::len word) m \<Longrightarrow> 2 ^ m \<le> unat w"
  by (rule bit_nat_ge) (simp add: bit_simps bit_imp_le_length)

section \<open>Lists\<close>

text \<open>\<open>std::vector\<close> erase of the first match is \<open>remove1\<close>; \<open>pop_back\<close> is \<open>butlast\<close>.\<close>

lemma distinct_butlast_set:
  "distinct xs \<Longrightarrow> set (butlast xs) = set xs - {last xs}"
  by (induction xs rule: rev_induct) auto

lemma sum_list_update_Suc:
  "k < length xs \<Longrightarrow> sum_list (xs[k := Suc (xs ! k)]) = Suc (sum_list (xs :: nat list))"
  by (induction xs arbitrary: k) (auto split: nat.splits)

lemma sum_list_update_pred:
  "k < length xs \<Longrightarrow> 0 < xs ! k \<Longrightarrow> sum_list (xs[k := xs ! k - 1]) = sum_list (xs :: nat list) - 1"
proof (induction xs arbitrary: k)
  case Nil
  then show ?case by simp
next
  case (Cons x xs)
  then show ?case
  proof (cases k)
    case 0
    then show ?thesis using Cons.prems by simp
  next
    case (Suc j)
    then have "0 < sum_list xs" using Cons.prems
      by (metis elem_le_sum_list gr_zeroI le_zero_eq length_Cons not_less_eq nth_Cons_Suc)
    then show ?thesis using Cons Suc by simp
  qed
qed

lemma le_word_replicate_zero [simp]: "le_word (replicate n 0) = 0"
  by (induction n) (simp_all add: le_word_def)

text \<open>Running maxima, as the catalog's load loops compute them.\<close>

lemma word_lt_succ: "(a::'a::len word) < b \<Longrightarrow> c \<le> a \<Longrightarrow> c < a + 1"
  by (meson interval_class.inc_less_eq_imp_less leD linorder_le_less_linear)

lemma foldl_running_max_ge:
  fixes mx :: "'a::linorder"
  shows "mx \<le> foldl (\<lambda>m e. if m < fst e then fst e else m) mx es \<and>
         (\<forall>e \<in> set es. fst e \<le> foldl (\<lambda>m e. if m < fst e then fst e else m) mx es)"
proof (induction es arbitrary: mx)
  case (Cons e es)
  let ?m = "if mx < fst e then fst e else mx"
  have "mx \<le> ?m" "fst e \<le> ?m" by auto
  then show ?case using Cons.IH[of ?m] by (auto intro: order_trans)
qed simp

lemma foldl_running_max_in:
  fixes mx :: "'a::linorder"
  shows "foldl (\<lambda>m e. if m < fst e then fst e else m) mx es = mx \<or>
         (\<exists>e \<in> set es. foldl (\<lambda>m e. if m < fst e then fst e else m) mx es = fst e)"
proof (induction es arbitrary: mx)
  case (Cons e es)
  let ?f = "\<lambda>m e. if m < fst e then fst e else m"
  obtain mm where mm: "?f mx e = mm" by simp
  have eq: "foldl ?f mx (e # es) = foldl ?f mm es" using mm by simp
  have m: "mm = mx \<or> mm = fst e" using mm by auto
  from Cons.IH[of mm] have "foldl ?f mm es = mm \<or> (\<exists>e' \<in> set es. foldl ?f mm es = fst e')" .
  then show ?case unfolding eq using m by auto
qed simp

lemma foldl_last_max:
  "foldl (\<lambda>m e. if tmax < fst e then fst e else tmax) mx es =
     (if es = [] then mx else if tmax < fst (last es) then fst (last es) else tmax)"
  by (induction es arbitrary: mx) auto

lemma word_fresh_succ: "(c::'a::len word) \<le> a \<Longrightarrow> a = 0 \<or> a < b \<Longrightarrow> c < a + 1"
  using word_lt_succ[of a b c] by (auto simp: word_le_0_iff)

lemma unat_succ: "unat (w::'a::len word) + 1 < 2 ^ LENGTH('a) \<Longrightarrow> unat (w + 1) = unat w + 1"
  by (simp add: unat_word_ariths)

lemma unat_succ_ne_max: "unat (w::'a::len word) + 1 < 2 ^ LENGTH('a) \<Longrightarrow> w \<noteq> - 1"
  by (metis less_add_one less_not_refl unat_add_lem unat_plus_simple unsigned_1 word_order.extremum_uniqueI)

lemma those_length: "those xs = Some ys \<Longrightarrow> length ys = length xs"
  by (induction xs arbitrary: ys) (auto split: option.splits)

lemma those_map_Some: "(\<And>x. x \<in> set xs \<Longrightarrow> f x \<noteq> None) \<Longrightarrow> those (map f xs) = Some (map (\<lambda>x. the (f x)) xs)"
  by (induction xs) (auto split: option.split)

lemma map_of_filter_notin: "map_of (filter (\<lambda>p. fst p \<notin> D) xs) k = (if k \<in> D then None else map_of xs k)"
  by (induction xs) auto

lemma keys_filter_key: "fst ` set (filter (\<lambda>p. fst p \<notin> D) xs) = fst ` set xs - D"
  by auto

section \<open>Options\<close>

lemma option_bind_Some_iff:
  "(Option.bind m f = Some y) = (\<exists>x. m = Some x \<and> f x = Some y)"
  by (cases m) auto

section \<open>Injective maps\<close>

lemma map_injective_upd:
  "map_injective m \<Longrightarrow> c \<notin> ran m \<Longrightarrow> map_injective (m(a \<mapsto> c))"
  unfolding map_injective_def ran_def by auto

lemma map_injective_del:
  "map_injective m \<Longrightarrow> map_injective (m(a := None))"
  unfolding map_injective_def by auto

lemma map_injective_empty [simp]: "map_injective Map.empty"
  by (simp add: map_injective_def)


section \<open>Lists and map restriction\<close>

lemma filter_drop_Cons:
  "filter P (drop k xs) = r # rest \<Longrightarrow>
   \<exists>j. k \<le> j \<and> j < length xs \<and> xs ! j = r \<and> P r \<and> rest = filter P (drop (Suc j) xs)"
proof (induction "length xs - k" arbitrary: k)
  case 0
  then show ?case by simp
next
  case (Suc d)
  then have k: "k < length xs" by (cases "k < length xs") auto
  then have dr: "drop k xs = xs ! k # drop (Suc k) xs" by (simp add: Cons_nth_drop_Suc)
  show ?case
  proof (cases "P (xs ! k)")
    case False
    then have e: "filter P (drop (Suc k) xs) = r # rest" using Suc.prems by (simp add: dr)
    have "d = length xs - Suc k" using Suc.hyps(2) by simp
    from Suc.hyps(1)[OF this e] obtain j where
      "Suc k \<le> j \<and> j < length xs \<and> xs ! j = r \<and> P r \<and> rest = filter P (drop (Suc j) xs)" by blast
    then show ?thesis by (intro exI[of _ j]) auto
  qed (use Suc.prems k dr in auto)
qed

lemma distinct_nth_notin_drop: "distinct xs \<Longrightarrow> j < length xs \<Longrightarrow> xs ! j \<notin> set (drop (Suc j) xs)"
  by (metis Cons_nth_drop_Suc distinct.simps(2) distinct_drop)

lemma restrict_UNIV_Compl_empty [simp]: "m |` (- {}) = m"
  by (simp add: restrict_map_def)

lemma restrict_upd_None: "(m(k := None)) |` (- A) = m |` (- insert k A)"
  by (auto simp: restrict_map_def)

end
