(* ===== verification/LRU_Replacer.thy ===== *)
theory LRU_Replacer
  imports Prelude
begin

text \<open>
  The LRU replacer of \<^verbatim>\<open>src/src/buffer/lru_replacer.cpp\<close>: a
  \<open>std::vector<int>\<close> of frame ids, most recently unpinned at the front, and the
  capacity given at construction.  Each method is one definition over the
  record; \<open>Victim\<close> returns the popped frame as an option instead of the
  out-parameter and the boolean.  The invariant is that the list is duplicate
  free and within capacity; every method keeps it (\<open>Unpin\<close> only for a
  positive capacity: with capacity 0 the code pops from an empty vector).
  The ordering lemma shows that victims come out in the order the frames
  were unpinned, and the refinement lemmas relate each method to the set of
  evictable frames.
\<close>

record lru_replacer =
  lru_list :: "frame_id list"
  max_supported_list_size :: nat

definition LRUReplacer :: "nat \<Rightarrow> lru_replacer" where
  "LRUReplacer num_pages = \<lparr>lru_list = [], max_supported_list_size = num_pages\<rparr>"

definition LRU_Size :: "lru_replacer \<Rightarrow> nat" where
  "LRU_Size r = length (lru_list r)"

definition LRU_Victim :: "lru_replacer \<Rightarrow> frame_id option \<times> lru_replacer" where
  "LRU_Victim r =
     (if lru_list r \<noteq> [] then (Some (last (lru_list r)), r\<lparr>lru_list := butlast (lru_list r)\<rparr>)
      else (None, r))"

definition LRU_Pin :: "frame_id \<Rightarrow> lru_replacer \<Rightarrow> lru_replacer" where
  "LRU_Pin f r = r\<lparr>lru_list := remove1 f (lru_list r)\<rparr>"

definition LRU_Unpin :: "frame_id \<Rightarrow> lru_replacer \<Rightarrow> lru_replacer" where
  "LRU_Unpin f r =
     (if f \<notin> set (lru_list r) then
        (let xs = (if LRU_Size r = max_supported_list_size r then butlast (lru_list r)
                   else lru_list r)
         in r\<lparr>lru_list := f # xs\<rparr>)
      else r)"

text \<open>Draining the replacer: \<open>n\<close> successive calls of \<open>Victim\<close>.\<close>

fun LRU_victims :: "nat \<Rightarrow> lru_replacer \<Rightarrow> frame_id list" where
  "LRU_victims 0 r = []"
| "LRU_victims (Suc n) r =
     (case LRU_Victim r of (None, r') \<Rightarrow> [] | (Some f, r') \<Rightarrow> f # LRU_victims n r')"

definition lru_inv :: "lru_replacer \<Rightarrow> bool" where
  "lru_inv r \<longleftrightarrow> distinct (lru_list r) \<and> LRU_Size r \<le> max_supported_list_size r"

text \<open>The replacer's methods as a datatype of operations and a run over a sequence
  of them; \<open>Size\<close> does not change the state.\<close>

datatype lru_op = OpVictim | OpPin frame_id | OpUnpin frame_id

fun lru_step :: "lru_replacer \<Rightarrow> lru_op \<Rightarrow> lru_replacer" where
  "lru_step r OpVictim = snd (LRU_Victim r)"
| "lru_step r (OpPin f) = LRU_Pin f r"
| "lru_step r (OpUnpin f) = LRU_Unpin f r"

definition lru_run :: "lru_replacer \<Rightarrow> lru_op list \<Rightarrow> lru_replacer" where
  "lru_run r ops = foldl lru_step r ops"

text \<open>Abstractly, the replacer holds a set of evictable frames: Pin removes one,
  Unpin adds one (while there is room), Victim removes the one it returns.\<close>

definition lru_abs :: "lru_replacer \<Rightarrow> frame_id set" where
  "lru_abs r = set (lru_list r)"

lemmas lru_defs [model_simps] = LRU_Size_def LRU_Victim_def LRU_Pin_def LRU_Unpin_def

section \<open>Basic facts\<close>

lemma lru_inv_init: "lru_inv (LRUReplacer n)"
  by (simp add: lru_inv_def LRUReplacer_def LRU_Size_def)

lemma LRU_Victim_None: "fst (LRU_Victim r) = None \<longleftrightarrow> lru_list r = []"
  by (simp add: LRU_Victim_def)

lemma LRU_Victim_capacity [simp]:
  "max_supported_list_size (snd (LRU_Victim r)) = max_supported_list_size r"
  by (simp add: LRU_Victim_def)

lemma set_LRU_Unpin_absent:
  assumes "f \<notin> set (lru_list r)" "LRU_Size r < max_supported_list_size r"
  shows "lru_list (LRU_Unpin f r) = f # lru_list r"
  using assms by (simp add: LRU_Unpin_def)

section \<open>The invariant\<close>

lemma LRU_Pin_inv: "lru_inv r \<Longrightarrow> lru_inv (LRU_Pin f r)"
  by (auto simp: lru_inv_def lru_defs length_remove1 dest: le_trans[OF diff_le_self])

lemma LRU_Victim_inv: "lru_inv r \<Longrightarrow> lru_inv (snd (LRU_Victim r))"
  by (auto simp: lru_inv_def lru_defs distinct_butlast)

lemma LRU_Unpin_inv:
  assumes "lru_inv r" "0 < max_supported_list_size r"
  shows "lru_inv (LRU_Unpin f r)"
proof (cases "f \<in> set (lru_list r)")
  case True
  then show ?thesis using assms(1) by (simp add: LRU_Unpin_def)
next
  case False
  have "f \<notin> set (butlast (lru_list r))"
    using False in_set_butlastD by fastforce
  with False assms show ?thesis
    by (auto simp: lru_inv_def lru_defs distinct_butlast Let_def)
qed

lemma lru_step_inv:
  "lru_inv r \<Longrightarrow> 0 < max_supported_list_size r \<Longrightarrow> lru_inv (lru_step r op)"
  by (cases op) (simp_all add: LRU_Pin_inv LRU_Victim_inv LRU_Unpin_inv)

lemma lru_step_capacity [simp]:
  "max_supported_list_size (lru_step r op) = max_supported_list_size r"
  by (cases op) (simp_all add: lru_defs Let_def)

text \<open>C1: the replacer's invariant (no frame twice, never more frames than the
  capacity) holds after any sequence of Victim, Pin and Unpin calls on a replacer of
  positive capacity.\<close>

theorem lru_run_inv:
  assumes "lru_inv r" and "0 < max_supported_list_size r"
  shows "lru_inv (lru_run r ops)"
  using assms
proof (induction ops arbitrary: r rule: rev_induct)
  case Nil
  then show ?case by (simp add: lru_run_def)
next
  case (snoc op ops)
  then have "lru_inv (lru_run r ops)" by blast
  moreover have "max_supported_list_size (lru_run r ops) = max_supported_list_size r"
    by (induction ops rule: rev_induct) (simp_all add: lru_run_def)
  ultimately show ?case
    using snoc.prems(2) lru_step_inv by (simp add: lru_run_def)
qed

lemma lru_run_inv_witness:
  "lru_inv (lru_run (LRUReplacer 2) [OpUnpin 1, OpUnpin 2, OpVictim, OpPin 2, OpUnpin 3])"
  using lru_run_inv [of "LRUReplacer 2"] lru_inv_init by (simp add: LRUReplacer_def)

section \<open>Recency order\<close>

lemma lru_list_fold_Unpin:
  assumes "distinct fs" "set fs \<inter> set (lru_list r) = {}"
    and "length fs + LRU_Size r \<le> max_supported_list_size r"
  shows "lru_list (fold LRU_Unpin fs r) = rev fs @ lru_list r
         \<and> max_supported_list_size (fold LRU_Unpin fs r) = max_supported_list_size r"
  using assms
proof (induction fs arbitrary: r)
  case Nil
  then show ?case by simp
next
  case (Cons f fs)
  let ?r = "LRU_Unpin f r"
  have r': "lru_list ?r = f # lru_list r" "max_supported_list_size ?r = max_supported_list_size r"
    using Cons.prems by (simp_all add: LRU_Unpin_def LRU_Size_def)
  have "lru_list (fold LRU_Unpin fs ?r) = rev fs @ lru_list ?r
        \<and> max_supported_list_size (fold LRU_Unpin fs ?r) = max_supported_list_size ?r"
    using Cons.prems r' by (intro Cons.IH) (auto simp: LRU_Size_def)
  then show ?case using r' by simp
qed

lemma LRU_victims_drain:
  "LRU_victims (length (lru_list r)) r = rev (lru_list r)"
proof (induction "lru_list r" arbitrary: r rule: rev_induct)
  case Nil
  then show ?case by simp
next
  case (snoc x xs)
  have "LRU_Victim r = (Some x, r\<lparr>lru_list := xs\<rparr>)"
    using snoc.hyps(2) [symmetric] by (simp add: LRU_Victim_def)
  moreover have "LRU_victims (length xs) (r\<lparr>lru_list := xs\<rparr>) = rev xs"
    using snoc.hyps(1) [of "r\<lparr>lru_list := xs\<rparr>"] by simp
  ultimately show ?case using snoc.hyps(2) [symmetric] by simp
qed

text \<open>C2: frames unpinned one after the other into an empty replacer, without
  exceeding its capacity, are handed out by Victim in the order they were unpinned:
  the least recently unpinned frame is evicted first.\<close>

theorem lru_victim_order:
  assumes "distinct fs" and "length fs \<le> n"
  shows "LRU_victims (length fs) (fold LRU_Unpin fs (LRUReplacer n)) = fs"
proof -
  have "lru_list (fold LRU_Unpin fs (LRUReplacer n)) = rev fs"
    using lru_list_fold_Unpin [of fs "LRUReplacer n"] assms
    by (simp add: LRUReplacer_def LRU_Size_def)
  then show ?thesis
    using LRU_victims_drain [of "fold LRU_Unpin fs (LRUReplacer n)"] by simp
qed

lemma lru_victim_order_witness:
  "LRU_victims 3 (fold LRU_Unpin [4, 7, 5] (LRUReplacer 3)) = [4, 7, 5]"
  using lru_victim_order [of "[4, 7, 5]" 3] by (simp del: LRU_victims.simps add: numeral_3_eq_3)

section \<open>The set of evictable frames\<close>

lemma lru_abs_Unpin:
  "lru_inv r \<Longrightarrow> f \<in> lru_abs r \<or> LRU_Size r < max_supported_list_size r \<Longrightarrow>
   lru_abs (LRU_Unpin f r) = insert f (lru_abs r)"
  by (auto simp: lru_abs_def lru_inv_def lru_defs Let_def)

lemma lru_abs_Victim:
  "lru_inv r \<Longrightarrow> LRU_Victim r = (Some v, r') \<Longrightarrow> v \<in> lru_abs r \<and> lru_abs r' = lru_abs r - {v}"
  by (auto simp: lru_abs_def lru_inv_def lru_defs distinct_butlast_set split: if_splits)

text \<open>C3: the replacer refines a set of evictable frames: on a replacer satisfying its
  invariant, Pin removes the frame, Unpin of a frame when there is room (or of a
  frame already present) inserts it, and Victim returns a member of the set and
  removes exactly that member.\<close>

theorem lru_refines_set:
  assumes "lru_inv r"
  shows "lru_abs (LRU_Pin f r) = lru_abs r - {f}
    \<and> ((f \<in> lru_abs r \<or> LRU_Size r < max_supported_list_size r) \<longrightarrow>
         lru_abs (LRU_Unpin f r) = insert f (lru_abs r))
    \<and> (\<forall>v r'. LRU_Victim r = (Some v, r') \<longrightarrow> v \<in> lru_abs r \<and> lru_abs r' = lru_abs r - {v})
    \<and> (fst (LRU_Victim r) = None \<longleftrightarrow> lru_abs r = {})"
  using assms lru_abs_Unpin lru_abs_Victim
  by (auto simp: lru_abs_def lru_inv_def lru_defs)

lemma lru_refines_set_witness:
  "lru_abs (LRU_Pin 3 \<lparr>lru_list = [3, 1], max_supported_list_size = 3\<rparr>) = {1}
   \<and> lru_abs (LRU_Unpin 2 \<lparr>lru_list = [3, 1], max_supported_list_size = 3\<rparr>) = {1, 2, 3}
   \<and> lru_abs (snd (LRU_Victim \<lparr>lru_list = [3, 1], max_supported_list_size = 3\<rparr>)) = {3}"
proof -
  let ?r = "\<lparr>lru_list = [3, 1], max_supported_list_size = 3\<rparr> :: lru_replacer"
  have inv: "lru_inv ?r" by (simp add: lru_inv_def LRU_Size_def)
  have v: "LRU_Victim ?r = (Some 1, snd (LRU_Victim ?r))"
    by (simp add: LRU_Victim_def)
  have room: "LRU_Size ?r < max_supported_list_size ?r" by (simp add: LRU_Size_def)
  from lru_refines_set [OF inv, of 3] v room
  have "lru_abs (LRU_Pin 3 ?r) = lru_abs ?r - {3}"
    and "lru_abs (LRU_Unpin 3 ?r) = insert 3 (lru_abs ?r)"
    and "lru_abs (snd (LRU_Victim ?r)) = lru_abs ?r - {1}"
    by blast+
  moreover from lru_refines_set [OF inv, of 2] room
  have "lru_abs (LRU_Unpin 2 ?r) = insert 2 (lru_abs ?r)" by blast
  ultimately show ?thesis by (auto simp: lru_abs_def)
qed

lemma LRU_Pin_Unpin_capacity [simp]:
  "max_supported_list_size (LRU_Pin f r) = max_supported_list_size r"
  "max_supported_list_size (LRU_Unpin f r) = max_supported_list_size r"
  by (simp_all add: lru_defs Let_def)

lemma set_LRU_Pin: "lru_inv r \<Longrightarrow> set (lru_list (LRU_Pin f r)) = set (lru_list r) - {f}"
  by (simp add: lru_inv_def LRU_Pin_def)

lemma set_LRU_Unpin_subset: "set (lru_list (LRU_Unpin f r)) \<subseteq> insert f (set (lru_list r))"
  by (auto simp: lru_defs Let_def dest: in_set_butlastD)

lemma LRU_Victim_Some:
  "lru_inv r \<Longrightarrow> LRU_Victim r = (Some v, r') \<Longrightarrow>
   v \<in> set (lru_list r) \<and> set (lru_list r') = set (lru_list r) - {v} \<and>
   max_supported_list_size r' = max_supported_list_size r \<and> lru_inv r'"
  using lru_abs_Victim[of r v r'] LRU_Victim_inv[of r] LRU_Victim_capacity[of r]
  by (simp add: lru_abs_def)

end
