(* ===== verification/Bitmap_Page.thy ===== *)
theory Bitmap_Page
  imports Prelude
begin

text \<open>
  The allocation bitmap of one extent, \<^verbatim>\<open>src/src/page/bitmap_page.cpp\<close>
  (template \<open>BitmapPage<PageSize>\<close>, here with the page size \<open>ps\<close> as an explicit
  parameter).  The page is a header of two \<open>uint32_t\<close> (\<open>page_allocated_\<close>,
  \<open>next_free_page_\<close>) followed by \<open>MAX_CHARS = PageSize - 8\<close> bytes; bit \<open>k\<close> of
  byte \<open>j\<close> is set iff data page \<open>8 * j + k\<close> of the extent is allocated.
  The byte updates are the code's \<open>uint8_t\<close> \<open>+=\<close> and \<open>-=\<close>, as 8-bit word
  arithmetic; the lemmas show that they set and clear exactly one bit.
  \<open>bitmap_of_page\<close> / \<open>page_of_bitmap\<close> are the \<open>reinterpret_cast\<close> between a
  page of bytes and the structure, with their round trips.
\<close>

record bitmap_page =
  page_allocated :: "32 word"
  next_free_page :: "32 word"
  bytes :: "byte list"

definition BITMAP_MAX_CHARS :: "nat \<Rightarrow> nat" where
  "BITMAP_MAX_CHARS ps = ps - 2 * 4"

definition bitmap_capacity :: "nat \<Rightarrow> nat" where
  "bitmap_capacity ps = 8 * BITMAP_MAX_CHARS ps"

definition Bitmap_IsPageFreeLow :: "bitmap_page \<Rightarrow> nat \<Rightarrow> nat \<Rightarrow> bool" where
  "Bitmap_IsPageFreeLow b byte_index bit_index =
     ((bytes b ! byte_index) AND push_bit bit_index 1 = 0)"

definition Bitmap_IsPageFree :: "bitmap_page \<Rightarrow> nat \<Rightarrow> bool" where
  "Bitmap_IsPageFree b page_offset =
     Bitmap_IsPageFreeLow b (page_offset div 8) (page_offset mod 8)"

text \<open>The scan \<open>for (next_free_page_ = 0; next_free_page_ < 8 * MAX_CHARS; ...)\<close>
  stops at the first free offset, or at \<open>8 * MAX_CHARS\<close> when there is none.\<close>

definition bitmap_first_free :: "nat \<Rightarrow> bitmap_page \<Rightarrow> nat" where
  "bitmap_first_free ps b =
     (case find (Bitmap_IsPageFree b) [0..<bitmap_capacity ps] of
        Some i \<Rightarrow> i
      | None \<Rightarrow> bitmap_capacity ps)"

definition Bitmap_AllocatePage :: "nat \<Rightarrow> bitmap_page \<Rightarrow> nat option \<times> bitmap_page" where
  "Bitmap_AllocatePage ps b =
     (if unat (page_allocated b) < bitmap_capacity ps then
        (let nfp = bitmap_first_free ps b;
             byte_index = nfp div 8;
             bit_index = nfp mod 8;
             num = push_bit bit_index (1 :: byte)
         in (Some nfp,
             b\<lparr>next_free_page := of_nat nfp,
               bytes := (bytes b)[byte_index := bytes b ! byte_index + num],
               page_allocated := page_allocated b + 1\<rparr>))
      else (None, b))"

definition Bitmap_DeAllocatePage :: "nat \<Rightarrow> nat \<Rightarrow> bitmap_page \<Rightarrow> bool \<times> bitmap_page" where
  "Bitmap_DeAllocatePage ps page_offset b =
     (if bitmap_capacity ps \<le> page_offset then (False, b)
      else if Bitmap_IsPageFree b page_offset then (False, b)
      else
        (let byte_index = page_offset div 8;
             bit_index = page_offset mod 8;
             num = push_bit bit_index (1 :: byte)
         in (True,
             b\<lparr>bytes := (bytes b)[byte_index := bytes b ! byte_index - num],
               page_allocated := page_allocated b - 1\<rparr>)))"

text \<open>The set of allocated offsets, and the invariant: the byte array has its
  declared size and the counter equals the number of set bits.\<close>

definition bitmap_abs :: "nat \<Rightarrow> bitmap_page \<Rightarrow> nat set" where
  "bitmap_abs ps b = set (filter (\<lambda>i. \<not> Bitmap_IsPageFree b i) [0..<bitmap_capacity ps])"

definition bitmap_inv :: "nat \<Rightarrow> bitmap_page \<Rightarrow> bool" where
  "bitmap_inv ps b \<longleftrightarrow> ps \<le> PAGE_SIZE \<and>
     length (bytes b) = BITMAP_MAX_CHARS ps \<and> unat (page_allocated b) = card (bitmap_abs ps b)"

text \<open>The page image: \<open>reinterpret_cast<BitmapPage<PageSize> *>(page_data)\<close>.\<close>

definition bitmap_of_page :: "nat \<Rightarrow> byte list \<Rightarrow> bitmap_page" where
  "bitmap_of_page ps p =
     \<lparr>page_allocated = le_word (take 4 p), next_free_page = le_word (take 4 (drop 4 p)),
      bytes = take (BITMAP_MAX_CHARS ps) (drop 8 p)\<rparr>"

definition page_of_bitmap :: "bitmap_page \<Rightarrow> byte list" where
  "page_of_bitmap b = le_bytes 4 (page_allocated b) @ le_bytes 4 (next_free_page b) @ bytes b"

definition empty_bitmap :: "nat \<Rightarrow> bitmap_page" where
  "empty_bitmap ps = \<lparr>page_allocated = 0, next_free_page = 0, bytes = replicate (BITMAP_MAX_CHARS ps) 0\<rparr>"

section \<open>Bits of the byte array\<close>

lemma Bitmap_IsPageFree_bit:
  "Bitmap_IsPageFree b i \<longleftrightarrow> \<not> bit (bytes b ! (i div 8)) (i mod 8)"
  by (simp add: Bitmap_IsPageFree_def Bitmap_IsPageFreeLow_def and_exp_eq_0_iff_not_bit)

text \<open>\<open>x += 1 << k\<close> on a byte whose bit \<open>k\<close> is clear sets exactly bit \<open>k\<close>;
  \<open>x -= 1 << k\<close> on a byte whose bit \<open>k\<close> is set clears exactly bit \<open>k\<close>.\<close>

lemma byte_add_sets_bit:
  fixes x :: byte
  assumes "\<not> bit x k"
  shows "bit (x + 2 ^ k) j \<longleftrightarrow> bit x j \<or> (j = k \<and> k < 8)"
proof -
  have "x AND 2 ^ k = 0" using assms by (simp add: and_exp_eq_0_iff_not_bit)
  then have "x + 2 ^ k = x OR 2 ^ k" by (rule disjunctive_add_eq_or)
  then show ?thesis by (auto simp: bit_simps)
qed

lemma byte_sub_clears_bit:
  fixes x :: byte
  assumes "bit x k"
  shows "bit (x - 2 ^ k) j \<longleftrightarrow> bit x j \<and> j \<noteq> k"
proof -
  have "NOT x AND 2 ^ k = 0" using assms by (simp add: and_exp_eq_0_iff_not_bit bit_simps)
  then have "x - 2 ^ k = x AND NOT (2 ^ k)" by (rule disjunctive_diff_eq_and_not)
  then show ?thesis by (auto simp: bit_simps dest: bit_imp_le_length)
qed

lemma mod8_div8_eq:
  "i div 8 = j div 8 \<Longrightarrow> i mod 8 = j mod 8 \<Longrightarrow> i = (j::nat)"
  by (metis div_mult_mod_eq)

lemma IsPageFree_set_bit:
  assumes free: "Bitmap_IsPageFree b i" and len: "i div 8 < length (bytes b)"
  shows "Bitmap_IsPageFree
           (b\<lparr>bytes := (bytes b)[i div 8 := bytes b ! (i div 8) + 2 ^ (i mod 8)]\<rparr>) j
         \<longleftrightarrow> Bitmap_IsPageFree b j \<and> j \<noteq> i"
proof (cases "j div 8 = i div 8")
  case True
  let ?x = "bytes b ! (i div 8)"
  have nb: "\<not> bit ?x (i mod 8)" using free by (simp add: Bitmap_IsPageFree_bit)
  have "j = i \<longleftrightarrow> j mod 8 = i mod 8" using True mod8_div8_eq [of j i] by auto
  then show ?thesis
    using True len byte_add_sets_bit [OF nb, of "j mod 8"]
    by (simp add: Bitmap_IsPageFree_bit)
next
  case False
  then have "j \<noteq> i" by auto
  with False show ?thesis by (simp add: Bitmap_IsPageFree_bit)
qed

lemma IsPageFree_clear_bit:
  assumes used: "\<not> Bitmap_IsPageFree b i" and len: "i div 8 < length (bytes b)"
  shows "Bitmap_IsPageFree
           (b\<lparr>bytes := (bytes b)[i div 8 := bytes b ! (i div 8) - 2 ^ (i mod 8)]\<rparr>) j
         \<longleftrightarrow> Bitmap_IsPageFree b j \<or> j = i"
proof (cases "j div 8 = i div 8")
  case True
  let ?x = "bytes b ! (i div 8)"
  have nb: "bit ?x (i mod 8)" using used by (simp add: Bitmap_IsPageFree_bit)
  have "j = i \<longleftrightarrow> j mod 8 = i mod 8" using True mod8_div8_eq [of j i] by auto
  then show ?thesis
    using True len byte_sub_clears_bit [OF nb, of "j mod 8"]
    by (auto simp: Bitmap_IsPageFree_bit)
next
  case False
  then have "j \<noteq> i" by auto
  with False show ?thesis by (simp add: Bitmap_IsPageFree_bit)
qed

section \<open>The scan for the first free offset\<close>

lemma bitmap_first_free_found:
  assumes "i < bitmap_capacity ps" "Bitmap_IsPageFree b i"
  shows "bitmap_first_free ps b < bitmap_capacity ps
         \<and> Bitmap_IsPageFree b (bitmap_first_free ps b)
         \<and> (\<forall>j < bitmap_first_free ps b. \<not> Bitmap_IsPageFree b j)"
proof -
  have "find (Bitmap_IsPageFree b) [0..<bitmap_capacity ps] \<noteq> None"
    using assms by (auto simp: find_None_iff)
  then obtain k where k: "find (Bitmap_IsPageFree b) [0..<bitmap_capacity ps] = Some k" by blast
  then have "bitmap_first_free ps b = k" by (simp add: bitmap_first_free_def)
  moreover from k have "k < bitmap_capacity ps \<and> Bitmap_IsPageFree b k
      \<and> (\<forall>j < k. \<not> Bitmap_IsPageFree b j)"
    unfolding find_Some_iff by auto
  ultimately show ?thesis by simp
qed

lemma bitmap_abs_subset: "bitmap_abs ps b \<subseteq> {0..<bitmap_capacity ps}"
  by (auto simp: bitmap_abs_def)

lemma bitmap_abs_iff:
  "j \<in> bitmap_abs ps b \<longleftrightarrow> j < bitmap_capacity ps \<and> \<not> Bitmap_IsPageFree b j"
  by (auto simp: bitmap_abs_def)

lemma bitmap_free_iff:
  "j < bitmap_capacity ps \<Longrightarrow> Bitmap_IsPageFree b j \<longleftrightarrow> j \<notin> bitmap_abs ps b"
  by (simp add: bitmap_abs_iff)

lemma bitmap_free_exists:
  assumes "card (bitmap_abs ps b) < bitmap_capacity ps"
  shows "\<exists>i < bitmap_capacity ps. Bitmap_IsPageFree b i"
proof (rule ccontr)
  assume "\<not> ?thesis"
  then have "bitmap_abs ps b = {0..<bitmap_capacity ps}"
    by (auto simp: bitmap_abs_def)
  with assms show False by simp
qed

lemma bitmap_capacity_bound: "ps \<le> PAGE_SIZE \<Longrightarrow> bitmap_capacity ps < 2 ^ 32"
  by (simp add: bitmap_capacity_def BITMAP_MAX_CHARS_def PAGE_SIZE_def)

lemma div8_less_length:
  "i < bitmap_capacity ps \<Longrightarrow> length (bytes b) = BITMAP_MAX_CHARS ps \<Longrightarrow> i div 8 < length (bytes b)"
  by (simp add: bitmap_capacity_def less_mult_imp_div_less)

section \<open>Allocation and deallocation\<close>

text \<open>C4: on a consistent bitmap that is not full, AllocatePage succeeds and returns
  the lowest free offset; afterwards exactly that offset has been added to the set of
  allocated offsets, the counter has grown by one and the bitmap is consistent.\<close>

theorem Bitmap_AllocatePage_correct:
  assumes inv: "bitmap_inv ps b" and room: "unat (page_allocated b) < bitmap_capacity ps"
  shows "\<exists>i b'. Bitmap_AllocatePage ps b = (Some i, b')
           \<and> i < bitmap_capacity ps \<and> i \<notin> bitmap_abs ps b \<and> (\<forall>j < i. j \<in> bitmap_abs ps b)
           \<and> bitmap_abs ps b' = insert i (bitmap_abs ps b) \<and> bitmap_inv ps b'"
proof -
  let ?i = "bitmap_first_free ps b"
  let ?b' = "b\<lparr>next_free_page := of_nat ?i,
               bytes := (bytes b)[?i div 8 := bytes b ! (?i div 8) + 2 ^ (?i mod 8)],
               page_allocated := page_allocated b + 1\<rparr>"
  have len: "length (bytes b) = BITMAP_MAX_CHARS ps" and ps: "ps \<le> PAGE_SIZE"
    and cnt: "unat (page_allocated b) = card (bitmap_abs ps b)"
    using inv by (simp_all add: bitmap_inv_def)
  obtain k where "k < bitmap_capacity ps" "Bitmap_IsPageFree b k"
    using bitmap_free_exists room cnt by auto
  then have i: "?i < bitmap_capacity ps" "Bitmap_IsPageFree b ?i"
    "\<forall>j < ?i. \<not> Bitmap_IsPageFree b j"
    using bitmap_first_free_found by blast+
  have alloc: "Bitmap_AllocatePage ps b = (Some ?i, ?b')"
    using room by (simp add: Bitmap_AllocatePage_def Let_def)
  have free': "\<And>j. Bitmap_IsPageFree ?b' j \<longleftrightarrow> Bitmap_IsPageFree b j \<and> j \<noteq> ?i"
    using IsPageFree_set_bit [OF i(2) div8_less_length [OF i(1) len]]
    by (simp add: Bitmap_IsPageFree_def Bitmap_IsPageFreeLow_def)
  have abs': "bitmap_abs ps ?b' = insert ?i (bitmap_abs ps b)"
    using i(1) by (auto simp: bitmap_abs_iff free')
  have "unat (page_allocated b + 1) = unat (page_allocated b) + 1"
    using room bitmap_capacity_bound [OF ps] by (simp add: unat_word_ariths)
  moreover have "?i \<notin> bitmap_abs ps b" using i by (simp add: bitmap_abs_iff)
  ultimately have "bitmap_inv ps ?b'"
    using len ps cnt abs' by (simp add: bitmap_inv_def finite_subset [OF bitmap_abs_subset])
  moreover have "\<forall>j < ?i. j \<in> bitmap_abs ps b" using i by (simp add: bitmap_abs_iff)
  ultimately show ?thesis
    using alloc i abs' by (auto simp: bitmap_abs_iff)
qed

lemma empty_bitmap_abs [simp]: "bitmap_abs ps (empty_bitmap ps) = {}"
  by (auto simp: bitmap_abs_iff Bitmap_IsPageFree_bit empty_bitmap_def bitmap_capacity_def
                 nth_replicate less_mult_imp_div_less)

lemma empty_bitmap_inv: "ps \<le> PAGE_SIZE \<Longrightarrow> bitmap_inv ps (empty_bitmap ps)"
  by (simp add: bitmap_inv_def) (simp add: empty_bitmap_def)

lemma Bitmap_AllocatePage_correct_witness:
  "fst (Bitmap_AllocatePage 64 (empty_bitmap 64)) = Some 0"
proof -
  have "bitmap_inv 64 (empty_bitmap 64)"
    by (rule empty_bitmap_inv) (simp add: PAGE_SIZE_def)
  moreover have "unat (page_allocated (empty_bitmap 64)) < bitmap_capacity 64"
    by (simp add: empty_bitmap_def bitmap_capacity_def BITMAP_MAX_CHARS_def)
  ultimately obtain i b' where "Bitmap_AllocatePage 64 (empty_bitmap 64) = (Some i, b')"
      "\<forall>j < i. j \<in> bitmap_abs 64 (empty_bitmap 64)"
    using Bitmap_AllocatePage_correct by blast
  then show ?thesis by (cases i) auto
qed

text \<open>C5: on a consistent bitmap, AllocatePage fails (returns no offset and leaves the
  page unchanged) exactly when every offset of the extent is allocated.\<close>

theorem Bitmap_AllocatePage_full:
  assumes "bitmap_inv ps b"
  shows "(fst (Bitmap_AllocatePage ps b) = None)
           = (bitmap_abs ps b = {0..<bitmap_capacity ps})
         \<and> (fst (Bitmap_AllocatePage ps b) = None \<longrightarrow> snd (Bitmap_AllocatePage ps b) = b)"
proof -
  have cnt: "unat (page_allocated b) = card (bitmap_abs ps b)"
    using assms by (simp add: bitmap_inv_def)
  have "card (bitmap_abs ps b) = bitmap_capacity ps \<longleftrightarrow> bitmap_abs ps b = {0..<bitmap_capacity ps}"
    using card_subset_eq [OF finite_atLeastLessThan bitmap_abs_subset, of ps b] by auto
  moreover have "card (bitmap_abs ps b) \<le> bitmap_capacity ps"
    using card_mono [OF _ bitmap_abs_subset [of ps b]] by simp
  ultimately show ?thesis
    using cnt by (auto simp: Bitmap_AllocatePage_def Let_def)
qed

lemma Bitmap_AllocatePage_full_witness:
  "fst (Bitmap_AllocatePage 64 (empty_bitmap 64)) \<noteq> None"
proof -
  have "bitmap_inv 64 (empty_bitmap 64)"
    by (rule empty_bitmap_inv) (simp add: PAGE_SIZE_def)
  moreover have "bitmap_abs 64 (empty_bitmap 64) \<noteq> {0..<bitmap_capacity 64}"
    by (simp add: bitmap_capacity_def BITMAP_MAX_CHARS_def)
  ultimately show ?thesis using Bitmap_AllocatePage_full by blast
qed

text \<open>C6: on a consistent bitmap, DeAllocatePage of an offset succeeds exactly when
  the offset is allocated (an offset out of range or already free is a no-op returning
  false); afterwards exactly that offset has left the set of allocated offsets and
  the bitmap is consistent.\<close>

theorem Bitmap_DeAllocatePage_correct:
  assumes inv: "bitmap_inv ps b" and r: "Bitmap_DeAllocatePage ps off b = (ok, b')"
  shows "ok = (off \<in> bitmap_abs ps b) \<and> bitmap_abs ps b' = bitmap_abs ps b - {off}
         \<and> bitmap_inv ps b' \<and> (\<not> ok \<longrightarrow> b' = b)"
proof (cases "off \<in> bitmap_abs ps b")
  case False
  then have "ok = False" "b' = b"
    using r by (auto simp: Bitmap_DeAllocatePage_def bitmap_abs_iff split: if_splits)
  then show ?thesis using False inv by auto
next
  case True
  let ?b' = "b\<lparr>bytes := (bytes b)[off div 8 := bytes b ! (off div 8) - 2 ^ (off mod 8)],
               page_allocated := page_allocated b - 1\<rparr>"
  have len: "length (bytes b) = BITMAP_MAX_CHARS ps" and ps: "ps \<le> PAGE_SIZE"
    and cnt: "unat (page_allocated b) = card (bitmap_abs ps b)"
    using inv by (simp_all add: bitmap_inv_def)
  have off: "off < bitmap_capacity ps" "\<not> Bitmap_IsPageFree b off"
    using True by (simp_all add: bitmap_abs_iff)
  have res: "ok = True" "b' = ?b'"
    using r off by (simp_all add: Bitmap_DeAllocatePage_def Let_def)
  have free': "\<And>j. Bitmap_IsPageFree ?b' j \<longleftrightarrow> Bitmap_IsPageFree b j \<or> j = off"
    using IsPageFree_clear_bit [OF off(2) div8_less_length [OF off(1) len]]
    by (simp add: Bitmap_IsPageFree_def Bitmap_IsPageFreeLow_def)
  have abs': "bitmap_abs ps ?b' = bitmap_abs ps b - {off}"
    by (auto simp: bitmap_abs_iff free')
  have pos: "0 < card (bitmap_abs ps b)"
    using True finite_subset [OF bitmap_abs_subset] card_gt_0_iff by blast
  then have "page_allocated b \<noteq> 0" using cnt by auto
  then have "unat (page_allocated b - 1) = unat (page_allocated b) - 1"
    by (simp add: unat_minus_one)
  then have "bitmap_inv ps ?b'"
    using len ps cnt abs' True by (simp add: bitmap_inv_def finite_subset [OF bitmap_abs_subset])
  then show ?thesis using res abs' True by simp
qed

lemma Bitmap_DeAllocatePage_correct_witness:
  "fst (Bitmap_DeAllocatePage 64 0 (snd (Bitmap_AllocatePage 64 (empty_bitmap 64)))) = True
   \<and> fst (Bitmap_DeAllocatePage 64 0 (empty_bitmap 64)) = False"
proof -
  let ?b = "snd (Bitmap_AllocatePage 64 (empty_bitmap 64))"
  have inv0: "bitmap_inv 64 (empty_bitmap 64)"
    by (rule empty_bitmap_inv) (simp add: PAGE_SIZE_def)
  have "unat (page_allocated (empty_bitmap 64)) < bitmap_capacity 64"
    by (simp add: empty_bitmap_def bitmap_capacity_def BITMAP_MAX_CHARS_def)
  from Bitmap_AllocatePage_correct [OF inv0 this]
  obtain i b' where a: "Bitmap_AllocatePage 64 (empty_bitmap 64) = (Some i, b')"
      "i < bitmap_capacity 64" "i \<notin> bitmap_abs 64 (empty_bitmap 64)"
      "\<forall>j < i. j \<in> bitmap_abs 64 (empty_bitmap 64)"
      "bitmap_abs 64 b' = insert i (bitmap_abs 64 (empty_bitmap 64))" "bitmap_inv 64 b'"
    by blast
  from a(4) have "i = 0" by (cases i) auto
  with a have b: "?b = b'" "bitmap_abs 64 b' = {0}" by simp_all
  obtain ok b'' where d: "Bitmap_DeAllocatePage 64 0 ?b = (ok, b'')" by fastforce
  then have "ok = True"
    using Bitmap_DeAllocatePage_correct [OF a(6)] b by auto
  moreover obtain ok0 b0 where d0: "Bitmap_DeAllocatePage 64 0 (empty_bitmap 64) = (ok0, b0)"
    by fastforce
  then have "ok0 = False"
    using Bitmap_DeAllocatePage_correct [OF inv0] by auto
  ultimately show ?thesis using d d0 by simp
qed

section \<open>The page image\<close>

text \<open>Reading a bitmap back from the bytes it is stored as gives the same bitmap,
  and storing a bitmap read from a page gives back the page: the
  \<open>reinterpret_cast\<close> between a page of PageSize bytes and the BitmapPage
  structure is a bijection.\<close>

theorem bitmap_page_roundtrip:
  "(length (bytes b) = BITMAP_MAX_CHARS ps \<longrightarrow> bitmap_of_page ps (page_of_bitmap b) = b)
   \<and> (length p = ps \<and> 8 \<le> ps \<longrightarrow> page_of_bitmap (bitmap_of_page ps p) = p)"
proof (intro conjI impI)
  assume "length (bytes b) = BITMAP_MAX_CHARS ps"
  then show "bitmap_of_page ps (page_of_bitmap b) = b"
    by (simp add: bitmap_of_page_def page_of_bitmap_def)
next
  assume p: "length p = ps \<and> 8 \<le> ps"
  have l1: "length (take 4 p) = 4" and l2: "length (take 4 (drop 4 p)) = 4"
    using p by (simp_all add: min_def, arith)
  have "le_bytes 4 (le_word (take 4 p) :: 32 word) = take 4 p"
    using le_bytes_le_word [of "take 4 p", where 'a=32] unfolding l1 by simp
  moreover have "le_bytes 4 (le_word (take 4 (drop 4 p)) :: 32 word) = take 4 (drop 4 p)"
    using le_bytes_le_word [of "take 4 (drop 4 p)", where 'a=32] unfolding l2 by simp
  moreover have "take 4 p @ take 4 (drop 4 p) @ drop 8 p = p"
    by (metis append_take_drop_id drop_drop numeral_Bit0 numeral_code(2))
  ultimately show "page_of_bitmap (bitmap_of_page ps p) = p"
    using p by (simp add: bitmap_of_page_def page_of_bitmap_def BITMAP_MAX_CHARS_def)
qed

lemma bitmap_page_roundtrip_witness:
  "bitmap_of_page 64 (page_of_bitmap (empty_bitmap 64)) = empty_bitmap 64
   \<and> page_of_bitmap (bitmap_of_page 64 (replicate 64 0)) = replicate 64 0"
  using bitmap_page_roundtrip [of "empty_bitmap 64" 64 "replicate 64 0"]
  by (simp add: empty_bitmap_def)

end
