(* ===== verification/Disk_Manager.thy ===== *)
theory Disk_Manager
  imports Bitmap_Page
begin

text \<open>
  The disk manager of \<^verbatim>\<open>src/src/storage/disk_manager.cpp\<close>.  The database file
  is a map from physical page numbers to the page last written there, with the
  file's length in pages (what \<open>stat\<close> reports, through \<open>GetFileSize\<close>), and
  the stream \<open>db_io_\<close> carries its fail bit: once a seek has failed, every later
  read and write of the stream does nothing.  The meta page \<open>meta_data_\<close> is held
  in memory as a record of its \<open>uint32_t\<close> fields.  Physical page 0 is the meta
  page, extent \<open>e\<close> is a bitmap page at \<open>e * (BITMAP_SIZE + 1) + 1\<close> followed by
  \<open>BITMAP_SIZE\<close> data pages, and \<open>MapPageId\<close> sends a logical page to its
  physical slot.

  Widths follow the code.  Page ids are \<open>page_id_t\<close> (32-bit \<open>int\<close>):
  \<open>ReadPage\<close> and \<open>WritePage\<close> read their argument at that width, and
  \<open>MapPageId\<close>'s \<open>size_t\<close> sum wraps when it is returned as \<open>page_id_t\<close>
  (\<open>int32\<close>).  The extent arithmetic of \<open>AllocatePage\<close>, \<open>IsPageFree\<close> and
  \<open>DeAllocatePage\<close> is \<open>size_t\<close>; its page numbers stay below \<open>2^31\<close> up to
  extent 65663, far past the 1022 extents the meta page describes, so it is exact
  here.  \<open>ReadPhysicalPage\<close> computes its byte offset as
  \<open>int offset = physical_page_id * PAGE_SIZE\<close> and compares it with the \<open>int\<close>
  file size, both wrapping at \<open>2^31\<close>; \<open>WritePhysicalPage\<close> computes a \<open>size_t\<close>
  offset, exact, and a negative page id becomes a failed seek.  \<open>ReadPage\<close> and
  \<open>WritePage\<close> \<open>ASSERT\<close> a non-negative page id: a failed assertion aborts the
  process and is \<open>None\<close> here.  The constants \<open>BITMAP_SIZE\<close>, \<open>NUM_EXTENTS\<close> and
  \<open>MAX_VALID_PAGE_ID\<close> come from the headers (not part of the sources), which
  declare them \<open>size_t\<close>, and follow the spec.
\<close>

record disk_meta =
  num_allocated_pages :: "32 word"
  num_extents :: "32 word"
  extent_used_page :: "32 word list"

record disk_manager =
  db_io :: "nat \<Rightarrow> byte list option"
  file_pages :: nat
  io_failed :: bool
  meta_data :: disk_meta

definition BITMAP_SIZE :: nat where
  "BITMAP_SIZE = bitmap_capacity PAGE_SIZE"

definition NUM_EXTENTS :: nat where
  "NUM_EXTENTS = (PAGE_SIZE - 2 * 4) div 4"

definition MAX_VALID_PAGE_ID :: nat where
  "MAX_VALID_PAGE_ID = NUM_EXTENTS * BITMAP_SIZE"

definition META_PAGE_ID :: nat where
  "META_PAGE_ID = 0"

text \<open>The physical page of extent \<open>e\<close>'s bitmap, as the code computes it inline
  (in \<open>size_t\<close>, exact).\<close>

definition extent_bitmap_page :: "nat \<Rightarrow> nat" where
  "extent_bitmap_page e = e * (BITMAP_SIZE + 1) + 1"

text \<open>The pages an \<open>int\<close> byte offset reaches, and the extents whose bitmap page
  lies below that bound with room for the file to grow to it: the first 17.\<close>

definition INT_PAGES :: nat where
  "INT_PAGES = 2 ^ 31 div PAGE_SIZE"

definition IO_EXTENTS :: nat where
  "IO_EXTENTS = (INT_PAGES - 3) div (BITMAP_SIZE + 1) + 1"

definition MapPageId :: "page_id \<Rightarrow> int" where
  "MapPageId logical_page_id = int32 (cdiv logical_page_id (int BITMAP_SIZE) + 2 + logical_page_id)"

definition Disk_GetFileSize :: "disk_manager \<Rightarrow> int" where
  "Disk_GetFileSize d = int32 (int (file_pages d * PAGE_SIZE))"

definition Disk_ReadPhysicalPage :: "disk_manager \<Rightarrow> int \<Rightarrow> byte list \<times> disk_manager" where
  "Disk_ReadPhysicalPage d physical_page_id =
     (let offset = int32 (physical_page_id * int PAGE_SIZE) in
      if Disk_GetFileSize d \<le> offset then (zero_page, d)
      else if io_failed d \<or> offset < 0 then (zero_page, d\<lparr>io_failed := True\<rparr>)
      else ((case db_io d (nat offset div PAGE_SIZE) of None \<Rightarrow> zero_page | Some p \<Rightarrow> p), d))"

definition Disk_WritePhysicalPage :: "int \<Rightarrow> byte list \<Rightarrow> disk_manager \<Rightarrow> disk_manager" where
  "Disk_WritePhysicalPage physical_page_id page_data d =
     (if io_failed d then d
      else if physical_page_id < 0 then d\<lparr>io_failed := True\<rparr>
      else d\<lparr>db_io := (db_io d)(nat physical_page_id \<mapsto> page_data),
             file_pages := max (file_pages d) (Suc (nat physical_page_id))\<rparr>)"

definition Disk_ReadPage :: "disk_manager \<Rightarrow> page_id \<Rightarrow> (byte list \<times> disk_manager) option" where
  "Disk_ReadPage d logical_page_id =
     (let L = int32 logical_page_id in
      if 0 \<le> L then Some (Disk_ReadPhysicalPage d (MapPageId L)) else None)"

definition Disk_WritePage :: "page_id \<Rightarrow> byte list \<Rightarrow> disk_manager \<Rightarrow> disk_manager option" where
  "Disk_WritePage logical_page_id page_data d =
     (let L = int32 logical_page_id in
      if 0 \<le> L then Some (Disk_WritePhysicalPage (MapPageId L) page_data d) else None)"

text \<open>The bitmap of extent \<open>e\<close> as \<open>ReadPhysicalPage\<close> returns it.\<close>

definition disk_bitmap :: "disk_manager \<Rightarrow> nat \<Rightarrow> bitmap_page" where
  "disk_bitmap d e = bitmap_of_page PAGE_SIZE (fst (Disk_ReadPhysicalPage d (int (extent_bitmap_page e))))"

definition Disk_AllocatePage :: "disk_manager \<Rightarrow> page_id \<times> disk_manager" where
  "Disk_AllocatePage d =
     (let m = meta_data d in
      if unat (num_allocated_pages m) < MAX_VALID_PAGE_ID then
        (let m1 = (if num_extents m = 0
                      \<or> BITMAP_SIZE \<le> unat (extent_used_page m ! (unat (num_extents m) - 1))
                   then m\<lparr>num_extents := num_extents m + 1\<rparr> else m);
             e = unat (num_extents m1) - 1;
             bp = int (extent_bitmap_page e);
             (bitmap_data, d1) = Disk_ReadPhysicalPage d bp;
             (r, bitmap') = Bitmap_AllocatePage PAGE_SIZE (bitmap_of_page PAGE_SIZE bitmap_data);
             allo_page_id_in_bitmap = (case r of Some off \<Rightarrow> off | None \<Rightarrow> 0);
             m2 = m1\<lparr>num_allocated_pages := num_allocated_pages m1 + 1,
                     extent_used_page := (extent_used_page m1)[e := extent_used_page m1 ! e + 1]\<rparr>
         in (int (e * BITMAP_SIZE + allo_page_id_in_bitmap),
             Disk_WritePhysicalPage bp (page_of_bitmap bitmap') (d1\<lparr>meta_data := m2\<rparr>)))
      else (INVALID_PAGE_ID, d))"

definition Disk_IsPageFree :: "disk_manager \<Rightarrow> page_id \<Rightarrow> bool \<times> disk_manager" where
  "Disk_IsPageFree d logical_page_id =
     (if logical_page_id < 0 then (False, d)
      else (let (bitmap_data, d1) =
                  Disk_ReadPhysicalPage d (int (extent_bitmap_page (nat logical_page_id div BITMAP_SIZE)))
            in (Bitmap_IsPageFree (bitmap_of_page PAGE_SIZE bitmap_data) (nat logical_page_id mod BITMAP_SIZE), d1)))"

definition Disk_DeAllocatePage :: "page_id \<Rightarrow> disk_manager \<Rightarrow> disk_manager" where
  "Disk_DeAllocatePage logical_page_id d =
     (if logical_page_id < 0 then d
      else (let (free, d0) = Disk_IsPageFree d logical_page_id in
            if \<not> free then
              (let m = meta_data d0;
                   e = nat logical_page_id div BITMAP_SIZE;
                   bp = int (extent_bitmap_page e);
                   (bitmap_data, d1) = Disk_ReadPhysicalPage d0 bp;
                   bitmap' = snd (Bitmap_DeAllocatePage PAGE_SIZE (nat logical_page_id mod BITMAP_SIZE)
                                    (bitmap_of_page PAGE_SIZE bitmap_data));
                   m' = m\<lparr>num_allocated_pages := num_allocated_pages m - 1,
                          extent_used_page := (extent_used_page m)[e := extent_used_page m ! e - 1]\<rparr>
               in Disk_WritePhysicalPage bp (page_of_bitmap bitmap') (d1\<lparr>meta_data := m'\<rparr>))
            else d0))"

text \<open>A new database file: empty, the stream good, the meta page read as zeros.\<close>

definition init_disk :: disk_manager where
  "init_disk = \<lparr>db_io = Map.empty, file_pages = 0, io_failed = False,
                meta_data = \<lparr>num_allocated_pages = 0, num_extents = 0,
                             extent_used_page = replicate NUM_EXTENTS 0\<rparr>\<rparr>"

text \<open>A fresh file whose meta data counts the first \<open>IO_EXTENTS\<close> extents as
  opened and the last of them as full.\<close>

definition disk_io_full :: disk_manager where
  "disk_io_full = init_disk\<lparr>meta_data := \<lparr>num_allocated_pages = of_nat (IO_EXTENTS * BITMAP_SIZE),
     num_extents = of_nat IO_EXTENTS,
     extent_used_page = (replicate NUM_EXTENTS 0)[IO_EXTENTS - 1 := of_nat BITMAP_SIZE]\<rparr>\<rparr>"

text \<open>
  Where the \<open>int\<close> arithmetic of \<open>ReadPhysicalPage\<close> is exact: the stream has
  not failed, the file is below \<open>2^31\<close> bytes, and nothing lies past its end.
\<close>

definition disk_io_ok :: "disk_manager \<Rightarrow> bool" where
  "disk_io_ok d \<longleftrightarrow> \<not> io_failed d \<and> file_pages d < INT_PAGES \<and> (\<forall>p. file_pages d \<le> p \<longrightarrow> db_io d p = None)"

text \<open>
  The consistency of the meta page with the bitmaps (invariant 3 of the spec), on
  a file where reads are exact: every extent's bitmap is consistent, its entry in
  \<open>extent_used_page_\<close> counts its allocated pages, extents past \<open>num_extents_\<close>
  are unused, and the counters add up to \<open>num_allocated_pages_\<close>.  Only the
  \<open>IO_EXTENTS\<close> extents whose bitmaps an \<open>int\<close> offset reaches can be open.
\<close>

definition disk_inv :: "disk_manager \<Rightarrow> bool" where
  "disk_inv d \<longleftrightarrow> disk_io_ok d \<and>
     (let m = meta_data d in
      length (extent_used_page m) = NUM_EXTENTS \<and> unat (num_extents m) \<le> IO_EXTENTS
      \<and> (\<forall>e < IO_EXTENTS. bitmap_inv PAGE_SIZE (disk_bitmap d e)
            \<and> unat (extent_used_page m ! e) = card (bitmap_abs PAGE_SIZE (disk_bitmap d e))
            \<and> (unat (num_extents m) \<le> e \<longrightarrow> extent_used_page m ! e = 0))
      \<and> (\<forall>e < NUM_EXTENTS. IO_EXTENTS \<le> e \<longrightarrow> extent_used_page m ! e = 0)
      \<and> unat (num_allocated_pages m) = sum_list (map unat (extent_used_page m)))"

section \<open>Physical layout\<close>

lemma BITMAP_SIZE_val: "BITMAP_SIZE = 32704"
  by (simp add: BITMAP_SIZE_def bitmap_capacity_def BITMAP_MAX_CHARS_def PAGE_SIZE_def)

lemma NUM_EXTENTS_val: "NUM_EXTENTS = 1022"
  by (simp add: NUM_EXTENTS_def PAGE_SIZE_def)

lemma MAX_VALID_PAGE_ID_val: "MAX_VALID_PAGE_ID = 33423488"
  by (simp add: MAX_VALID_PAGE_ID_def NUM_EXTENTS_val BITMAP_SIZE_val)

lemma INT_PAGES_val: "INT_PAGES = 524288"
  by (simp add: INT_PAGES_def PAGE_SIZE_def)

lemma IO_EXTENTS_val: "IO_EXTENTS = 17"
  by (simp add: IO_EXTENTS_def INT_PAGES_val BITMAP_SIZE_val)

lemma extent_div_bounds: "0 \<le> L \<Longrightarrow> 0 \<le> L div int BITMAP_SIZE \<and> L div int BITMAP_SIZE \<le> L"
  using zdiv_mono2 [of L 1 "int BITMAP_SIZE"] by (simp add: BITMAP_SIZE_val)

text \<open>Below \<open>MAX_VALID_PAGE_ID\<close> the sum of \<open>MapPageId\<close> stays below \<open>2^31\<close>, so
  its conversion to \<open>page_id_t\<close> is the identity.\<close>

lemma MapPageId_exact:
  assumes "0 \<le> L" "L < int MAX_VALID_PAGE_ID"
  shows "MapPageId L = L div int BITMAP_SIZE + 2 + L"
proof -
  have "L div int BITMAP_SIZE \<le> L" "0 \<le> L div int BITMAP_SIZE"
    using extent_div_bounds [OF assms(1)] by simp_all
  then have "L div int BITMAP_SIZE + 2 + L < 2 ^ 31" "- (2 ^ 31) \<le> L div int BITMAP_SIZE + 2 + L"
    using assms by (simp_all add: MAX_VALID_PAGE_ID_val)
  then show ?thesis using assms(1) by (simp add: MapPageId_def BITMAP_SIZE_val)
qed

lemma MapPageId_nat:
  assumes "n < MAX_VALID_PAGE_ID"
  shows "MapPageId (int n) = int (extent_bitmap_page (n div BITMAP_SIZE) + 1 + n mod BITMAP_SIZE)"
proof -
  obtain q r where n: "n = q * BITMAP_SIZE + r" "r < BITMAP_SIZE"
    using div_mult_mod_eq [of n BITMAP_SIZE] mod_less_divisor [of BITMAP_SIZE n]
    by (metis BITMAP_SIZE_val zero_less_numeral)
  then have qr: "n div BITMAP_SIZE = q" "n mod BITMAP_SIZE = r" by simp_all
  have "int n div int BITMAP_SIZE = int q" using qr(1) zdiv_int [of n BITMAP_SIZE] by simp
  moreover have "MapPageId (int n) = int n div int BITMAP_SIZE + 2 + int n"
    using MapPageId_exact [of "int n"] assms by simp
  ultimately show ?thesis
    using n(1) qr by (simp add: extent_bitmap_page_def algebra_simps)
qed

lemma MapPageId_nonneg:
  "0 \<le> L \<Longrightarrow> L < int MAX_VALID_PAGE_ID \<Longrightarrow>
   MapPageId L = int (extent_bitmap_page (nat L div BITMAP_SIZE)) + 1 + int (nat L mod BITMAP_SIZE)"
  using MapPageId_nat [of "nat L"] by simp

lemma MapPageId_mono:
  assumes "0 \<le> L" "L < L'" "L' < int MAX_VALID_PAGE_ID"
  shows "MapPageId L < MapPageId L'"
proof -
  have "L div int BITMAP_SIZE \<le> L' div int BITMAP_SIZE"
    using assms by (intro zdiv_mono1) (simp_all add: BITMAP_SIZE_val)
  then show ?thesis using assms MapPageId_exact [of L] MapPageId_exact [of L'] by simp
qed

lemma MapPageId_between:
  assumes "0 \<le> L" "L < int MAX_VALID_PAGE_ID"
  shows "int (extent_bitmap_page (nat L div BITMAP_SIZE)) < MapPageId L
       \<and> MapPageId L < int (extent_bitmap_page (Suc (nat L div BITMAP_SIZE)))"
proof -
  let ?q = "nat L div BITMAP_SIZE" and ?r = "nat L mod BITMAP_SIZE"
  have r: "?r < BITMAP_SIZE" by (simp add: BITMAP_SIZE_val)
  have eq: "MapPageId L = int (extent_bitmap_page ?q) + 1 + int ?r"
    using assms by (rule MapPageId_nonneg)
  then show ?thesis using r by (simp add: extent_bitmap_page_def)
qed

text \<open>Over the whole range of \<open>page_id_t\<close>, \<open>MapPageId\<close> of a non-negative id is
  never the meta page: the sum is at least 2, and past \<open>2^31\<close> it wraps to a
  negative id.\<close>

lemma MapPageId_not_meta:
  assumes "0 \<le> L" "L < 2 ^ 31"
  shows "MapPageId L \<noteq> int META_PAGE_ID"
proof -
  let ?S = "L div int BITMAP_SIZE + 2 + L"
  have q: "L div int BITMAP_SIZE \<le> L" "0 \<le> L div int BITMAP_SIZE"
    using extent_div_bounds [OF assms(1)] by simp_all
  have "int BITMAP_SIZE * (L div int BITMAP_SIZE) = L - L mod int BITMAP_SIZE"
    by (rule minus_mod_eq_mult_div [symmetric])
  moreover have "0 \<le> L mod int BITMAP_SIZE" by (simp add: BITMAP_SIZE_val)
  ultimately have q2: "32704 * (L div int BITMAP_SIZE) \<le> L" by (simp add: BITMAP_SIZE_val)
  have m: "MapPageId L = int32 ?S" using assms(1) by (simp add: MapPageId_def BITMAP_SIZE_val)
  show ?thesis
  proof (cases "?S < 2 ^ 31")
    case True
    then show ?thesis using q m by (simp add: META_PAGE_ID_def)
  next
    case False
    then have "int32 ?S = ?S - 2 ^ 32" using q assms by (intro int32_wrap) simp_all
    then show ?thesis using q q2 assms m by (simp add: META_PAGE_ID_def)
  qed
qed

text \<open>C7: the logical-to-physical page map puts every page \<open>AllocatePage\<close> can
  hand out (below \<open>MAX_VALID_PAGE_ID\<close>) strictly between the bitmap page of its
  own extent and the bitmap page of the next extent, so no data page is ever the
  meta page or any extent's bitmap page, and two distinct such logical pages
  never share a physical page.\<close>

theorem MapPageId_layout:
  assumes "0 \<le> L" "L < int MAX_VALID_PAGE_ID" and "0 \<le> L'" "L' < int MAX_VALID_PAGE_ID"
  shows "int (extent_bitmap_page (nat L div BITMAP_SIZE)) < MapPageId L
       \<and> MapPageId L < int (extent_bitmap_page (Suc (nat L div BITMAP_SIZE)))
       \<and> (\<forall>e. nat (MapPageId L) \<noteq> extent_bitmap_page e)
       \<and> nat (MapPageId L) \<noteq> META_PAGE_ID
       \<and> (MapPageId L = MapPageId L' \<longrightarrow> L = L')"
proof -
  let ?q = "nat L div BITMAP_SIZE"
  have lo: "int (extent_bitmap_page ?q) < MapPageId L"
    and hi: "MapPageId L < int (extent_bitmap_page (Suc ?q))"
    using MapPageId_between [OF assms(1,2)] by simp_all
  have notbm: "nat (MapPageId L) \<noteq> extent_bitmap_page e" for e
  proof (cases "e \<le> ?q")
    case True
    then have "extent_bitmap_page e \<le> extent_bitmap_page ?q"
      using mult_le_mono1 [of e ?q "BITMAP_SIZE + 1"] by (simp add: extent_bitmap_page_def)
    then have "MapPageId L \<noteq> int (extent_bitmap_page e)" using lo by linarith
    then show ?thesis using lo by auto
  next
    case False
    then have "extent_bitmap_page (Suc ?q) \<le> extent_bitmap_page e"
      using mult_le_mono1 [of "Suc ?q" e "BITMAP_SIZE + 1"] by (simp add: extent_bitmap_page_def)
    then have "MapPageId L \<noteq> int (extent_bitmap_page e)" using hi by linarith
    then show ?thesis using lo by auto
  qed
  have "nat (MapPageId L) \<noteq> META_PAGE_ID" using lo by (simp add: META_PAGE_ID_def)
  moreover have "MapPageId L = MapPageId L' \<longrightarrow> L = L'"
    using MapPageId_mono assms by (metis less_irrefl linorder_neqE)
  ultimately show ?thesis using lo hi notbm by blast
qed

lemma MapPageId_layout_witness:
  "MapPageId 32704 = 32707 \<and> int (extent_bitmap_page 1) = 32706 \<and> int (extent_bitmap_page 1) < MapPageId 32704"
proof -
  have b: "0 \<le> (32704::int)" "(32704::int) < int MAX_VALID_PAGE_ID" "0 \<le> (0::int)" "(0::int) < int MAX_VALID_PAGE_ID"
    by (simp_all add: MAX_VALID_PAGE_ID_val)
  have "int (extent_bitmap_page (nat 32704 div BITMAP_SIZE)) < MapPageId 32704"
    using MapPageId_layout [OF b] by simp
  moreover have "MapPageId 32704 = 32707" by (simp add: MapPageId_def BITMAP_SIZE_val int32_def)
  ultimately show ?thesis by (simp add: BITMAP_SIZE_val extent_bitmap_page_def)
qed

section \<open>Reading and writing the file\<close>

lemma extent_bitmap_page_io: "e < IO_EXTENTS \<Longrightarrow> Suc (extent_bitmap_page e) < INT_PAGES"
proof -
  assume "e < IO_EXTENTS"
  then have "e * 32705 \<le> 16 * 32705" by (intro mult_le_mono1) (simp add: IO_EXTENTS_val)
  then show ?thesis by (simp add: extent_bitmap_page_def BITMAP_SIZE_val INT_PAGES_val)
qed

text \<open>On a file where the arithmetic is exact, reading a page below \<open>2^31\<close>
  bytes returns what was last written there (zeros if nothing was) and leaves
  the stream good, and writing a page below it stores the page.\<close>

lemma Disk_ReadPhysicalPage_ok:
  assumes io: "disk_io_ok d" and p: "p < INT_PAGES"
  shows "Disk_ReadPhysicalPage d (int p) = ((case db_io d p of None \<Rightarrow> zero_page | Some pg \<Rightarrow> pg), d)"
proof -
  have fp: "file_pages d < INT_PAGES" "\<not> io_failed d" "\<And>q. file_pages d \<le> q \<Longrightarrow> db_io d q = None"
    using io by (simp_all add: disk_io_ok_def)
  have off: "int32 (int p * int PAGE_SIZE) = int (p * PAGE_SIZE)"
    using p by (simp add: INT_PAGES_val PAGE_SIZE_def)
  have fs: "Disk_GetFileSize d = int (file_pages d * PAGE_SIZE)"
    using fp(1) by (simp add: Disk_GetFileSize_def INT_PAGES_val PAGE_SIZE_def)
  show ?thesis
  proof (cases "file_pages d \<le> p")
    case True
    then show ?thesis using fp(3) [OF True] off fs by (simp add: Disk_ReadPhysicalPage_def PAGE_SIZE_def)
  next
    case False
    then have "p * PAGE_SIZE < file_pages d * PAGE_SIZE" by (simp add: PAGE_SIZE_def)
    then show ?thesis using off fs fp(2) by (simp add: Disk_ReadPhysicalPage_def nat_mult_distrib PAGE_SIZE_def)
  qed
qed

lemma Disk_WritePhysicalPage_ok:
  assumes io: "disk_io_ok d" and p: "Suc p < INT_PAGES"
  shows "Disk_WritePhysicalPage (int p) x d =
           d\<lparr>db_io := (db_io d)(p \<mapsto> x), file_pages := max (file_pages d) (Suc p)\<rparr>
         \<and> disk_io_ok (Disk_WritePhysicalPage (int p) x d)"
  using assms by (auto simp: Disk_WritePhysicalPage_def disk_io_ok_def)

lemma disk_io_ok_meta [simp]: "disk_io_ok (d\<lparr>meta_data := m\<rparr>) = disk_io_ok d"
  by (simp add: disk_io_ok_def)

lemma disk_bitmap_meta [simp]: "disk_bitmap (d\<lparr>meta_data := m\<rparr>) = disk_bitmap d"
  by (simp add: disk_bitmap_def Disk_ReadPhysicalPage_def Disk_GetFileSize_def Let_def fun_eq_iff)

lemma le_word_zeros: "(le_word (replicate n 0) :: 'a::len word) = 0"
  by (induction n) (simp_all add: le_word_def le_word_Cons)

lemma bitmap_of_zero_page: "bitmap_of_page PAGE_SIZE zero_page = empty_bitmap PAGE_SIZE"
  by (simp add: zero_page_def bitmap_of_page_def empty_bitmap_def BITMAP_MAX_CHARS_def PAGE_SIZE_def
                take_replicate le_word_zeros)

lemma disk_bitmap_ok:
  "disk_io_ok d \<Longrightarrow> e < IO_EXTENTS \<Longrightarrow>
   disk_bitmap d e = bitmap_of_page PAGE_SIZE (case db_io d (extent_bitmap_page e) of None \<Rightarrow> zero_page | Some p \<Rightarrow> p)"
  using Disk_ReadPhysicalPage_ok [of d "extent_bitmap_page e"] extent_bitmap_page_io [of e]
  by (simp add: disk_bitmap_def)

lemma disk_bitmap_zero:
  "disk_io_ok d \<Longrightarrow> e < IO_EXTENTS \<Longrightarrow> db_io d (extent_bitmap_page e) = None \<Longrightarrow>
   disk_bitmap d e = empty_bitmap PAGE_SIZE"
  by (simp add: disk_bitmap_ok bitmap_of_zero_page)

lemma disk_io_ok_init: "disk_io_ok init_disk"
  by (simp add: disk_io_ok_def init_disk_def INT_PAGES_val)

text \<open>On a fresh file a page of the first extent reads as zeros.\<close>

lemma Disk_ReadPage_init:
  assumes "0 \<le> L" "L < int BITMAP_SIZE"
  shows "Disk_ReadPage init_disk L = Some (zero_page, init_disk)"
proof -
  have m: "MapPageId L = int (nat L + 2)"
    using MapPageId_exact [of L] assms by (simp add: MAX_VALID_PAGE_ID_val BITMAP_SIZE_val div_pos_pos_trivial)
  have p: "nat L + 2 < INT_PAGES" using assms by (simp add: INT_PAGES_val BITMAP_SIZE_val)
  have "db_io init_disk (nat L + 2) = None" by (simp add: init_disk_def)
  then have r: "Disk_ReadPhysicalPage init_disk (int (nat L + 2)) = (zero_page, init_disk)"
    using Disk_ReadPhysicalPage_ok [OF disk_io_ok_init p] by simp
  have "int32 L = L" using assms by (simp add: BITMAP_SIZE_val)
  then show ?thesis using assms m r by (simp add: Disk_ReadPage_def)
qed

lemma extent_bitmap_page_inj: "extent_bitmap_page e = extent_bitmap_page e' \<longleftrightarrow> e = e'"
  unfolding extent_bitmap_page_def add_right_cancel mult_cancel2 by simp

lemma disk_bitmap_write:
  assumes io: "disk_io_ok d" and e: "e < IO_EXTENTS" "e' < IO_EXTENTS"
    and len: "length (bytes bm) = BITMAP_MAX_CHARS PAGE_SIZE"
  shows "disk_bitmap (Disk_WritePhysicalPage (int (extent_bitmap_page e)) (page_of_bitmap bm) d) e'
         = (if e' = e then bm else disk_bitmap d e')"
proof -
  note w = Disk_WritePhysicalPage_ok [OF io extent_bitmap_page_io [OF e(1)], of "page_of_bitmap bm"]
  show ?thesis
    using disk_bitmap_ok [OF w [THEN conjunct2] e(2)] disk_bitmap_ok [OF io e(2)] len
      bitmap_page_roundtrip [of bm PAGE_SIZE]
    by (simp add: w [THEN conjunct1] extent_bitmap_page_inj)
qed

lemma extent_of_io_page:
  "0 \<le> L \<Longrightarrow> L < int (IO_EXTENTS * BITMAP_SIZE) \<Longrightarrow> nat L div BITMAP_SIZE < IO_EXTENTS"
  by (simp add: less_mult_imp_div_less BITMAP_SIZE_val IO_EXTENTS_val nat_less_iff)

text \<open>On such a file, \<open>IsPageFree\<close> of a page of the first \<open>IO_EXTENTS\<close> extents
  tests the bit of the extent's bitmap and leaves the stream as it was.\<close>

lemma Disk_IsPageFree_ok:
  assumes io: "disk_io_ok d" and L: "0 \<le> L" "nat L div BITMAP_SIZE < IO_EXTENTS"
  shows "Disk_IsPageFree d L =
           (Bitmap_IsPageFree (disk_bitmap d (nat L div BITMAP_SIZE)) (nat L mod BITMAP_SIZE), d)"
  using Disk_ReadPhysicalPage_ok [OF io, of "extent_bitmap_page (nat L div BITMAP_SIZE)"]
    extent_bitmap_page_io [OF L(2)] L(1)
  by (simp add: Disk_IsPageFree_def disk_bitmap_def)

lemma disk_inv_init: "disk_inv init_disk"
proof -
  note io = disk_io_ok_init
  have "disk_bitmap init_disk e = empty_bitmap PAGE_SIZE" if "e < IO_EXTENTS" for e
    using disk_bitmap_zero [OF io that] by (simp add: init_disk_def)
  then show ?thesis using io
    by (simp add: disk_inv_def init_disk_def empty_bitmap_inv sum_list_replicate IO_EXTENTS_val NUM_EXTENTS_val)
qed

lemma BITMAP_SIZE_cap: "bitmap_capacity PAGE_SIZE = BITMAP_SIZE"
  by (simp add: BITMAP_SIZE_def)

text \<open>Writing a new bitmap for extent \<open>e\<close> (and new meta data) changes the status of
  the pages of extent \<open>e\<close> to what the new bitmap says, and of no other page of the
  first \<open>IO_EXTENTS\<close> extents.\<close>

lemma Disk_IsPageFree_write_bitmap:
  assumes io: "disk_io_ok d" and e: "e < IO_EXTENTS"
    and len: "length (bytes bm') = BITMAP_MAX_CHARS PAGE_SIZE"
    and L: "0 \<le> L" "nat L div BITMAP_SIZE < IO_EXTENTS"
  shows "fst (Disk_IsPageFree
           (Disk_WritePhysicalPage (int (extent_bitmap_page e)) (page_of_bitmap bm') (d\<lparr>meta_data := m\<rparr>)) L)
         = (if nat L div BITMAP_SIZE = e
            then nat L mod BITMAP_SIZE \<notin> bitmap_abs PAGE_SIZE bm'
            else fst (Disk_IsPageFree d L))"
proof -
  have io': "disk_io_ok (d\<lparr>meta_data := m\<rparr>)" using io by simp
  note w = Disk_WritePhysicalPage_ok [OF io' extent_bitmap_page_io [OF e], of "page_of_bitmap bm'"]
  have "nat L mod BITMAP_SIZE < bitmap_capacity PAGE_SIZE" by (simp add: BITMAP_SIZE_val BITMAP_SIZE_cap)
  then show ?thesis
    using Disk_IsPageFree_ok [OF w [THEN conjunct2] L] Disk_IsPageFree_ok [OF io L]
      disk_bitmap_write [OF io' e L(2) len]
    by (auto simp: bitmap_free_iff [of _ PAGE_SIZE])
qed

lemma nat_div_mod_eq:
  "0 \<le> L \<Longrightarrow> 0 \<le> L' \<Longrightarrow> nat L div BITMAP_SIZE = nat L' div BITMAP_SIZE
   \<Longrightarrow> nat L mod BITMAP_SIZE = nat L' mod BITMAP_SIZE \<Longrightarrow> L = L'"
  by (metis div_mult_mod_eq nat_eq_iff2 of_nat_0_le_iff)

text \<open>The frame condition: a new bitmap for the extent of \<open>L\<close> that agrees with
  the old one except at \<open>L\<close>'s offset leaves every other page's status unchanged.\<close>

lemma Disk_IsPageFree_frame:
  assumes io: "disk_io_ok d" and len: "length (bytes bm') = BITMAP_MAX_CHARS PAGE_SIZE"
    and L: "0 \<le> L" "nat L div BITMAP_SIZE = e" "e < IO_EXTENTS"
    and same: "\<forall>j. j \<noteq> nat L mod BITMAP_SIZE \<longrightarrow>
                 (j \<in> bitmap_abs PAGE_SIZE bm') = (j \<in> bitmap_abs PAGE_SIZE (disk_bitmap d e))"
    and L': "0 \<le> L'" "nat L' div BITMAP_SIZE < IO_EXTENTS" and ne: "L' \<noteq> L"
  shows "fst (Disk_IsPageFree
           (Disk_WritePhysicalPage (int (extent_bitmap_page e)) (page_of_bitmap bm') (d\<lparr>meta_data := m\<rparr>)) L')
         = fst (Disk_IsPageFree d L')"
proof (cases "nat L' div BITMAP_SIZE = e")
  case True
  then have "nat L' mod BITMAP_SIZE \<noteq> nat L mod BITMAP_SIZE"
    using ne L nat_div_mod_eq [of L' L] L' by auto
  then show ?thesis
    using True same Disk_IsPageFree_write_bitmap [OF io L(3) len L'] Disk_IsPageFree_ok [OF io L']
    by (simp add: bitmap_free_iff [of _ PAGE_SIZE] BITMAP_SIZE_cap BITMAP_SIZE_val)
next
  case False
  then show ?thesis using Disk_IsPageFree_write_bitmap [OF io L(3) len L'] by simp
qed

text \<open>Replacing the bitmap of extent \<open>e\<close> and its counter keeps the meta data
  consistent, provided the counter matches the new bitmap, the extent is open (or
  its counter is zero), and the total is right.\<close>

lemma disk_inv_update_extent:
  assumes inv: "disk_inv d" and e: "e < IO_EXTENTS" and binv: "bitmap_inv PAGE_SIZE bm'"
    and c: "unat c = card (bitmap_abs PAGE_SIZE bm')"
    and n: "unat (num_extents m) \<le> IO_EXTENTS"
      "unat (num_extents (meta_data d)) \<le> unat (num_extents m)"
      "e < unat (num_extents m) \<or> c = 0"
    and used: "extent_used_page m = (extent_used_page (meta_data d))[e := c]"
    and total: "unat (num_allocated_pages m) = sum_list (map unat (extent_used_page m))"
  shows "disk_inv (Disk_WritePhysicalPage (int (extent_bitmap_page e)) (page_of_bitmap bm') (d\<lparr>meta_data := m\<rparr>))"
proof -
  let ?d' = "Disk_WritePhysicalPage (int (extent_bitmap_page e)) (page_of_bitmap bm') (d\<lparr>meta_data := m\<rparr>)"
  have io: "disk_io_ok d" and len: "length (extent_used_page (meta_data d)) = NUM_EXTENTS"
    and ext: "\<And>x. x < IO_EXTENTS \<Longrightarrow> bitmap_inv PAGE_SIZE (disk_bitmap d x)
               \<and> unat (extent_used_page (meta_data d) ! x) = card (bitmap_abs PAGE_SIZE (disk_bitmap d x))
               \<and> (unat (num_extents (meta_data d)) \<le> x \<longrightarrow> extent_used_page (meta_data d) ! x = 0)"
    and hi: "\<And>x. x < NUM_EXTENTS \<Longrightarrow> IO_EXTENTS \<le> x \<Longrightarrow> extent_used_page (meta_data d) ! x = 0"
    using inv by (simp_all add: disk_inv_def Let_def)
  have io': "disk_io_ok (d\<lparr>meta_data := m\<rparr>)" using io by simp
  have el: "e < length (extent_used_page (meta_data d))"
    using e len by (simp add: IO_EXTENTS_val NUM_EXTENTS_val)
  note w = Disk_WritePhysicalPage_ok [OF io' extent_bitmap_page_io [OF e], of "page_of_bitmap bm'"]
  have bm'len: "length (bytes bm') = BITMAP_MAX_CHARS PAGE_SIZE"
    using binv by (simp add: bitmap_inv_def)
  have bits: "x < IO_EXTENTS \<Longrightarrow> disk_bitmap ?d' x = (if x = e then bm' else disk_bitmap d x)" for x
    using disk_bitmap_write [OF io' e _ bm'len] by simp
  have "\<forall>x < IO_EXTENTS. bitmap_inv PAGE_SIZE (disk_bitmap ?d' x)
          \<and> unat (extent_used_page m ! x) = card (bitmap_abs PAGE_SIZE (disk_bitmap ?d' x))
          \<and> (unat (num_extents m) \<le> x \<longrightarrow> extent_used_page m ! x = 0)"
    using ext e binv c n bits el by (auto simp: used nth_list_update)
  moreover have "\<forall>x < NUM_EXTENTS. IO_EXTENTS \<le> x \<longrightarrow> extent_used_page m ! x = 0"
    using hi e by (auto simp: used nth_list_update)
  ultimately show ?thesis
    using len n total w by (simp add: disk_inv_def w [THEN conjunct1] used Let_def)
qed

section \<open>Allocation\<close>

lemma Disk_AllocatePage_nonneg:
  "unat (num_allocated_pages (meta_data d)) < MAX_VALID_PAGE_ID \<Longrightarrow> 0 \<le> fst (Disk_AllocatePage d)"
  by (simp add: Disk_AllocatePage_def Let_def split_def)

lemma init_disk_room: "unat (num_allocated_pages (meta_data init_disk)) < MAX_VALID_PAGE_ID"
  by (simp add: init_disk_def MAX_VALID_PAGE_ID_val)

text \<open>The extent AllocatePage picks, and that it has a free page, when the last extent
  is not full or another of the first \<open>IO_EXTENTS\<close> extents can still be opened.\<close>

lemma Disk_alloc_extent:
  assumes inv: "disk_inv d"
    and room: "unat (num_extents (meta_data d)) < IO_EXTENTS
      \<or> (num_extents (meta_data d) \<noteq> 0
          \<and> unat (extent_used_page (meta_data d) ! (unat (num_extents (meta_data d)) - 1)) < BITMAP_SIZE)"
  defines "m \<equiv> meta_data d"
  defines "m1 \<equiv> (if num_extents m = 0
                     \<or> BITMAP_SIZE \<le> unat (extent_used_page m ! (unat (num_extents m) - 1))
                  then m\<lparr>num_extents := num_extents m + 1\<rparr> else m)"
  defines "e \<equiv> unat (num_extents m1) - 1"
  shows "e < IO_EXTENTS \<and> card (bitmap_abs PAGE_SIZE (disk_bitmap d e)) < BITMAP_SIZE
         \<and> unat (num_extents m1) = Suc e \<and> unat (num_extents m1) \<le> IO_EXTENTS
         \<and> extent_used_page m1 = extent_used_page m
         \<and> num_allocated_pages m1 = num_allocated_pages m
         \<and> unat (num_extents m) \<le> unat (num_extents m1)"
proof -
  let ?n = "unat (num_extents m)"
  have nle: "?n \<le> IO_EXTENTS"
    and ext: "\<And>e. e < IO_EXTENTS \<Longrightarrow> unat (extent_used_page m ! e)
                 = card (bitmap_abs PAGE_SIZE (disk_bitmap d e))
                 \<and> (?n \<le> e \<longrightarrow> extent_used_page m ! e = 0)"
    using inv by (simp_all add: disk_inv_def m_def Let_def)
  show ?thesis
  proof (cases "num_extents m = 0 \<or> BITMAP_SIZE \<le> unat (extent_used_page m ! (?n - 1))")
    case True
    then have n: "?n < IO_EXTENTS" using room by (auto simp: m_def)
    then have "unat (num_extents m + 1) = Suc ?n"
      by (simp add: unat_word_ariths IO_EXTENTS_val)
    then have "unat (num_extents m1) = Suc ?n" "e = ?n" using True by (simp_all add: m1_def e_def)
    moreover have "card (bitmap_abs PAGE_SIZE (disk_bitmap d ?n)) = 0"
      using ext [OF n] by auto
    ultimately show ?thesis using n True by (simp add: m1_def BITMAP_SIZE_val)
  next
    case False
    then have "0 < ?n" "e = ?n - 1" by (simp_all add: m1_def e_def unat_gt_0)
    then show ?thesis using False nle ext [of "?n - 1"] by (simp add: m1_def)
  qed
qed

text \<open>C8: on a consistent disk (reads exact, the meta data agreeing with the
  bitmaps) with room left in the first \<open>IO_EXTENTS\<close> extents, AllocatePage
  returns a logical page of those extents that was free and is now allocated, no
  other page of those extents changes its allocation status, the allocated-page
  counter grows by one, and the disk stays consistent.\<close>

theorem Disk_AllocatePage_correct:
  assumes inv: "disk_inv d"
    and guard: "unat (num_allocated_pages (meta_data d)) < MAX_VALID_PAGE_ID"
    and room: "unat (num_extents (meta_data d)) < IO_EXTENTS
      \<or> (num_extents (meta_data d) \<noteq> 0
          \<and> unat (extent_used_page (meta_data d) ! (unat (num_extents (meta_data d)) - 1)) < BITMAP_SIZE)"
    and res: "Disk_AllocatePage d = (L, d')"
  shows "0 \<le> L \<and> L < int (IO_EXTENTS * BITMAP_SIZE)
     \<and> Disk_IsPageFree d L = (True, d) \<and> \<not> fst (Disk_IsPageFree d' L)
     \<and> (\<forall>L'. 0 \<le> L' \<longrightarrow> L' < int (IO_EXTENTS * BITMAP_SIZE) \<longrightarrow> L' \<noteq> L \<longrightarrow>
           fst (Disk_IsPageFree d' L') = fst (Disk_IsPageFree d L'))
     \<and> unat (num_allocated_pages (meta_data d')) = Suc (unat (num_allocated_pages (meta_data d)))
     \<and> disk_inv d'"
proof -
  define m where "m = meta_data d"
  define m1 where "m1 = (if num_extents m = 0
                     \<or> BITMAP_SIZE \<le> unat (extent_used_page m ! (unat (num_extents m) - 1))
                  then m\<lparr>num_extents := num_extents m + 1\<rparr> else m)"
  define e where "e = unat (num_extents m1) - 1"
  have E: "e < IO_EXTENTS" "card (bitmap_abs PAGE_SIZE (disk_bitmap d e)) < BITMAP_SIZE"
    "unat (num_extents m1) = Suc e" "unat (num_extents m1) \<le> IO_EXTENTS"
    "extent_used_page m1 = extent_used_page m" "num_allocated_pages m1 = num_allocated_pages m"
    "unat (num_extents m) \<le> unat (num_extents m1)"
    using Disk_alloc_extent [OF inv room] unfolding m_def [symmetric] m1_def [symmetric] e_def [symmetric]
    by blast+
  have io: "disk_io_ok d" and len: "length (extent_used_page m) = NUM_EXTENTS"
    and ext: "unat (extent_used_page m ! e) = card (bitmap_abs PAGE_SIZE (disk_bitmap d e))"
    and binv: "bitmap_inv PAGE_SIZE (disk_bitmap d e)"
    and sum: "unat (num_allocated_pages m) = sum_list (map unat (extent_used_page m))"
    using inv E(1) by (simp_all add: disk_inv_def m_def Let_def)
  let ?bm = "disk_bitmap d e"
  obtain c where rd: "Disk_ReadPhysicalPage d (int (extent_bitmap_page e)) = (c, d)"
    and c: "bitmap_of_page PAGE_SIZE c = ?bm"
    using Disk_ReadPhysicalPage_ok [OF io, of "extent_bitmap_page e"] extent_bitmap_page_io [OF E(1)]
    by (simp add: disk_bitmap_def)
  have "unat (page_allocated ?bm) < bitmap_capacity PAGE_SIZE"
    using binv E(2) by (simp add: bitmap_inv_def BITMAP_SIZE_cap)
  from Bitmap_AllocatePage_correct [OF binv this]
  obtain off bm' where A: "Bitmap_AllocatePage PAGE_SIZE ?bm = (Some off, bm')"
      "off < BITMAP_SIZE" "off \<notin> bitmap_abs PAGE_SIZE ?bm"
      "bitmap_abs PAGE_SIZE bm' = insert off (bitmap_abs PAGE_SIZE ?bm)" "bitmap_inv PAGE_SIZE bm'"
    unfolding BITMAP_SIZE_cap by blast
  define m2 where "m2 = m1\<lparr>num_allocated_pages := num_allocated_pages m1 + 1,
                     extent_used_page := (extent_used_page m1)[e := extent_used_page m1 ! e + 1]\<rparr>"
  have res': "L = int (e * BITMAP_SIZE + off)"
    "d' = Disk_WritePhysicalPage (int (extent_bitmap_page e)) (page_of_bitmap bm') (d\<lparr>meta_data := m2\<rparr>)"
    using res guard A(1) rd c
    unfolding Disk_AllocatePage_def Let_def m_def [symmetric] m1_def [symmetric] e_def [symmetric]
      m2_def [symmetric]
    by simp_all
  have natL: "nat L = e * BITMAP_SIZE + off" by (simp only: res'(1) nat_int)
  have Ldiv: "nat L div BITMAP_SIZE = e" "nat L mod BITMAP_SIZE = off"
    using A(2) by (simp_all add: natL)
  have L0: "0 \<le> L" by (simp add: res'(1))
  have Lio: "L < int (IO_EXTENTS * BITMAP_SIZE)"
  proof -
    have "e * BITMAP_SIZE + off < Suc e * BITMAP_SIZE" using A(2) by simp
    also have "\<dots> \<le> IO_EXTENTS * BITMAP_SIZE" using E(1) by (intro mult_le_mono1) simp
    finally show ?thesis unfolding res'(1) by (simp only: of_nat_less_iff)
  qed
  have bm'len: "length (bytes bm') = BITMAP_MAX_CHARS PAGE_SIZE" using A(5) by (simp add: bitmap_inv_def)
  have free_before: "Disk_IsPageFree d L = (True, d)"
    using A(2,3) Ldiv Disk_IsPageFree_ok [OF io L0] E(1)
    by (simp add: bitmap_free_iff [of _ PAGE_SIZE] BITMAP_SIZE_cap)
  have used_after: "\<not> fst (Disk_IsPageFree d' L)"
    using Disk_IsPageFree_write_bitmap [OF io E(1) bm'len L0] Ldiv A(4) E(1) by (simp add: res'(2))
  have others: "\<forall>L'. 0 \<le> L' \<longrightarrow> L' < int (IO_EXTENTS * BITMAP_SIZE) \<longrightarrow> L' \<noteq> L \<longrightarrow>
           fst (Disk_IsPageFree d' L') = fst (Disk_IsPageFree d L')"
    using Disk_IsPageFree_frame [OF io bm'len L0 Ldiv(1) E(1)] A(4) Ldiv(2) extent_of_io_page
    by (simp add: res'(2))
  have "unat (extent_used_page m ! e + 1) = Suc (unat (extent_used_page m ! e))"
    using E(2) ext by (simp add: unat_word_ariths BITMAP_SIZE_val)
  moreover have "unat (num_allocated_pages m + 1) = Suc (unat (num_allocated_pages m))"
    using guard by (simp add: unat_word_ariths MAX_VALID_PAGE_ID_val m_def)
  ultimately have cnt: "unat (num_allocated_pages m2) = Suc (unat (num_allocated_pages m))"
    "map unat (extent_used_page m2) = (map unat (extent_used_page m))[e := Suc (unat (extent_used_page m ! e))]"
    "unat (extent_used_page m ! e + 1) = card (bitmap_abs PAGE_SIZE bm')"
    using A(3,4) ext finite_subset [OF bitmap_abs_subset] by (simp_all add: m2_def E(5,6) map_update)
  have eN: "e < NUM_EXTENTS" using E(1) by (simp add: IO_EXTENTS_val NUM_EXTENTS_val)
  have "disk_inv d'"
    unfolding res'(2)
  proof (rule disk_inv_update_extent [OF inv E(1) A(5) cnt(3)])
    show "unat (num_allocated_pages m2) = sum_list (map unat (extent_used_page m2))"
      using cnt sum len eN sum_list_update_Suc [of e "map unat (extent_used_page m)"] by simp
  qed (use E in \<open>simp_all add: m2_def m_def\<close>)
  moreover have "unat (num_allocated_pages (meta_data d')) = Suc (unat (num_allocated_pages (meta_data d)))"
    using cnt(1) Disk_WritePhysicalPage_ok [OF _ extent_bitmap_page_io [OF E(1)], of "d\<lparr>meta_data := m2\<rparr>"] io
    by (simp add: res'(2) m_def)
  ultimately show ?thesis using L0 Lio free_before used_after others by blast
qed

lemma Disk_AllocatePage_correct_witness:
  "Disk_IsPageFree init_disk (fst (Disk_AllocatePage init_disk)) = (True, init_disk)
   \<and> \<not> fst (Disk_IsPageFree (snd (Disk_AllocatePage init_disk)) (fst (Disk_AllocatePage init_disk)))
   \<and> disk_inv (snd (Disk_AllocatePage init_disk))"
proof -
  have g: "unat (num_allocated_pages (meta_data init_disk)) < MAX_VALID_PAGE_ID"
    and r: "unat (num_extents (meta_data init_disk)) < IO_EXTENTS"
    by (simp_all add: init_disk_def MAX_VALID_PAGE_ID_val IO_EXTENTS_val)
  show ?thesis
    using Disk_AllocatePage_correct [OF disk_inv_init g, of "fst (Disk_AllocatePage init_disk)"
        "snd (Disk_AllocatePage init_disk)"] r
    by simp
qed

section \<open>Deallocation\<close>

text \<open>C9: on a consistent disk, DeAllocatePage of a page of the first
  \<open>IO_EXTENTS\<close> extents leaves that page free, changes the status of no other
  page of those extents, decrements the counters when the page was allocated
  (and changes nothing when it was already free), and keeps the disk
  consistent.\<close>

theorem Disk_DeAllocatePage_correct:
  assumes inv: "disk_inv d" and L: "0 \<le> L" "L < int (IO_EXTENTS * BITMAP_SIZE)"
    and res: "Disk_DeAllocatePage L d = d'"
  shows "fst (Disk_IsPageFree d' L)
     \<and> (\<forall>L'. 0 \<le> L' \<longrightarrow> L' < int (IO_EXTENTS * BITMAP_SIZE) \<longrightarrow> L' \<noteq> L \<longrightarrow>
           fst (Disk_IsPageFree d' L') = fst (Disk_IsPageFree d L'))
     \<and> (fst (Disk_IsPageFree d L) \<longrightarrow> d' = d)
     \<and> (\<not> fst (Disk_IsPageFree d L) \<longrightarrow>
          Suc (unat (num_allocated_pages (meta_data d'))) = unat (num_allocated_pages (meta_data d)))
     \<and> disk_inv d'"
proof -
  define e where "e = nat L div BITMAP_SIZE"
  define off where "off = nat L mod BITMAP_SIZE"
  have e: "e < IO_EXTENTS" using extent_of_io_page [OF L] by (simp add: e_def)
  have io: "disk_io_ok d" using inv by (simp add: disk_inv_def)
  have fr: "Disk_IsPageFree d L = (Bitmap_IsPageFree (disk_bitmap d e) off, d)"
    using Disk_IsPageFree_ok [OF io L(1)] e by (simp add: e_def off_def)
  show ?thesis
  proof (cases "Bitmap_IsPageFree (disk_bitmap d e) off")
    case True
    then have "d' = d" using res L fr by (simp add: Disk_DeAllocatePage_def)
    then show ?thesis using True inv fr by simp
  next
    case False
    define m where "m = meta_data d"
    have len: "length (extent_used_page m) = NUM_EXTENTS"
      and ext: "unat (extent_used_page m ! e) = card (bitmap_abs PAGE_SIZE (disk_bitmap d e))"
        "unat (num_extents m) \<le> e \<longrightarrow> extent_used_page m ! e = 0"
      and binv: "bitmap_inv PAGE_SIZE (disk_bitmap d e)"
      and sum: "unat (num_allocated_pages m) = sum_list (map unat (extent_used_page m))"
      and nle: "unat (num_extents m) \<le> IO_EXTENTS"
      using inv e by (simp_all add: disk_inv_def m_def Let_def)
    have eN: "e < NUM_EXTENTS" using e by (simp add: IO_EXTENTS_val NUM_EXTENTS_val)
    let ?bm = "disk_bitmap d e"
    have used: "off \<in> bitmap_abs PAGE_SIZE ?bm"
      using False by (simp add: off_def bitmap_free_iff [of _ PAGE_SIZE] BITMAP_SIZE_cap BITMAP_SIZE_val)
    obtain c where rd: "Disk_ReadPhysicalPage d (int (extent_bitmap_page e)) = (c, d)"
      and c: "bitmap_of_page PAGE_SIZE c = ?bm"
      using Disk_ReadPhysicalPage_ok [OF io, of "extent_bitmap_page e"] extent_bitmap_page_io [OF e]
      by (simp add: disk_bitmap_def)
    obtain ok bm' where D: "Bitmap_DeAllocatePage PAGE_SIZE off ?bm = (ok, bm')" by fastforce
    from Bitmap_DeAllocatePage_correct [OF binv D] used
    have D': "bitmap_abs PAGE_SIZE bm' = bitmap_abs PAGE_SIZE ?bm - {off}" "bitmap_inv PAGE_SIZE bm'"
      by simp_all
    define m' where "m' = m\<lparr>num_allocated_pages := num_allocated_pages m - 1,
                      extent_used_page := (extent_used_page m)[e := extent_used_page m ! e - 1]\<rparr>"
    have res': "d' = Disk_WritePhysicalPage (int (extent_bitmap_page e)) (page_of_bitmap bm') (d\<lparr>meta_data := m'\<rparr>)"
      using res False L(1) D fr rd c
      unfolding Disk_DeAllocatePage_def Let_def m_def [symmetric] e_def [symmetric] off_def [symmetric]
        m'_def [symmetric]
      by (simp add: m'_def m_def)
    have bm'len: "length (bytes bm') = BITMAP_MAX_CHARS PAGE_SIZE"
      using D'(2) by (simp add: bitmap_inv_def)
    have ediv: "nat L div BITMAP_SIZE < IO_EXTENTS" using e by (simp add: e_def)
    have free_after: "fst (Disk_IsPageFree d' L)"
      using Disk_IsPageFree_write_bitmap [OF io e bm'len L(1) ediv] D'(1)
      by (simp add: res' e_def [symmetric] off_def [symmetric])
    have others: "\<forall>L'. 0 \<le> L' \<longrightarrow> L' < int (IO_EXTENTS * BITMAP_SIZE) \<longrightarrow> L' \<noteq> L \<longrightarrow>
           fst (Disk_IsPageFree d' L') = fst (Disk_IsPageFree d L')"
      using Disk_IsPageFree_frame [OF io bm'len L(1) e_def [symmetric] e] D'(1) extent_of_io_page
      by (simp add: res' off_def [symmetric])
    have fin: "finite (bitmap_abs PAGE_SIZE ?bm)" using finite_subset [OF bitmap_abs_subset] by simp
    have cpos: "0 < card (bitmap_abs PAGE_SIZE ?bm)" using used fin card_gt_0_iff by blast
    then have u0: "extent_used_page m ! e \<noteq> 0" using ext(1) by auto
    then have ue: "unat (extent_used_page m ! e - 1) = card (bitmap_abs PAGE_SIZE bm')"
      using ext(1) D'(1) used fin by (simp add: unat_minus_one)
    have "0 < sum_list (map unat (extent_used_page m))"
      using u0 eN len by (metis elem_le_sum_list gr_zeroI le_zero_eq length_map nth_map unat_eq_zero)
    then have "0 < unat (num_allocated_pages m)" using sum by simp
    then have a0: "num_allocated_pages m \<noteq> 0" by (simp add: unat_gt_0)
    then have ua: "unat (num_allocated_pages m - 1) = unat (num_allocated_pages m) - 1"
      by (simp add: unat_minus_one)
    have "disk_inv d'"
      unfolding res'
    proof (rule disk_inv_update_extent [OF inv e D'(2) ue])
      show "unat (num_allocated_pages m') = sum_list (map unat (extent_used_page m'))"
        using sum len eN ua cpos ext(1) u0
          sum_list_update_pred [of e "map unat (extent_used_page m)"]
        by (simp add: m'_def map_update unat_minus_one)
    qed (use nle u0 ext(2) in \<open>auto simp: m'_def m_def\<close>)
    moreover have "Suc (unat (num_allocated_pages (meta_data d'))) = unat (num_allocated_pages (meta_data d))"
      using ua a0 Disk_WritePhysicalPage_ok [OF _ extent_bitmap_page_io [OF e], of "d\<lparr>meta_data := m'\<rparr>"] io
      by (simp add: res' m'_def m_def unat_gt_0)
    ultimately show ?thesis using free_after others False fr by simp
  qed
qed

lemma Disk_DeAllocatePage_correct_witness:
  "fst (Disk_IsPageFree (Disk_DeAllocatePage 5 init_disk) 5)"
proof -
  have "0 \<le> (5::int)" "(5::int) < int (IO_EXTENTS * BITMAP_SIZE)" by (simp_all add: IO_EXTENTS_val BITMAP_SIZE_val)
  then show ?thesis using Disk_DeAllocatePage_correct [OF disk_inv_init] by blast
qed

section \<open>The int offset of ReadPhysicalPage\<close>

lemma Disk_ReadPhysicalPage_state [simp]:
  "db_io (snd (Disk_ReadPhysicalPage d p)) = db_io d"
  "file_pages (snd (Disk_ReadPhysicalPage d p)) = file_pages d"
  "meta_data (snd (Disk_ReadPhysicalPage d p)) = meta_data d"
  by (simp_all add: Disk_ReadPhysicalPage_def Let_def)

lemma Disk_WritePhysicalPage_meta [simp]: "meta_data (Disk_WritePhysicalPage p x d) = meta_data d"
  by (simp add: Disk_WritePhysicalPage_def)

lemma Disk_WritePhysicalPage_other:
  "p < 0 \<or> nat p \<noteq> k \<Longrightarrow> db_io (Disk_WritePhysicalPage p x d) k = db_io d k"
  by (auto simp: Disk_WritePhysicalPage_def)

lemma Disk_WritePhysicalPage_failed: "io_failed d \<Longrightarrow> Disk_WritePhysicalPage p x d = d"
  by (simp add: Disk_WritePhysicalPage_def)

lemma Disk_ReadPhysicalPage_failed: "io_failed d \<Longrightarrow> io_failed (snd (Disk_ReadPhysicalPage d p))"
  by (simp add: Disk_ReadPhysicalPage_def Let_def)

text \<open>The bitmap page of extent \<open>IO_EXTENTS\<close> (physical page 555986) lies past
  byte \<open>2^31\<close>: its \<open>int\<close> offset wraps to a negative number, so the read returns
  zeros whatever the file holds, and on a good stream the failed seek sets the
  fail bit.\<close>

lemma Disk_ReadPhysicalPage_overflow:
  "fst (Disk_ReadPhysicalPage d (int (extent_bitmap_page IO_EXTENTS))) = zero_page
   \<and> (disk_io_ok d \<longrightarrow> snd (Disk_ReadPhysicalPage d (int (extent_bitmap_page IO_EXTENTS))) = d\<lparr>io_failed := True\<rparr>)"
proof -
  have off: "int32 (int (extent_bitmap_page IO_EXTENTS) * int PAGE_SIZE) = -2017648640"
    by (simp add: int32_def extent_bitmap_page_def IO_EXTENTS_val BITMAP_SIZE_val PAGE_SIZE_def)
  have "disk_io_ok d \<Longrightarrow> Disk_GetFileSize d = int (file_pages d * PAGE_SIZE)"
    by (simp add: Disk_GetFileSize_def disk_io_ok_def INT_PAGES_val PAGE_SIZE_def)
  then show ?thesis using off by (auto simp: Disk_ReadPhysicalPage_def disk_io_ok_def PAGE_SIZE_def)
qed

lemma Bitmap_AllocatePage_zero_page:
  "fst (Bitmap_AllocatePage PAGE_SIZE (bitmap_of_page PAGE_SIZE zero_page)) = Some 0"
proof -
  have "[0..<bitmap_capacity PAGE_SIZE] = 0 # [Suc 0..<bitmap_capacity PAGE_SIZE]"
    by (rule upt_conv_Cons) (simp add: BITMAP_SIZE_cap BITMAP_SIZE_val)
  moreover have "Bitmap_IsPageFree (empty_bitmap PAGE_SIZE) 0"
    by (simp add: Bitmap_IsPageFree_def Bitmap_IsPageFreeLow_def empty_bitmap_def BITMAP_MAX_CHARS_def
                  PAGE_SIZE_def)
  ultimately have "bitmap_first_free PAGE_SIZE (empty_bitmap PAGE_SIZE) = 0"
    by (simp add: bitmap_first_free_def)
  moreover have "page_allocated (empty_bitmap PAGE_SIZE) = 0" by (simp add: empty_bitmap_def)
  ultimately show ?thesis
    by (simp add: bitmap_of_zero_page Bitmap_AllocatePage_def Let_def BITMAP_SIZE_cap BITMAP_SIZE_val)
qed

text \<open>C11: once the first \<open>IO_EXTENTS\<close> extents are full, AllocatePage opens
  extent 17 and reads its bitmap at a wrapped, negative \<open>int\<close> offset: the
  bitmap reads as empty, so AllocatePage returns the extent's first page, and the
  next AllocatePage returns the same page again while both are counted.  On a
  good stream the failed seek leaves the stream failed, and neither bitmap write
  reaches the file.\<close>

theorem Disk_AllocatePage_int_offset_reuse:
  assumes n: "unat (num_extents (meta_data d)) = IO_EXTENTS"
    and full: "BITMAP_SIZE \<le> unat (extent_used_page (meta_data d) ! (IO_EXTENTS - 1))"
    and nx: "extent_used_page (meta_data d) ! IO_EXTENTS = 0"
    and len: "length (extent_used_page (meta_data d)) = NUM_EXTENTS"
    and room: "Suc (unat (num_allocated_pages (meta_data d))) < MAX_VALID_PAGE_ID"
    and a1: "Disk_AllocatePage d = (L1, d1)" and a2: "Disk_AllocatePage d1 = (L2, d2)"
  shows "L1 = int (IO_EXTENTS * BITMAP_SIZE) \<and> L2 = L1
     \<and> unat (num_allocated_pages (meta_data d2)) = unat (num_allocated_pages (meta_data d)) + 2
     \<and> (disk_io_ok d \<longrightarrow> io_failed d1 \<and> db_io d2 = db_io d)"
proof -
  note rd = Disk_ReadPhysicalPage_overflow and ba = Bitmap_AllocatePage_zero_page
  define m where "m = meta_data d"
  have ne: "unat (num_extents m + 1) = Suc IO_EXTENTS" "num_extents m \<noteq> 0"
    using n by (auto simp: m_def unat_word_ariths IO_EXTENTS_val)
  have ne1: "num_extents m + 1 \<noteq> 0"
  proof
    assume "num_extents m + 1 = 0"
    then have "unat (num_extents m + 1) = 0" by simp
    with ne(1) show False by simp
  qed
  have g1: "unat (num_allocated_pages m) < MAX_VALID_PAGE_ID" using room by (simp add: m_def)
  have c1: "unat (num_allocated_pages m + 1) = Suc (unat (num_allocated_pages m))"
    using room by (simp add: m_def unat_word_ariths MAX_VALID_PAGE_ID_val)
  have c2: "unat (num_allocated_pages m + 1 + 1) = unat (num_allocated_pages m) + 2"
    using room by (simp add: m_def unat_word_ariths MAX_VALID_PAGE_ID_val)
  have iN: "IO_EXTENTS < length (extent_used_page m)" using len by (simp add: m_def IO_EXTENTS_val NUM_EXTENTS_val)
  define m2 where "m2 = m\<lparr>num_extents := num_extents m + 1,
                          num_allocated_pages := num_allocated_pages m + 1,
                          extent_used_page := (extent_used_page m)[IO_EXTENTS := 1]\<rparr>"
  define bm where "bm = snd (Bitmap_AllocatePage PAGE_SIZE (bitmap_of_page PAGE_SIZE zero_page))"
  define r1 where "r1 = snd (Disk_ReadPhysicalPage d (int (extent_bitmap_page IO_EXTENTS)))"
  have s1: "L1 = int (IO_EXTENTS * BITMAP_SIZE)"
    "d1 = Disk_WritePhysicalPage (int (extent_bitmap_page IO_EXTENTS)) (page_of_bitmap bm) (r1\<lparr>meta_data := m2\<rparr>)"
    using a1 g1 ne full n nx rd [of d] ba
    by (simp_all add: Disk_AllocatePage_def Let_def split_def m_def [symmetric] m2_def bm_def r1_def)
  have md1: "meta_data d1 = m2" by (simp add: s1(2))
  have used1: "extent_used_page m2 ! IO_EXTENTS = 1" "num_extents m2 \<noteq> 0"
    "unat (num_extents m2) = Suc IO_EXTENTS"
    using iN ne ne1 by (simp_all add: m2_def)
  have g2: "unat (num_allocated_pages m2) < MAX_VALID_PAGE_ID" using c1 room by (simp add: m2_def m_def)
  define r2 where "r2 = snd (Disk_ReadPhysicalPage d1 (int (extent_bitmap_page IO_EXTENTS)))"
  have s2: "L2 = int (IO_EXTENTS * BITMAP_SIZE)"
    "d2 = Disk_WritePhysicalPage (int (extent_bitmap_page IO_EXTENTS)) (page_of_bitmap bm)
            (r2\<lparr>meta_data := m2\<lparr>num_allocated_pages := num_allocated_pages m2 + 1,
                   extent_used_page := (extent_used_page m2)[IO_EXTENTS := 2]\<rparr>\<rparr>)"
    using a2 md1 g2 used1 rd [of d1] ba
    by (simp_all add: Disk_AllocatePage_def Let_def split_def BITMAP_SIZE_val bm_def r2_def)
  have cnt: "unat (num_allocated_pages (meta_data d2)) = unat (num_allocated_pages (meta_data d)) + 2"
    using c2 by (simp add: s2(2) m2_def m_def)
  have "disk_io_ok d \<Longrightarrow> io_failed d1 \<and> db_io d2 = db_io d"
  proof -
    assume io: "disk_io_ok d"
    then have f1: "io_failed r1" "db_io r1 = db_io d" using rd [of d] by (simp_all add: r1_def)
    then have d1: "d1 = r1\<lparr>meta_data := m2\<rparr>" by (simp add: s1(2) Disk_WritePhysicalPage_failed)
    then have "io_failed r2" "db_io r2 = db_io d1" using f1 Disk_ReadPhysicalPage_failed [of d1]
      by (simp_all add: r2_def)
    then show ?thesis using d1 f1 by (simp add: s2(2) Disk_WritePhysicalPage_failed)
  qed
  then show ?thesis using s1(1) s2(1) cnt by simp
qed

lemma Disk_AllocatePage_int_offset_reuse_witness:
  "fst (Disk_AllocatePage disk_io_full) = int (IO_EXTENTS * BITMAP_SIZE)
   \<and> fst (Disk_AllocatePage (snd (Disk_AllocatePage disk_io_full))) = fst (Disk_AllocatePage disk_io_full)
   \<and> io_failed (snd (Disk_AllocatePage disk_io_full))"
proof -
  have h: "unat (num_extents (meta_data disk_io_full)) = IO_EXTENTS"
    "BITMAP_SIZE \<le> unat (extent_used_page (meta_data disk_io_full) ! (IO_EXTENTS - 1))"
    "extent_used_page (meta_data disk_io_full) ! IO_EXTENTS = 0"
    "length (extent_used_page (meta_data disk_io_full)) = NUM_EXTENTS"
    "Suc (unat (num_allocated_pages (meta_data disk_io_full))) < MAX_VALID_PAGE_ID"
    "disk_io_ok disk_io_full"
    by (simp_all add: disk_io_full_def init_disk_def IO_EXTENTS_val BITMAP_SIZE_val NUM_EXTENTS_val
                      MAX_VALID_PAGE_ID_val disk_io_ok_def INT_PAGES_val)
  show ?thesis
    using Disk_AllocatePage_int_offset_reuse [OF h(1-5), of "fst (Disk_AllocatePage disk_io_full)"
        "snd (Disk_AllocatePage disk_io_full)" "fst (Disk_AllocatePage (snd (Disk_AllocatePage disk_io_full)))"
        "snd (Disk_AllocatePage (snd (Disk_AllocatePage disk_io_full)))"] h(6)
    by simp
qed

section \<open>The meta page\<close>

text \<open>C10: none of AllocatePage, DeAllocatePage and WritePage writes physical page 0,
  the meta page: the counters AllocatePage and DeAllocatePage update in
  \<open>meta_data_\<close> never reach the file (and \<open>Close\<close> does not write them either),
  whereas the spec says AllocatePage writes both the bitmap and the meta page back.\<close>

theorem Disk_meta_page_never_written:
  "db_io (snd (Disk_AllocatePage d)) META_PAGE_ID = db_io d META_PAGE_ID
   \<and> db_io (Disk_DeAllocatePage L d) META_PAGE_ID = db_io d META_PAGE_ID
   \<and> (Disk_WritePage L p d = Some d' \<longrightarrow> db_io d' META_PAGE_ID = db_io d META_PAGE_ID)"
proof (intro conjI impI)
  have bm: "int (extent_bitmap_page e) < 0 \<or> nat (int (extent_bitmap_page e)) \<noteq> META_PAGE_ID" for e
  proof (rule disjI2)
    have "nat (int (extent_bitmap_page e)) = extent_bitmap_page e" by (rule nat_int)
    then show "nat (int (extent_bitmap_page e)) \<noteq> META_PAGE_ID"
      by (simp add: extent_bitmap_page_def META_PAGE_ID_def)
  qed
  show "db_io (snd (Disk_AllocatePage d)) META_PAGE_ID = db_io d META_PAGE_ID"
    using bm by (simp add: Disk_AllocatePage_def Let_def split_def Disk_WritePhysicalPage_other)
  show "db_io (Disk_DeAllocatePage L d) META_PAGE_ID = db_io d META_PAGE_ID"
    using bm by (simp add: Disk_DeAllocatePage_def Disk_IsPageFree_def Let_def split_def
                           Disk_WritePhysicalPage_other)
next
  assume w: "Disk_WritePage L p d = Some d'"
  let ?L = "int32 L"
  have L: "0 \<le> ?L" and d': "d' = Disk_WritePhysicalPage (MapPageId ?L) p d"
    using w by (simp_all add: Disk_WritePage_def Let_def split: if_splits)
  have "MapPageId ?L \<noteq> int META_PAGE_ID" using MapPageId_not_meta [OF L] int32_range [of L] by simp
  then have "MapPageId ?L < 0 \<or> nat (MapPageId ?L) \<noteq> META_PAGE_ID" by (auto simp: META_PAGE_ID_def)
  then show "db_io d' META_PAGE_ID = db_io d META_PAGE_ID"
    by (simp add: d' Disk_WritePhysicalPage_other)
qed

lemma Disk_meta_page_never_written_witness:
  "db_io (snd (Disk_AllocatePage init_disk)) META_PAGE_ID = None
   \<and> db_io (the (Disk_WritePage 0 zero_page init_disk)) META_PAGE_ID = None"
proof -
  have "Disk_WritePage 0 zero_page init_disk = Some (the (Disk_WritePage 0 zero_page init_disk))"
    by (simp add: Disk_WritePage_def int32_def)
  then show ?thesis
    using Disk_meta_page_never_written [of init_disk 0 zero_page
        "the (Disk_WritePage 0 zero_page init_disk)"]
    by (simp add: init_disk_def)
qed

end
