(* ===== verification/Buffer_Pool.thy ===== *)
theory Buffer_Pool
  imports LRU_Replacer Disk_Manager "HOL-Library.Monad_Syntax"
begin

text \<open>
  The buffer pool manager of \<^verbatim>\<open>src/src/buffer/buffer_pool_manager.cpp\<close>.  The
  frames \<open>pages\<close> are a list of \<open>Page\<close> records (fields named as the C++ members),
  the page table an \<open>unordered_map\<close> as a partial function, the free list a list
  of frame ids, the replacer the LRU replacer of theory LRU_Replacer.  The disk
  manager is reached through the interface \<open>disk_iface\<close>: a record of the five
  disk operations the pool calls, so that the pool's lemmas hold for any disk and
  the root theory plugs in the disk manager of theory Disk_Manager.  A read
  returns the page and the disk's new state (a read can leave the disk's stream
  failed), as \<open>IsPageFree\<close> does with its answer.  A disk read or write that fails an \<open>ASSERT\<close> aborts the process: the pool operations return
  \<open>None\<close> then, and \<open>Some (r, state)\<close> otherwise, where \<open>r\<close> carries the C++
  return value (a frame for a \<open>Page *\<close>, \<open>None\<close> for \<open>nullptr\<close>).
  \<open>unordered_map::insert\<close> does not overwrite an existing key; \<open>map_insert\<close>
  says so.
\<close>

record 'd disk_iface =
  dk_read :: "'d \<Rightarrow> page_id \<Rightarrow> (byte list \<times> 'd) option"
  dk_write :: "page_id \<Rightarrow> byte list \<Rightarrow> 'd \<Rightarrow> 'd option"
  dk_alloc :: "'d \<Rightarrow> page_id \<times> 'd"
  dk_dealloc :: "page_id \<Rightarrow> 'd \<Rightarrow> 'd"
  dk_is_free :: "'d \<Rightarrow> page_id \<Rightarrow> bool \<times> 'd"

record frame =
  page_id :: page_id
  pin_count :: nat
  is_dirty :: bool
  data :: "byte list"

record 'd bpm =
  pool_size :: nat
  pages :: "frame list"
  page_table :: "page_id \<rightharpoonup> frame_id"
  free_list :: "frame_id list"
  replacer :: lru_replacer
  disk_manager :: 'd

definition map_insert :: "('a \<rightharpoonup> 'b) \<Rightarrow> 'a \<Rightarrow> 'b \<Rightarrow> ('a \<rightharpoonup> 'b)" where
  "map_insert m k v = (if m k = None then m(k \<mapsto> v) else m)"

definition empty_frame :: frame where
  "empty_frame = \<lparr>page_id = INVALID_PAGE_ID, pin_count = 0, is_dirty = False, data = zero_page\<rparr>"

definition frame_at :: "'d bpm \<Rightarrow> frame_id \<Rightarrow> frame" where
  "frame_at b f = pages b ! nat f"

definition set_frame :: "frame_id \<Rightarrow> frame \<Rightarrow> 'd bpm \<Rightarrow> 'd bpm" where
  "set_frame f pg b = b\<lparr>pages := (pages b)[nat f := pg]\<rparr>"

definition BufferPoolManager :: "nat \<Rightarrow> 'd \<Rightarrow> 'd bpm" where
  "BufferPoolManager n dm =
     \<lparr>pool_size = n, pages = replicate n empty_frame, page_table = Map.empty,
      free_list = map int [0..<n], replacer = LRUReplacer n,
      disk_manager = dm\<rparr>"

text \<open>The frame for a page not in the pool: the free list first, then a victim of
  the replacer.  The flag says whether the frame came from the replacer.\<close>

definition BPM_find_frame :: "'d bpm \<Rightarrow> (frame_id \<times> bool) option \<times> 'd bpm" where
  "BPM_find_frame b =
     (if free_list b \<noteq> [] then (Some (hd (free_list b), False), b\<lparr>free_list := tl (free_list b)\<rparr>)
      else (case LRU_Victim (replacer b) of
              (Some f, r) \<Rightarrow> (Some (f, True), b\<lparr>replacer := r\<rparr>)
            | (None, r) \<Rightarrow> (None, b)))"

definition BPM_FetchPage :: "'d disk_iface \<Rightarrow> page_id \<Rightarrow> 'd bpm \<Rightarrow> (frame_id option \<times> 'd bpm) option" where
  "BPM_FetchPage dk P b =
     (if P = INVALID_PAGE_ID then Some (None, b)
      else case page_table b P of
        Some f \<Rightarrow>
          Some (Some f, set_frame f ((frame_at b f)\<lparr>pin_count := pin_count (frame_at b f) + 1\<rparr>)
                          (b\<lparr>replacer := LRU_Pin f (replacer b)\<rparr>))
      | None \<Rightarrow>
          (case BPM_find_frame b of
             (None, b1) \<Rightarrow> Some (None, b1)
           | (Some (f, _), b1) \<Rightarrow> do {
               let pg = frame_at b1 f;
               let b2 = b1\<lparr>replacer := LRU_Pin f (replacer b1)\<rparr>;
               d3 \<leftarrow> (if is_dirty pg then dk_write dk (page_id pg) (data pg) (disk_manager b2)
                      else Some (disk_manager b2));
               (content, d4) \<leftarrow> dk_read dk d3 P;
               Some (Some f,
                     set_frame f \<lparr>page_id = P, pin_count = 1, is_dirty = False, data = content\<rparr>
                       (b2\<lparr>disk_manager := d4,
                           page_table := map_insert ((page_table b2)(page_id pg := None)) P f\<rparr>))
             }))"

definition BPM_NewPage :: "'d disk_iface \<Rightarrow> 'd bpm \<Rightarrow> ((page_id \<times> frame_id) option \<times> 'd bpm) option" where
  "BPM_NewPage dk b =
     (case BPM_find_frame b of
        (None, b1) \<Rightarrow> Some (None, b1)
      | (Some (f, from_replacer), b1) \<Rightarrow> do {
          let pg = frame_at b1 f;
          b2 \<leftarrow> (if from_replacer then do {
                   d \<leftarrow> (if is_dirty pg then dk_write dk (page_id pg) (data pg) (disk_manager b1)
                         else Some (disk_manager b1));
                   Some (b1\<lparr>disk_manager := d, page_table := (page_table b1)(page_id pg := None)\<rparr>)
                 } else Some b1);
          let (P, d3) = dk_alloc dk (disk_manager b2);
          Some (Some (P, f),
                set_frame f \<lparr>page_id = P, pin_count = 0, is_dirty = False, data = zero_page\<rparr>
                  (b2\<lparr>disk_manager := d3, page_table := map_insert (page_table b2) P f\<rparr>))
        })"

definition BPM_DeletePage :: "'d disk_iface \<Rightarrow> page_id \<Rightarrow> 'd bpm \<Rightarrow> bool \<times> 'd bpm" where
  "BPM_DeletePage dk P b =
     (case page_table b P of
        None \<Rightarrow> (True, b)
      | Some f \<Rightarrow>
          (if pin_count (frame_at b f) \<noteq> 0 then (False, b)
           else (True,
                 set_frame f ((frame_at b f)\<lparr>data := zero_page, is_dirty := False,
                                             page_id := INVALID_PAGE_ID\<rparr>)
                   (b\<lparr>disk_manager := dk_dealloc dk P (disk_manager b),
                      free_list := free_list b @ [P],
                      page_table := (page_table b)(P := None)\<rparr>))))"

definition BPM_UnpinPage :: "page_id \<Rightarrow> bool \<Rightarrow> 'd bpm \<Rightarrow> bool \<times> 'd bpm" where
  "BPM_UnpinPage P dirty b =
     (case page_table b P of
        None \<Rightarrow> (False, b)
      | Some f \<Rightarrow>
          (let pg = (frame_at b f)\<lparr>is_dirty := is_dirty (frame_at b f) \<or> dirty\<rparr>
           in if 0 < pin_count pg then
                (let pg' = pg\<lparr>pin_count := pin_count pg - 1\<rparr>
                 in (True, set_frame f pg'
                             (if pin_count pg' = 0 then b\<lparr>replacer := LRU_Unpin f (replacer b)\<rparr> else b)))
              else (True, set_frame f pg b)))"

definition BPM_FlushPage :: "'d disk_iface \<Rightarrow> page_id \<Rightarrow> 'd bpm \<Rightarrow> (bool \<times> 'd bpm) option" where
  "BPM_FlushPage dk P b =
     (case page_table b P of
        None \<Rightarrow> Some (False, b)
      | Some f \<Rightarrow> do {
          d \<leftarrow> dk_write dk P (data (frame_at b f)) (disk_manager b);
          Some (True, b\<lparr>disk_manager := d\<rparr>)
        })"

definition BPM_CheckAllUnpinned :: "'d bpm \<Rightarrow> bool" where
  "BPM_CheckAllUnpinned b = (\<forall>pg \<in> set (pages b). pin_count pg = 0)"

text \<open>The pool's own wrappers \<open>AllocatePage\<close>, \<open>DeallocatePage\<close> and \<open>IsPageFree\<close>
  forward to the disk manager; with them the disk manager is an instance of the
  interface.\<close>

definition disk_manager_iface :: "disk_manager disk_iface" where
  "disk_manager_iface = \<lparr>dk_read = Disk_ReadPage, dk_write = Disk_WritePage,
     dk_alloc = Disk_AllocatePage, dk_dealloc = Disk_DeAllocatePage, dk_is_free = Disk_IsPageFree\<rparr>"

text \<open>The pool's public operations as a datatype, and one step of a client
  (\<open>None\<close> when the step aborts).\<close>

datatype bpm_op = BFetch page_id | BNew | BUnpin page_id bool | BFlush page_id | BDelete page_id

fun bpm_step :: "'d disk_iface \<Rightarrow> 'd bpm \<Rightarrow> bpm_op \<Rightarrow> 'd bpm option" where
  "bpm_step dk b (BFetch P) = map_option snd (BPM_FetchPage dk P b)"
| "bpm_step dk b BNew = map_option snd (BPM_NewPage dk b)"
| "bpm_step dk b (BUnpin P dirty) = Some (snd (BPM_UnpinPage P dirty b))"
| "bpm_step dk b (BFlush P) = map_option snd (BPM_FlushPage dk P b)"
| "bpm_step dk b (BDelete P) = Some (snd (BPM_DeletePage dk P b))"

text \<open>NewPage installs the disk's new page id unchecked: the pool stays consistent
  only when that id is a real page not already in the pool.\<close>

definition bpm_new_fresh :: "'d disk_iface \<Rightarrow> 'd bpm \<Rightarrow> bool" where
  "bpm_new_fresh dk b =
     (case BPM_NewPage dk b of
        Some (Some (P, f), b') \<Rightarrow> P \<noteq> INVALID_PAGE_ID \<and> page_table b P = None
      | _ \<Rightarrow> True)"

text \<open>The pool invariant: frames and page table agree (each mapped page names a
  frame holding that page, so no two frames hold one page), free frames are
  empty and outside the replacer, the replacer holds only unpinned mapped frames,
  and every frame is free or mapped.\<close>

definition frame_ok :: "'d bpm \<Rightarrow> frame_id \<Rightarrow> bool" where
  "frame_ok b f \<longleftrightarrow> 0 \<le> f \<and> nat f < pool_size b"

definition bpm_inv :: "'d bpm \<Rightarrow> bool" where
  "bpm_inv b \<longleftrightarrow>
     length (pages b) = pool_size b \<and>
     max_supported_list_size (replacer b) = pool_size b \<and> lru_inv (replacer b) \<and>
     page_table b INVALID_PAGE_ID = None \<and>
     (\<forall>P f. page_table b P = Some f \<longrightarrow> frame_ok b f \<and> page_id (frame_at b f) = P) \<and>
     distinct (free_list b) \<and>
     (\<forall>f \<in> set (free_list b). frame_ok b f \<and> f \<notin> set (lru_list (replacer b)) \<and>
        page_id (frame_at b f) = INVALID_PAGE_ID \<and> pin_count (frame_at b f) = 0 \<and>
        \<not> is_dirty (frame_at b f)) \<and>
     (\<forall>f \<in> set (lru_list (replacer b)).
        page_table b (page_id (frame_at b f)) = Some f \<and> pin_count (frame_at b f) = 0) \<and>
     (\<forall>i < pool_size b. int i \<in> set (free_list b) \<or> page_table b (page_id (pages b ! i)) = Some (int i))"

lemmas bpm_defs [model_simps] = BufferPoolManager_def BPM_find_frame_def BPM_FetchPage_def
  BPM_NewPage_def BPM_DeletePage_def BPM_UnpinPage_def BPM_FlushPage_def map_insert_def

subsection \<open>Frames\<close>

lemma set_frame_fields [simp]:
  "pool_size (set_frame f pg b) = pool_size b"
  "page_table (set_frame f pg b) = page_table b"
  "free_list (set_frame f pg b) = free_list b"
  "replacer (set_frame f pg b) = replacer b"
  "disk_manager (set_frame f pg b) = disk_manager b"
  "length (pages (set_frame f pg b)) = length (pages b)"
  by (simp_all add: set_frame_def)

lemma frame_at_set_frame [simp]:
  "frame_ok b f \<Longrightarrow> frame_ok b g \<Longrightarrow> length (pages b) = pool_size b \<Longrightarrow>
   frame_at (set_frame f pg b) g = (if g = f then pg else frame_at b g)"
  by (auto simp: frame_at_def set_frame_def frame_ok_def nth_list_update)

lemma set_frame_nth:
  "frame_ok b f \<Longrightarrow> i < length (pages b) \<Longrightarrow>
   pages (set_frame f pg b) ! i = (if int i = f then pg else pages b ! i)"
  by (auto simp: set_frame_def frame_ok_def nth_list_update)

lemma frame_ok_upd [simp]:
  "frame_ok (set_frame f pg b) g = frame_ok b g"
  "frame_ok (b\<lparr>replacer := r\<rparr>) g = frame_ok b g"
  "frame_ok (b\<lparr>free_list := fl\<rparr>) g = frame_ok b g"
  "frame_ok (b\<lparr>page_table := pt\<rparr>) g = frame_ok b g"
  "frame_ok (b\<lparr>disk_manager := d\<rparr>) g = frame_ok b g"
  by (simp_all add: frame_ok_def)

lemma frame_at_nth: "frame_ok b f \<Longrightarrow> frame_at b f = pages b ! nat f"
  by (simp add: frame_at_def)

lemma bpm_inv_table:
  "bpm_inv b \<Longrightarrow> page_table b P = Some f \<Longrightarrow> frame_ok b f \<and> page_id (frame_at b f) = P"
  by (simp add: bpm_inv_def)

lemma bpm_inv_lru:
  "bpm_inv b \<Longrightarrow> f \<in> set (lru_list (replacer b)) \<Longrightarrow>
   page_table b (page_id (frame_at b f)) = Some f \<and> pin_count (frame_at b f) = 0"
  by (simp add: bpm_inv_def)

lemma bpm_inv_free:
  "bpm_inv b \<Longrightarrow> f \<in> set (free_list b) \<Longrightarrow>
   frame_ok b f \<and> f \<notin> set (lru_list (replacer b)) \<and> page_id (frame_at b f) = INVALID_PAGE_ID \<and>
   pin_count (frame_at b f) = 0 \<and> \<not> is_dirty (frame_at b f)"
  by (simp add: bpm_inv_def)

text \<open>No two frames hold the same page (spec invariant 1).\<close>

lemma bpm_inv_unique_frame:
  assumes "bpm_inv b" "frame_ok b f" "frame_ok b g"
    and "page_id (frame_at b f) = page_id (frame_at b g)" "page_id (frame_at b f) \<noteq> INVALID_PAGE_ID"
  shows "f = g"
proof -
  have cov: "\<And>h. frame_ok b h \<Longrightarrow> page_id (frame_at b h) \<noteq> INVALID_PAGE_ID \<Longrightarrow>
               page_table b (page_id (frame_at b h)) = Some h"
  proof -
    fix h assume h: "frame_ok b h" "page_id (frame_at b h) \<noteq> INVALID_PAGE_ID"
    have nh: "int (nat h) = h" using h(1) by (simp add: frame_ok_def)
    have "h \<notin> set (free_list b)" using assms(1) h by (auto dest: bpm_inv_free)
    moreover have "\<forall>i < pool_size b. int i \<in> set (free_list b) \<or>
                     page_table b (page_id (pages b ! i)) = Some (int i)"
      using assms(1) by (simp add: bpm_inv_def)
    then have "int (nat h) \<in> set (free_list b) \<or>
                   page_table b (page_id (pages b ! nat h)) = Some (int (nat h))"
      using h(1) unfolding frame_ok_def by blast
    ultimately show "page_table b (page_id (frame_at b h)) = Some h"
      unfolding frame_at_def nh by blast
  qed
  have "page_table b (page_id (frame_at b f)) = Some f" using assms(2,5) by (rule cov)
  moreover have "page_table b (page_id (frame_at b f)) = Some g"
    using cov[OF assms(3)] assms(4,5) by argo
  ultimately show ?thesis by simp
qed

lemma frame_at_upd [simp]:
  "frame_at (b\<lparr>replacer := r\<rparr>) g = frame_at b g"
  "frame_at (b\<lparr>free_list := fl\<rparr>) g = frame_at b g"
  "frame_at (b\<lparr>page_table := pt\<rparr>) g = frame_at b g"
  "frame_at (b\<lparr>disk_manager := d\<rparr>) g = frame_at b g"
  by (simp_all add: frame_at_def)

lemma bpm_inv_valid_page:
  "bpm_inv b \<Longrightarrow> page_table b P = Some f \<Longrightarrow> P \<noteq> INVALID_PAGE_ID"
  by (auto simp: bpm_inv_def)

lemma bpm_inv_free_not_mapped:
  "bpm_inv b \<Longrightarrow> page_table b P = Some f \<Longrightarrow> f \<notin> set (free_list b)"
  by (metis bpm_inv_free bpm_inv_table bpm_inv_valid_page)

lemma bpm_inv_pool_pos: "bpm_inv b \<Longrightarrow> frame_ok b f \<Longrightarrow> 0 < max_supported_list_size (replacer b)"
  by (simp add: bpm_inv_def frame_ok_def)

text \<open>Changing one mapped frame, keeping its page id, together with a replacer whose
  frames are the old ones or the changed frame when it is unpinned, keeps the
  invariant.  UnpinPage and a FetchPage hit are of this shape.\<close>

lemma bpm_inv_mapped_frame:
  assumes inv: "bpm_inv b" and map: "page_table b P = Some f" and pid: "page_id pg = P"
    and r': "lru_inv r'" "max_supported_list_size r' = pool_size b"
    and lru: "\<And>g. g \<in> set (lru_list r') \<Longrightarrow>
                (g = f \<and> pin_count pg = 0) \<or> (g \<noteq> f \<and> g \<in> set (lru_list (replacer b)))"
  shows "bpm_inv (set_frame f pg (b\<lparr>replacer := r'\<rparr>))" (is "bpm_inv ?b")
proof -
  have fok: "frame_ok b f" and pf: "page_id (frame_at b f) = P" using bpm_inv_table[OF inv map] by auto
  have len: "length (pages b) = pool_size b" using inv by (simp add: bpm_inv_def)
  have fa: "\<And>g. frame_ok b g \<Longrightarrow> frame_at ?b g = (if g = f then pg else frame_at b g)"
    using fok len by (simp add: frame_at_set_frame)
  have nfree: "f \<notin> set (free_list b)" using bpm_inv_free_not_mapped[OF inv map] .
  have tab: "\<forall>Q g. page_table ?b Q = Some g \<longrightarrow> frame_ok ?b g \<and> page_id (frame_at ?b g) = Q"
    using inv pid pf fa by (auto simp: bpm_inv_def)
  have fr: "\<forall>g \<in> set (free_list ?b). frame_ok ?b g \<and> g \<notin> set (lru_list (replacer ?b)) \<and>
        page_id (frame_at ?b g) = INVALID_PAGE_ID \<and> pin_count (frame_at ?b g) = 0 \<and>
        \<not> is_dirty (frame_at ?b g)"
  proof
    fix g assume g: "g \<in> set (free_list ?b)"
    then have "g \<noteq> f" using nfree by auto
    with g show "frame_ok ?b g \<and> g \<notin> set (lru_list (replacer ?b)) \<and>
        page_id (frame_at ?b g) = INVALID_PAGE_ID \<and> pin_count (frame_at ?b g) = 0 \<and>
        \<not> is_dirty (frame_at ?b g)"
      using bpm_inv_free[OF inv, of g] fa[of g] lru[of g] by auto
  qed
  have lr: "\<forall>g \<in> set (lru_list (replacer ?b)).
        page_table ?b (page_id (frame_at ?b g)) = Some g \<and> pin_count (frame_at ?b g) = 0"
  proof
    fix g assume "g \<in> set (lru_list (replacer ?b))"
    then have "(g = f \<and> pin_count pg = 0) \<or> (g \<noteq> f \<and> g \<in> set (lru_list (replacer b)))"
      using lru by simp
    then show "page_table ?b (page_id (frame_at ?b g)) = Some g \<and> pin_count (frame_at ?b g) = 0"
    proof
      assume "g = f \<and> pin_count pg = 0" then show ?thesis using fa[OF fok] pid map by simp
    next
      assume g: "g \<noteq> f \<and> g \<in> set (lru_list (replacer b))"
      then have "frame_ok b g" using bpm_inv_lru[OF inv] bpm_inv_table[OF inv] by blast
      then show ?thesis using g fa bpm_inv_lru[OF inv] by simp
    qed
  qed
  have cov: "\<forall>i < pool_size ?b. int i \<in> set (free_list ?b) \<or>
               page_table ?b (page_id (pages ?b ! i)) = Some (int i)"
    using inv fok len pid map by (auto simp: bpm_inv_def set_frame_nth)
  show ?thesis
    using inv r' tab fr lr cov by (simp add: bpm_inv_def)
qed

lemma set_frame_replacer_self: "set_frame f pg b = set_frame f pg (b\<lparr>replacer := replacer b\<rparr>)"
  by simp

lemma BPM_UnpinPage_inv:
  assumes inv: "bpm_inv b"
  shows "bpm_inv (snd (BPM_UnpinPage P dirty b))"
proof (cases "page_table b P")
  case None
  then show ?thesis using inv by (simp add: BPM_UnpinPage_def)
next
  case (Some f)
  have fok: "frame_ok b f" and pf: "page_id (frame_at b f) = P" using bpm_inv_table[OF inv Some] by auto
  have r: "lru_inv (replacer b)" "max_supported_list_size (replacer b) = pool_size b"
    using inv by (simp_all add: bpm_inv_def)
  have pos: "0 < max_supported_list_size (replacer b)" using bpm_inv_pool_pos[OF inv fok] .
  define pg where "pg = (frame_at b f)\<lparr>is_dirty := is_dirty (frame_at b f) \<or> dirty\<rparr>"
  show ?thesis
  proof (cases "0 < pin_count pg")
    case True
    define pg' where "pg' = pg\<lparr>pin_count := pin_count pg - 1\<rparr>"
    have nf: "f \<notin> set (lru_list (replacer b))"
      using bpm_inv_lru[OF inv, of f] True by (auto simp: pg_def)
    show ?thesis
    proof (cases "pin_count pg' = 0")
      case z: True
      have "bpm_inv (set_frame f pg' (b\<lparr>replacer := LRU_Unpin f (replacer b)\<rparr>))"
        using set_LRU_Unpin_subset[of f "replacer b"] z nf LRU_Unpin_inv[OF r(1) pos, of f]
        by (intro bpm_inv_mapped_frame[OF inv Some]) (auto simp: pg'_def pg_def pf r)
      then show ?thesis using Some True z unfolding pg'_def pg_def
        by (simp add: BPM_UnpinPage_def Let_def)
    next
      case nz: False
      have "bpm_inv (set_frame f pg' (b\<lparr>replacer := replacer b\<rparr>))"
        using nf by (intro bpm_inv_mapped_frame[OF inv Some]) (auto simp: pg'_def pg_def pf r)
      then show ?thesis using Some True nz unfolding pg'_def pg_def
        by (simp add: BPM_UnpinPage_def Let_def)
    qed
  next
    case False
    have "bpm_inv (set_frame f pg (b\<lparr>replacer := replacer b\<rparr>))"
      using False by (intro bpm_inv_mapped_frame[OF inv Some]) (auto simp: pg_def pf r)
    then show ?thesis using Some False unfolding pg_def
      by (simp add: BPM_UnpinPage_def Let_def)
  qed
qed

lemma bpm_inv_disk [simp]: "bpm_inv (b\<lparr>disk_manager := d\<rparr>) = bpm_inv b"
  by (simp add: bpm_inv_def frame_ok_def frame_at_def)

lemma BPM_FlushPage_inv:
  "bpm_inv b \<Longrightarrow> BPM_FlushPage dk P b = Some (ok, b') \<Longrightarrow> bpm_inv b'"
  by (auto simp: BPM_FlushPage_def bind_eq_Some_conv split: option.splits)

lemma BPM_FetchPage_hit_inv:
  assumes inv: "bpm_inv b" and map: "page_table b P = Some f"
  shows "bpm_inv (set_frame f ((frame_at b f)\<lparr>pin_count := pin_count (frame_at b f) + 1\<rparr>)
                    (b\<lparr>replacer := LRU_Pin f (replacer b)\<rparr>))"
proof -
  have r: "lru_inv (replacer b)" "max_supported_list_size (replacer b) = pool_size b"
    using inv by (simp_all add: bpm_inv_def)
  show ?thesis
    using bpm_inv_table[OF inv map] set_LRU_Pin[OF r(1), of f]
    by (intro bpm_inv_mapped_frame[OF inv map]) (auto simp: r LRU_Pin_inv)
qed

lemma BPM_find_frame_Some:
  assumes inv: "bpm_inv b" and ff: "BPM_find_frame b = (Some (f, fr), b1)"
  shows "frame_ok b f \<and> pool_size b1 = pool_size b \<and> pages b1 = pages b \<and>
         page_table b1 = page_table b \<and> disk_manager b1 = disk_manager b \<and>
         set (free_list b1) = set (free_list b) - {f} \<and> distinct (free_list b1) \<and>
         set (lru_list (replacer b1)) = set (lru_list (replacer b)) - {f} \<and>
         lru_inv (replacer b1) \<and> max_supported_list_size (replacer b1) = pool_size b \<and>
         pin_count (frame_at b f) = 0 \<and>
         (if fr then page_table b (page_id (frame_at b f)) = Some f
          else page_id (frame_at b f) = INVALID_PAGE_ID)"
proof (cases "free_list b = []")
  case False
  then obtain fl where fl: "free_list b = f # fl" and "\<not> fr" "b1 = b\<lparr>free_list := fl\<rparr>"
    using ff by (cases "free_list b") (auto simp: BPM_find_frame_def)
  moreover have "distinct (free_list b)" "lru_inv (replacer b)"
    "max_supported_list_size (replacer b) = pool_size b" using inv by (simp_all add: bpm_inv_def)
  ultimately show ?thesis using bpm_inv_free[OF inv, of f] by auto
next
  case True
  then obtain r' where v: "LRU_Victim (replacer b) = (Some f, r')" and "fr" "b1 = b\<lparr>replacer := r'\<rparr>"
    using ff by (auto simp: BPM_find_frame_def split: prod.splits option.splits)
  moreover have r: "lru_inv (replacer b)" "max_supported_list_size (replacer b) = pool_size b"
    using inv by (simp_all add: bpm_inv_def)
  moreover note LRU_Victim_Some[OF r(1) v]
  moreover have "frame_ok b f"
    using calculation bpm_inv_lru[OF inv, of f] bpm_inv_table[OF inv] by blast
  ultimately show ?thesis using True bpm_inv_lru[OF inv, of f] by auto
qed

text \<open>Installing page \<open>P\<close>, not in the pool, in the frame the pool found for it:
  the frame leaves the free list or the replacer, its old page is erased from the
  page table and \<open>P\<close> mapped to it.  FetchPage and NewPage both end this way.\<close>

lemma bpm_inv_install:
  assumes inv: "bpm_inv b" and ff: "BPM_find_frame b = (Some (f, fr), b1)"
    and P: "P \<noteq> INVALID_PAGE_ID" "page_table b P = None"
    and r': "lru_inv r'" "max_supported_list_size r' = pool_size b"
            "set (lru_list r') = set (lru_list (replacer b1))"
  shows "bpm_inv (set_frame f \<lparr>page_id = P, pin_count = n, is_dirty = False, data = c\<rparr>
           (b1\<lparr>replacer := r', disk_manager := d,
               page_table := ((page_table b1)(page_id (frame_at b1 f) := None))(P \<mapsto> f)\<rparr>))"
    (is "bpm_inv ?b")
proof -
  note F = BPM_find_frame_Some[OF inv ff]
  let ?old = "page_id (frame_at b f)"
  have fok: "frame_ok b f" and len: "length (pages b) = pool_size b"
    using F inv by (simp_all add: bpm_inv_def)
  have pb: "pages ?b = (pages b)[nat f := \<lparr>page_id = P, pin_count = n, is_dirty = False, data = c\<rparr>]"
    using F by (simp add: set_frame_def)
  have fa: "\<And>g. frame_ok b g \<Longrightarrow> frame_at ?b g =
              (if g = f then \<lparr>page_id = P, pin_count = n, is_dirty = False, data = c\<rparr> else frame_at b g)"
    using pb fok len unfolding frame_at_def frame_ok_def by (simp add: nth_list_update eq_nat_nat_iff)
  have okb: "frame_ok ?b g = frame_ok b g" for g using F by (simp add: frame_ok_def)
  have tabF: "page_table ?b Q = (if Q = P then Some f else if Q = ?old then None else page_table b Q)"
    for Q using F by (simp add: frame_at_def)
  have only: "page_table b Q = Some f \<Longrightarrow> Q = ?old" for Q using bpm_inv_table[OF inv] by blast
  have tab: "\<forall>Q g. page_table ?b Q = Some g \<longrightarrow> frame_ok ?b g \<and> page_id (frame_at ?b g) = Q"
  proof (intro allI impI)
    fix Q g assume h: "page_table ?b Q = Some g"
    show "frame_ok ?b g \<and> page_id (frame_at ?b g) = Q"
    proof (cases "Q = P")
      case True
      then show ?thesis using h tabF[of Q] fa[OF fok] fok okb by simp
    next
      case False
      then have q: "Q \<noteq> ?old" "page_table b Q = Some g" using h tabF[of Q] by (simp_all split: if_splits)
      then have "g \<noteq> f" "frame_ok b g" "page_id (frame_at b g) = Q"
        using only[of Q] bpm_inv_table[OF inv q(2)] by auto
      then show ?thesis using fa okb by simp
    qed
  qed
  have inv0: "page_table ?b INVALID_PAGE_ID = None"
    using tabF[of INVALID_PAGE_ID] P inv by (simp add: bpm_inv_def)
  have fr: "\<forall>g \<in> set (free_list ?b). frame_ok ?b g \<and> g \<notin> set (lru_list (replacer ?b)) \<and>
        page_id (frame_at ?b g) = INVALID_PAGE_ID \<and> pin_count (frame_at ?b g) = 0 \<and>
        \<not> is_dirty (frame_at ?b g)"
  proof
    fix g assume "g \<in> set (free_list ?b)"
    then have g: "g \<in> set (free_list b)" "g \<noteq> f" using F by auto
    then have "frame_ok b g" "frame_at ?b g = frame_at b g"
      "g \<notin> set (lru_list (replacer ?b))" using bpm_inv_free[OF inv g(1)] fa r'(3) F by auto
    then show "frame_ok ?b g \<and> g \<notin> set (lru_list (replacer ?b)) \<and>
        page_id (frame_at ?b g) = INVALID_PAGE_ID \<and> pin_count (frame_at ?b g) = 0 \<and>
        \<not> is_dirty (frame_at ?b g)" using bpm_inv_free[OF inv g(1)] okb by simp
  qed
  have oldg: "g \<noteq> f \<Longrightarrow> page_table b ?old \<noteq> Some g" for g
    using F inv by (cases fr) (auto simp: bpm_inv_def)
  have lr: "\<forall>g \<in> set (lru_list (replacer ?b)).
        page_table ?b (page_id (frame_at ?b g)) = Some g \<and> pin_count (frame_at ?b g) = 0"
  proof
    fix g assume "g \<in> set (lru_list (replacer ?b))"
    then have g: "g \<noteq> f" "g \<in> set (lru_list (replacer b))" using F r'(3) by auto
    then have "page_table b (page_id (frame_at b g)) = Some g" "pin_count (frame_at b g) = 0"
      "frame_ok b g" using bpm_inv_lru[OF inv] bpm_inv_table[OF inv] by blast+
    moreover have "page_table b ?old \<noteq> Some g" using oldg g(1) .
    ultimately show "page_table ?b (page_id (frame_at ?b g)) = Some g \<and> pin_count (frame_at ?b g) = 0"
      using g fa tabF[of "page_id (frame_at b g)"] P(2) by (auto split: if_splits)
  qed
  have cov: "\<forall>i < pool_size ?b. int i \<in> set (free_list ?b) \<or>
               page_table ?b (page_id (pages ?b ! i)) = Some (int i)"
  proof (intro allI impI)
    fix i assume i: "i < pool_size ?b"
    then have fi: "frame_ok b (int i)" using F by (simp add: frame_ok_def)
    have pi: "pages ?b ! i = frame_at ?b (int i)" by (simp add: frame_at_def)
    show "int i \<in> set (free_list ?b) \<or> page_table ?b (page_id (pages ?b ! i)) = Some (int i)"
    proof (cases "int i = f")
      case True
      then show ?thesis using pi fa[OF fi] tabF[of P] by simp
    next
      case False
      have "int i \<in> set (free_list b) \<or> page_table b (page_id (frame_at b (int i))) = Some (int i)"
        using inv i F by (simp add: bpm_inv_def frame_at_def)
      then show ?thesis
        using False pi fa[OF fi] tabF[of "page_id (frame_at b (int i))"] P(2) F oldg[OF False]
        by (auto split: if_splits)
    qed
  qed
  show ?thesis
    using inv F r' tab inv0 fr lr cov by (simp add: bpm_inv_def)
qed

lemma BPM_find_frame_empty:
  "free_list b = [] \<Longrightarrow> lru_list (replacer b) = [] \<Longrightarrow> BPM_find_frame b = (None, b)"
  by (simp add: BPM_find_frame_def LRU_Victim_def)

lemma BPM_find_frame_None: "BPM_find_frame b = (None, b1) \<Longrightarrow> b1 = b"
  by (auto simp: BPM_find_frame_def split: if_splits prod.splits option.splits)

lemma LRU_Pin_absent: "f \<notin> set (lru_list r) \<Longrightarrow> LRU_Pin f r = r"
  by (simp add: LRU_Pin_def remove1_idem)

lemma BPM_FetchPage_inv:
  assumes inv: "bpm_inv b" and run: "BPM_FetchPage dk P b = Some (res, b')"
  shows "bpm_inv b'"
proof (cases "P = INVALID_PAGE_ID \<or> page_table b P \<noteq> None")
  case True
  then show ?thesis using run inv BPM_FetchPage_hit_inv[OF inv] bpm_inv_valid_page[OF inv]
    by (auto simp: BPM_FetchPage_def split: option.splits)
next
  case False
  then have P: "P \<noteq> INVALID_PAGE_ID" "page_table b P = None" by auto
  obtain x b1 where ff: "BPM_find_frame b = (x, b1)" by fastforce
  show ?thesis
  proof (cases x)
    case None
    then show ?thesis using run P ff inv BPM_find_frame_None[of b b1] by (simp add: BPM_FetchPage_def)
  next
    case (Some y)
    obtain f fr where ff': "BPM_find_frame b = (Some (f, fr), b1)" using ff Some by (cases y) auto
    note F = BPM_find_frame_Some[OF inv ff']
    have pin: "LRU_Pin f (replacer b1) = replacer b1" using F by (simp add: LRU_Pin_absent)
    have mi: "map_insert ((page_table b1)(page_id (frame_at b1 f) := None)) P f =
              ((page_table b1)(page_id (frame_at b1 f) := None))(P \<mapsto> f)"
      using F P by (simp add: map_insert_def frame_at_def)
    obtain d3 c where b': "b' = set_frame f \<lparr>page_id = P, pin_count = 1, is_dirty = False, data = c\<rparr>
           (b1\<lparr>replacer := replacer b1, disk_manager := d3,
               page_table := ((page_table b1)(page_id (frame_at b1 f) := None))(P \<mapsto> f)\<rparr>)"
      using run P ff' pin mi by (auto simp: BPM_FetchPage_def Let_def bind_eq_Some_conv)
    show ?thesis unfolding b' using F by (intro bpm_inv_install[OF inv ff' P]) simp_all
  qed
qed

lemma BPM_NewPage_run:
  assumes inv: "bpm_inv b" and run: "BPM_NewPage dk b = Some (Some (P, f), b')"
    and P: "P \<noteq> INVALID_PAGE_ID" "page_table b P = None"
  obtains fr b1 d3 where "BPM_find_frame b = (Some (f, fr), b1)"
    and "b' = set_frame f \<lparr>page_id = P, pin_count = 0, is_dirty = False, data = zero_page\<rparr>
           (b1\<lparr>replacer := replacer b1, disk_manager := d3,
               page_table := ((page_table b1)(page_id (frame_at b1 f) := None))(P \<mapsto> f)\<rparr>)"
proof -
  obtain fr b1 where ff: "BPM_find_frame b = (Some (f, fr), b1)"
    using run by (cases "BPM_find_frame b")
      (auto simp: BPM_NewPage_def Let_def bind_eq_Some_conv split_def split: option.splits if_splits)
  note F = BPM_find_frame_Some[OF inv ff]
  have inv0: "page_table b INVALID_PAGE_ID = None" using inv by (simp add: bpm_inv_def)
  have er: "(page_table b1)(page_id (frame_at b1 f) := None) = page_table b1" if "\<not> fr"
  proof -
    have "page_id (frame_at b1 f) = INVALID_PAGE_ID" "page_table b1 = page_table b"
      using F that by (simp_all add: frame_at_def)
    then show ?thesis using inv0 by (simp add: fun_upd_idem)
  qed
  have mi: "map_insert ((page_table b1)(page_id (frame_at b1 f) := None)) P f =
            ((page_table b1)(page_id (frame_at b1 f) := None))(P \<mapsto> f)"
    using F P by (simp add: map_insert_def frame_at_def)
  show ?thesis
  proof (cases fr)
    case True
    then show ?thesis using that[OF ff] run ff mi
      by (auto simp: BPM_NewPage_def Let_def bind_eq_Some_conv split_def split: if_splits)
  next
    case False
    then show ?thesis using that[OF ff] run ff mi er[OF False]
      by (auto simp: BPM_NewPage_def Let_def bind_eq_Some_conv split_def)
  qed
qed

lemma BPM_NewPage_inv:
  assumes inv: "bpm_inv b" and run: "BPM_NewPage dk b = Some (Some (P, f), b')"
    and P: "P \<noteq> INVALID_PAGE_ID" "page_table b P = None"
  shows "bpm_inv b'"
proof -
  obtain fr b1 d3 where ff: "BPM_find_frame b = (Some (f, fr), b1)"
    and b': "b' = set_frame f \<lparr>page_id = P, pin_count = 0, is_dirty = False, data = zero_page\<rparr>
           (b1\<lparr>replacer := replacer b1, disk_manager := d3,
               page_table := ((page_table b1)(page_id (frame_at b1 f) := None))(P \<mapsto> f)\<rparr>)"
    using BPM_NewPage_run[OF assms] by blast
  show ?thesis unfolding b' using BPM_find_frame_Some[OF inv ff]
    by (intro bpm_inv_install[OF inv ff P]) simp_all
qed

lemma BPM_NewPage_None: "BPM_NewPage dk b = Some (None, b') \<Longrightarrow> b' = b"
  by (cases "BPM_find_frame b")
    (auto simp: BPM_NewPage_def Let_def bind_eq_Some_conv split_def BPM_find_frame_None
          split: option.splits if_splits)

lemma BPM_UnpinPage_pool_size: "pool_size (snd (BPM_UnpinPage P dirty b)) = pool_size b"
  by (simp add: BPM_UnpinPage_def Let_def split: option.splits)

lemma bpm_inv_init: "bpm_inv (BufferPoolManager n d)"
  using lru_inv_init[of n]
  by (auto simp: bpm_inv_def BufferPoolManager_def frame_ok_def frame_at_def empty_frame_def
                 distinct_map inj_on_def LRUReplacer_def)

section \<open>The pool invariant\<close>

text \<open>C12: FetchPage, NewPage (when the disk hands out a page id that is valid and
  not already in the pool), UnpinPage and FlushPage each keep the pool consistent:
  the page table and the frames agree, no two frames hold one page, free frames
  are empty and outside the replacer, the replacer holds only unpinned mapped
  frames, and every frame is free or mapped.  (DeletePage does not: C17.)\<close>

theorem bpm_step_inv:
  assumes "bpm_inv b" and "\<forall>P. op \<noteq> BDelete P" and "op = BNew \<longrightarrow> bpm_new_fresh dk b"
    and "bpm_step dk b op = Some b'"
  shows "bpm_inv b'"
  using assms
proof (cases op)
  case (BFetch P)
  then show ?thesis using assms BPM_FetchPage_inv[of b dk P] by auto
next
  case BNew
  then show ?thesis using assms BPM_NewPage_inv[of b dk] BPM_NewPage_None[of dk b]
    by (auto simp: bpm_new_fresh_def split: option.splits prod.splits)
next
  case (BUnpin P dirty)
  then show ?thesis using assms BPM_UnpinPage_inv[of b P dirty] by auto
next
  case (BFlush P)
  then show ?thesis using assms BPM_FlushPage_inv[of b dk P] by auto
qed simp

lemma bpm_step_inv_witness:
  "bpm_inv (the (bpm_step disk_manager_iface (BufferPoolManager 2 init_disk) (BFetch 3)))"
proof -
  have "bpm_step disk_manager_iface (BufferPoolManager 2 init_disk) (BFetch 3) \<noteq> None"
    by (simp add: BPM_FetchPage_def BPM_find_frame_def BufferPoolManager_def disk_manager_iface_def
                  Disk_ReadPage_init BITMAP_SIZE_val frame_at_def empty_frame_def upt_rec)
  then show ?thesis
    using bpm_step_inv [OF bpm_inv_init [of 2 init_disk], of "BFetch 3" disk_manager_iface] by auto
qed

section \<open>FetchPage\<close>

lemma BPM_FetchPage_miss_run:
  assumes inv: "bpm_inv b" and P: "P \<noteq> INVALID_PAGE_ID" "page_table b P = None"
    and run: "BPM_FetchPage dk P b = Some (Some f, b')"
  obtains fr b1 d3 c d4 where "BPM_find_frame b = (Some (f, fr), b1)"
    and "(if is_dirty (frame_at b f) then dk_write dk (page_id (frame_at b f)) (data (frame_at b f)) (disk_manager b)
          else Some (disk_manager b)) = Some d3"
    and "dk_read dk d3 P = Some (c, d4)"
    and "b' = set_frame f \<lparr>page_id = P, pin_count = 1, is_dirty = False, data = c\<rparr>
           (b1\<lparr>replacer := replacer b1, disk_manager := d4,
               page_table := ((page_table b1)(page_id (frame_at b1 f) := None))(P \<mapsto> f)\<rparr>)"
proof -
  obtain x b1 where ff: "BPM_find_frame b = (x, b1)" by fastforce
  then obtain fr where ff': "BPM_find_frame b = (Some (f, fr), b1)"
    using run P by (cases x) (auto simp: BPM_FetchPage_def Let_def bind_eq_Some_conv)
  note F = BPM_find_frame_Some[OF inv ff']
  have pin: "LRU_Pin f (replacer b1) = replacer b1" using F by (simp add: LRU_Pin_absent)
  have mi: "map_insert ((page_table b1)(page_id (frame_at b1 f) := None)) P f =
            ((page_table b1)(page_id (frame_at b1 f) := None))(P \<mapsto> f)"
    using F P by (simp add: map_insert_def frame_at_def)
  have fa: "frame_at b1 f = frame_at b f" "disk_manager b1 = disk_manager b"
    using F by (simp_all add: frame_at_def)
  have "\<exists>d3 c d4. (if is_dirty (frame_at b1 f)
            then dk_write dk (page_id (frame_at b1 f)) (data (frame_at b1 f)) (disk_manager b1)
            else Some (disk_manager b1)) = Some d3 \<and> dk_read dk d3 P = Some (c, d4) \<and>
         b' = set_frame f \<lparr>page_id = P, pin_count = 1, is_dirty = False, data = c\<rparr>
           (b1\<lparr>replacer := replacer b1, disk_manager := d4,
               page_table := ((page_table b1)(page_id (frame_at b1 f) := None))(P \<mapsto> f)\<rparr>)"
    using run P ff' pin mi by (auto simp: BPM_FetchPage_def Let_def bind_eq_Some_conv split: if_splits)
  then show ?thesis using that[OF ff'] unfolding fa by blast
qed

text \<open>FetchPage of a page not in the pool takes a frame, writes the frame's
  old contents back under its old page id when it is dirty, then reads the page
  from that disk into the frame, pinned once and clean, and maps the page to it.\<close>

theorem BPM_FetchPage_miss:
  assumes "bpm_inv b" and "P \<noteq> INVALID_PAGE_ID" and "page_table b P = None"
    and "BPM_FetchPage dk P b = Some (Some f, b')"
  shows "frame_ok b f \<and> page_table b' P = Some f \<and>
         page_id (frame_at b' f) = P \<and> pin_count (frame_at b' f) = 1 \<and> \<not> is_dirty (frame_at b' f) \<and>
         (\<exists>d3. (if is_dirty (frame_at b f)
                then dk_write dk (page_id (frame_at b f)) (data (frame_at b f)) (disk_manager b) = Some d3
                else d3 = disk_manager b) \<and>
               dk_read dk d3 P = Some (data (frame_at b' f), disk_manager b'))"
proof -
  obtain fr b1 d3 c d4 where ff: "BPM_find_frame b = (Some (f, fr), b1)"
    and w: "(if is_dirty (frame_at b f) then dk_write dk (page_id (frame_at b f)) (data (frame_at b f)) (disk_manager b)
          else Some (disk_manager b)) = Some d3"
    and r: "dk_read dk d3 P = Some (c, d4)"
    and b': "b' = set_frame f \<lparr>page_id = P, pin_count = 1, is_dirty = False, data = c\<rparr>
           (b1\<lparr>replacer := replacer b1, disk_manager := d4,
               page_table := ((page_table b1)(page_id (frame_at b1 f) := None))(P \<mapsto> f)\<rparr>)"
    using BPM_FetchPage_miss_run[OF assms] by blast
  note F = BPM_find_frame_Some[OF assms(1) ff]
  have "bpm_inv b'" using BPM_FetchPage_inv[OF assms(1,4)] .
  then have "frame_at b' f = \<lparr>page_id = P, pin_count = 1, is_dirty = False, data = c\<rparr>"
    using F b' assms(1) by (simp add: frame_at_def set_frame_def bpm_inv_def frame_ok_def)
  then show ?thesis using F b' w r by (auto split: if_splits)
qed

lemma BPM_FetchPage_miss_witness:
  "page_table (snd (the (BPM_FetchPage disk_manager_iface 3 (BufferPoolManager 2 init_disk)))) 3 = Some 0
   \<and> data (frame_at (snd (the (BPM_FetchPage disk_manager_iface 3 (BufferPoolManager 2 init_disk)))) 0)
       = zero_page"
proof -
  let ?b = "BufferPoolManager 2 init_disk :: disk_manager bpm"
  define b' where "b' = snd (the (BPM_FetchPage disk_manager_iface 3 ?b))"
  have run: "BPM_FetchPage disk_manager_iface 3 ?b = Some (Some 0, b')"
    unfolding b'_def
    by (simp add: BPM_FetchPage_def BPM_find_frame_def BufferPoolManager_def disk_manager_iface_def
                  Disk_ReadPage_init BITMAP_SIZE_val frame_at_def empty_frame_def upt_rec INVALID_PAGE_ID_def)
  have "page_table ?b 3 = None" by (simp add: BufferPoolManager_def)
  note m = BPM_FetchPage_miss [OF bpm_inv_init [of 2 init_disk] _ this run]
  then show ?thesis unfolding b'_def[symmetric]
    by (simp add: BufferPoolManager_def frame_at_def empty_frame_def INVALID_PAGE_ID_def
                  disk_manager_iface_def Disk_ReadPage_init BITMAP_SIZE_val)
qed

section \<open>UnpinPage\<close>

text \<open>The replacer's frames are distinct mapped frames, so while some frame is
  outside it the replacer is not full: LRU_Unpin's branch that drops the oldest
  frame is never taken by the pool.\<close>

lemma bpm_lru_room:
  assumes inv: "bpm_inv b" and f: "frame_ok b f" "f \<notin> set (lru_list (replacer b))"
  shows "LRU_Size (replacer b) < max_supported_list_size (replacer b)"
proof -
  let ?A = "int ` {0..<pool_size b}"
  have sub: "set (lru_list (replacer b)) \<subseteq> ?A - {f}"
  proof
    fix g assume g: "g \<in> set (lru_list (replacer b))"
    then have "frame_ok b g" using bpm_inv_lru[OF inv g] bpm_inv_table[OF inv] by blast
    then have "g \<in> ?A" unfolding frame_ok_def by (auto intro: image_eqI[of _ _ "nat g"])
    then show "g \<in> ?A - {f}" using g f(2) by auto
  qed
  have fA: "f \<in> ?A" using f(1) unfolding frame_ok_def by (auto intro: image_eqI[of _ _ "nat f"])
  have "card (set (lru_list (replacer b))) \<le> card (?A - {f})"
    by (rule card_mono[OF _ sub]) simp
  also have "\<dots> = pool_size b - 1" using fA by (simp add: card_image)
  finally have "length (lru_list (replacer b)) \<le> pool_size b - 1"
    using inv by (simp add: bpm_inv_def lru_inv_def distinct_card)
  moreover have "0 < pool_size b" using f(1) by (simp add: frame_ok_def)
  ultimately show ?thesis using inv by (simp add: bpm_inv_def LRU_Size_def)
qed

text \<open>UnpinPage that drops the last pin of a page makes its frame evictable:
  the replacer gains exactly that frame, the pin count is zero and the dirty flag
  is or-ed with the caller's.\<close>

theorem BPM_UnpinPage_evictable:
  assumes inv: "bpm_inv b" and map: "page_table b P = Some f" and pin: "pin_count (frame_at b f) = 1"
  shows "fst (BPM_UnpinPage P dirty b) \<and>
         set (lru_list (replacer (snd (BPM_UnpinPage P dirty b)))) = insert f (set (lru_list (replacer b))) \<and>
         pin_count (frame_at (snd (BPM_UnpinPage P dirty b)) f) = 0 \<and>
         is_dirty (frame_at (snd (BPM_UnpinPage P dirty b)) f) = (is_dirty (frame_at b f) \<or> dirty)"
proof -
  have fok: "frame_ok b f" using bpm_inv_table[OF inv map] by simp
  have len: "length (pages b) = pool_size b" using inv by (simp add: bpm_inv_def)
  have nf: "f \<notin> set (lru_list (replacer b))" using bpm_inv_lru[OF inv, of f] pin by auto
  have r: "lru_inv (replacer b)" using inv by (simp add: bpm_inv_def)
  have "lru_abs (LRU_Unpin f (replacer b)) = insert f (lru_abs (replacer b))"
    using lru_abs_Unpin[OF r] bpm_lru_room[OF inv fok nf] by blast
  then show ?thesis using map pin fok len
    by (simp add: BPM_UnpinPage_def Let_def lru_abs_def frame_at_set_frame)
qed

lemma BPM_UnpinPage_evictable_witness:
  "set (lru_list (replacer (snd (BPM_UnpinPage 3 True
      (snd (the (BPM_FetchPage disk_manager_iface 3 (BufferPoolManager 2 init_disk)))))))) = {0}"
proof -
  let ?b = "BufferPoolManager 2 init_disk :: disk_manager bpm"
  define b' where "b' = snd (the (BPM_FetchPage disk_manager_iface 3 ?b))"
  have run: "BPM_FetchPage disk_manager_iface 3 ?b = Some (Some 0, b')"
    unfolding b'_def
    by (simp add: BPM_FetchPage_def BPM_find_frame_def BufferPoolManager_def disk_manager_iface_def
                  Disk_ReadPage_init BITMAP_SIZE_val frame_at_def empty_frame_def upt_rec INVALID_PAGE_ID_def)
  have inv: "bpm_inv b'" using BPM_FetchPage_inv[OF bpm_inv_init run] .
  have b': "b' = snd (the (BPM_FetchPage disk_manager_iface 3 ?b))" by (fact b'_def)
  have m: "page_table b' 3 = Some 0" "pin_count (frame_at b' 0) = 1" "lru_list (replacer b') = []"
    unfolding b'
    by (simp_all add: BPM_FetchPage_def BPM_find_frame_def BufferPoolManager_def disk_manager_iface_def
                  Disk_ReadPage_init BITMAP_SIZE_val frame_at_def set_frame_def empty_frame_def upt_rec
                  INVALID_PAGE_ID_def map_insert_def LRU_Pin_def LRUReplacer_def)
  show ?thesis using BPM_UnpinPage_evictable [OF inv m(1,2), of True] m(3) unfolding b'_def by simp
qed

section \<open>NewPage leaves its frame unevictable\<close>

lemma BPM_NewPage_frame:
  assumes inv: "bpm_inv b" and run: "BPM_NewPage dk b = Some (Some (P, f), b')"
    and P: "P \<noteq> INVALID_PAGE_ID" "page_table b P = None"
  shows "page_table b' P = Some f \<and> pin_count (frame_at b' f) = 0 \<and> f \<notin> set (lru_list (replacer b'))"
proof -
  obtain fr b1 d3 where ff: "BPM_find_frame b = (Some (f, fr), b1)"
    and b': "b' = set_frame f \<lparr>page_id = P, pin_count = 0, is_dirty = False, data = zero_page\<rparr>
           (b1\<lparr>replacer := replacer b1, disk_manager := d3,
               page_table := ((page_table b1)(page_id (frame_at b1 f) := None))(P \<mapsto> f)\<rparr>)"
    using BPM_NewPage_run[OF assms] by blast
  note F = BPM_find_frame_Some[OF inv ff]
  have "length (pages b) = pool_size b" using inv by (simp add: bpm_inv_def)
  then have "frame_at b' f = \<lparr>page_id = P, pin_count = 0, is_dirty = False, data = zero_page\<rparr>"
    using F b' by (simp add: frame_at_def set_frame_def frame_ok_def)
  then show ?thesis using F b' by simp
qed

text \<open>C13: NewPage installs its page with pin count 0 and outside the replacer, and
  UnpinPage only decrements a positive pin count: after NewPage and UnpinPage
  (dirty or not) the frame is still not evictable.  With every frame made this
  way the pool has no victim although nothing is pinned, so spec scenario (a)
  (ten NewPage, unpin all, an eleventh NewPage must evict) returns \<open>nullptr\<close>.\<close>

theorem BPM_NewPage_unpin_not_evictable:
  assumes "bpm_inv b" and "BPM_NewPage dk b = Some (Some (P, f), b')"
    and "P \<noteq> INVALID_PAGE_ID" and "page_table b P = None"
  shows "fst (BPM_UnpinPage P dirty b') \<and> pin_count (frame_at (snd (BPM_UnpinPage P dirty b')) f) = 0 \<and>
         f \<notin> set (lru_list (replacer (snd (BPM_UnpinPage P dirty b'))))"
proof -
  note N = BPM_NewPage_frame[OF assms]
  have inv': "bpm_inv b'" using BPM_NewPage_inv[OF assms] .
  have "frame_ok b' f" "length (pages b') = pool_size b'"
    using bpm_inv_table[OF inv'] N inv' by (auto simp: bpm_inv_def)
  then show ?thesis using N by (simp add: BPM_UnpinPage_def Let_def frame_at_set_frame)
qed

text \<open>Spec scenario (a) with a pool of one frame: NewPage, then UnpinPage dirty;
  nothing is pinned, yet the next NewPage finds no frame.\<close>

lemma BPM_NewPage_unpin_not_evictable_witness:
  "let b1 = snd (the (BPM_NewPage disk_manager_iface (BufferPoolManager 1 init_disk)));
       P = fst (Disk_AllocatePage init_disk);
       b2 = snd (BPM_UnpinPage P True b1)
   in 0 \<notin> set (lru_list (replacer b2)) \<and> BPM_CheckAllUnpinned b2 \<and>
      BPM_NewPage disk_manager_iface b2 = Some (None, b2)"
proof -
  let ?b = "BufferPoolManager 1 init_disk :: disk_manager bpm"
  let ?P = "fst (Disk_AllocatePage init_disk)"
  define b1 where "b1 = snd (the (BPM_NewPage disk_manager_iface ?b))"
  have run: "BPM_NewPage disk_manager_iface ?b = Some (Some (?P, 0), b1)"
    unfolding b1_def
    by (simp add: BPM_NewPage_def BPM_find_frame_def BufferPoolManager_def disk_manager_iface_def
                  frame_at_def empty_frame_def split_def Let_def)
  have P: "?P \<noteq> INVALID_PAGE_ID"
    using Disk_AllocatePage_nonneg[OF init_disk_room] by (simp add: INVALID_PAGE_ID_def)
  have t: "page_table ?b ?P = None" by (simp add: BufferPoolManager_def)
  note U = BPM_NewPage_unpin_not_evictable [OF bpm_inv_init run P t, of True]
  have inv2: "bpm_inv (snd (BPM_UnpinPage ?P True b1))"
    using BPM_UnpinPage_inv[OF BPM_NewPage_inv[OF bpm_inv_init run P t]] .
  have b1: "free_list b1 = []" "pool_size b1 = 1" "lru_list (replacer b1) = []"
    unfolding b1_def
    by (simp_all add: BPM_NewPage_def BPM_find_frame_def BufferPoolManager_def disk_manager_iface_def
                      frame_at_def empty_frame_def split_def set_frame_def LRUReplacer_def Let_def)
  have e: "free_list (snd (BPM_UnpinPage ?P True b1)) = []"
          "lru_list (replacer (snd (BPM_UnpinPage ?P True b1))) = []"
    using b1 BPM_NewPage_frame[OF bpm_inv_init run P t] by (simp_all add: BPM_UnpinPage_def Let_def)
  have "\<forall>pg \<in> set (pages (snd (BPM_UnpinPage ?P True b1))). pin_count pg = 0"
  proof
    fix pg assume "pg \<in> set (pages (snd (BPM_UnpinPage ?P True b1)))"
    moreover have "length (pages (snd (BPM_UnpinPage ?P True b1))) = 1"
      using inv2 b1 by (simp add: bpm_inv_def BPM_UnpinPage_pool_size)
    ultimately have "pg = pages (snd (BPM_UnpinPage ?P True b1)) ! 0"
      by (auto simp: in_set_conv_nth)
    then show "pin_count pg = 0" using U by (simp add: frame_at_def)
  qed
  moreover have "BPM_NewPage disk_manager_iface (snd (BPM_UnpinPage ?P True b1)) =
                   Some (None, snd (BPM_UnpinPage ?P True b1))"
    using e by (simp add: BPM_NewPage_def BPM_find_frame_empty)
  ultimately show ?thesis using U unfolding Let_def b1_def[symmetric]
    by (simp add: BPM_CheckAllUnpinned_def)
qed

section \<open>DeletePage\<close>

text \<open>C14: DeletePage of an unpinned page puts the page id, not the frame id,
  on the free list (\<open>free_list_.emplace_back(iter->first)\<close>).  Whenever the two
  differ, the pool is left inconsistent: the frame is neither free nor mapped, so it
  is lost to the pool, and the free list holds an id that need not be a frame.\<close>

theorem BPM_DeletePage_loses_frame:
  assumes inv: "bpm_inv b" and map: "page_table b P = Some f"
    and pin: "pin_count (frame_at b f) = 0" and ne: "P \<noteq> f"
  shows "fst (BPM_DeletePage dk P b) \<and> \<not> bpm_inv (snd (BPM_DeletePage dk P b))"
proof -
  let ?b = "snd (BPM_DeletePage dk P b)"
  have fok: "frame_ok b f" using bpm_inv_table[OF inv map] by simp
  have nfree: "f \<notin> set (free_list b)" using bpm_inv_free_not_mapped[OF inv map] .
  have len: "length (pages b) = pool_size b" and inv0: "page_table b INVALID_PAGE_ID = None"
    using inv by (simp_all add: bpm_inv_def)
  have fl: "free_list ?b = free_list b @ [P]" and pt: "page_table ?b = (page_table b)(P := None)"
    and ps: "pool_size ?b = pool_size b"
    using map pin by (simp_all add: BPM_DeletePage_def)
  have pg: "page_id (pages ?b ! nat f) = INVALID_PAGE_ID"
    using map pin fok len by (simp add: BPM_DeletePage_def set_frame_def frame_ok_def)
  have "\<not> (int (nat f) \<in> set (free_list ?b) \<or>
            page_table ?b (page_id (pages ?b ! nat f)) = Some (int (nat f)))"
    using fok nfree ne fl pt pg inv0 by (simp add: frame_ok_def)
  moreover have "nat f < pool_size ?b" using fok ps by (simp add: frame_ok_def)
  ultimately have "\<not> bpm_inv ?b" unfolding bpm_inv_def by blast
  then show ?thesis using map pin by (simp add: BPM_DeletePage_def)
qed

text \<open>FetchPage 5 into frame 0 of a fresh pool, unpin it, delete it.\<close>

lemma BPM_DeletePage_loses_frame_witness:
  "\<not> bpm_inv (snd (BPM_DeletePage disk_manager_iface 5 (snd (BPM_UnpinPage 5 False
        (snd (the (BPM_FetchPage disk_manager_iface 5 (BufferPoolManager 2 init_disk))))))))"
proof -
  let ?b = "BufferPoolManager 2 init_disk :: disk_manager bpm"
  define b1 where "b1 = snd (the (BPM_FetchPage disk_manager_iface 5 ?b))"
  have run: "BPM_FetchPage disk_manager_iface 5 ?b = Some (Some 0, b1)"
    unfolding b1_def
    by (simp add: BPM_FetchPage_def BPM_find_frame_def BufferPoolManager_def disk_manager_iface_def
                  Disk_ReadPage_init BITMAP_SIZE_val frame_at_def empty_frame_def upt_rec INVALID_PAGE_ID_def)
  have inv1: "bpm_inv b1" using BPM_FetchPage_inv[OF bpm_inv_init run] .
  have m: "page_table b1 5 = Some 0" "pin_count (frame_at b1 0) = 1"
    using BPM_FetchPage_miss[OF bpm_inv_init _ _ run]
    by (simp_all add: BufferPoolManager_def INVALID_PAGE_ID_def)
  let ?b2 = "snd (BPM_UnpinPage 5 False b1)"
  have inv2: "bpm_inv ?b2" using BPM_UnpinPage_inv[OF inv1] .
  have m2: "page_table ?b2 5 = Some 0" "pin_count (frame_at ?b2 0) = 0"
    using m BPM_UnpinPage_evictable[OF inv1 m, of False]
    by (simp_all add: BPM_UnpinPage_def Let_def)
  show ?thesis using BPM_DeletePage_loses_frame[OF inv2 m2, of disk_manager_iface] unfolding b1_def
    by simp
qed

end
