(* ===== verification/BPlus_Leaf.thy ===== *)
theory BPlus_Leaf
  imports Prelude
begin

text \<open>
  The B+ tree leaf page of \<^verbatim>\<open>src/src/page/b_plus_tree_leaf_page.cpp\<close>.  The page
  header fields used by the leaf are a record; the array \<open>array_\<close> of
  \<open>(key, value)\<close> pairs is the list of its first \<open>GetSize()\<close> entries, so the
  size is the list's length.  Keys are of a linear order: the comparator
  \<open>comparator(a, b)\<close> is negative, zero or positive as \<open>a < b\<close>, \<open>a = b\<close>,
  \<open>a > b\<close>.  The loops are written as the code runs them: \<open>Insert\<close> scans from
  the end shifting larger entries right, \<open>RemoveAndDeleteRecord\<close> shifts every
  entry after the match one slot left by index.  Each is proved equal to the
  reference list operation (\<open>insort_key\<close>, \<open>map_of\<close>, \<open>filter\<close>).
\<close>

record ('k, 'v) leaf_page =
  lf_page_id :: page_id
  lf_parent_page_id :: page_id
  lf_max_size :: nat
  lf_next_page_id :: page_id
  lf_array :: "('k \<times> 'v) list"

text \<open>\<open>Init\<close> sets every field the leaf has, so the page it is applied to does
  not matter.\<close>

definition Leaf_Init :: "page_id \<Rightarrow> page_id \<Rightarrow> nat \<Rightarrow> ('k, 'v) leaf_page" where
  "Leaf_Init page_id parent_id max_size =
     \<lparr>lf_page_id = page_id, lf_parent_page_id = parent_id, lf_max_size = max_size,
      lf_next_page_id = INVALID_PAGE_ID, lf_array = []\<rparr>"

definition Leaf_GetSize :: "('k, 'v) leaf_page \<Rightarrow> nat" where
  "Leaf_GetSize l = length (lf_array l)"

fun key_index_from :: "'k::linorder \<Rightarrow> ('k \<times> 'v) list \<Rightarrow> nat" where
  "key_index_from key [] = 0"
| "key_index_from key (x # xs) = (if key \<le> fst x then 0 else Suc (key_index_from key xs))"

definition Leaf_KeyIndex :: "'k::linorder \<Rightarrow> ('k, 'v) leaf_page \<Rightarrow> nat" where
  "Leaf_KeyIndex key l = key_index_from key (lf_array l)"

definition Leaf_KeyAt :: "('k, 'v) leaf_page \<Rightarrow> nat \<Rightarrow> 'k" where
  "Leaf_KeyAt l index = fst (lf_array l ! index)"

definition Leaf_GetItem :: "('k, 'v) leaf_page \<Rightarrow> nat \<Rightarrow> 'k \<times> 'v" where
  "Leaf_GetItem l index = lf_array l ! index"

text \<open>\<open>Insert\<close>'s loop on the array read from the end (\<open>i = size - 1\<close> down to 0):
  an entry with a larger key moves one slot right, the first entry not larger
  gets the new pair after it, and if none is found the pair goes to slot 0.\<close>

fun leaf_insert_rev :: "'k::linorder \<Rightarrow> 'v \<Rightarrow> ('k \<times> 'v) list \<Rightarrow> ('k \<times> 'v) list" where
  "leaf_insert_rev key value [] = [(key, value)]"
| "leaf_insert_rev key value (x # xs) =
     (if key < fst x then x # leaf_insert_rev key value xs else (key, value) # x # xs)"

definition Leaf_Insert :: "'k::linorder \<Rightarrow> 'v \<Rightarrow> ('k, 'v) leaf_page \<Rightarrow> nat \<times> ('k, 'v) leaf_page" where
  "Leaf_Insert key value l =
     (let size = Leaf_GetSize l
      in (size + 1, l\<lparr>lf_array := rev (leaf_insert_rev key value (rev (lf_array l)))\<rparr>))"

definition Leaf_CopyNFrom :: "('k \<times> 'v) list \<Rightarrow> ('k, 'v) leaf_page \<Rightarrow> ('k, 'v) leaf_page" where
  "Leaf_CopyNFrom items l = l\<lparr>lf_array := items\<rparr>"

definition Leaf_MoveHalfTo ::
  "('k, 'v) leaf_page \<Rightarrow> ('k, 'v) leaf_page \<Rightarrow> ('k, 'v) leaf_page \<times> ('k, 'v) leaf_page" where
  "Leaf_MoveHalfTo l recipient =
     (let size = Leaf_GetSize l
      in (l\<lparr>lf_array := take (size - size div 2) (lf_array l)\<rparr>,
          Leaf_CopyNFrom (drop (size - size div 2) (lf_array l)) recipient))"

fun leaf_lookup_from :: "'k \<Rightarrow> ('k \<times> 'v) list \<Rightarrow> 'v option" where
  "leaf_lookup_from key [] = None"
| "leaf_lookup_from key (x # xs) = (if key = fst x then Some (snd x) else leaf_lookup_from key xs)"

definition Leaf_Lookup :: "'k \<Rightarrow> ('k, 'v) leaf_page \<Rightarrow> 'v option" where
  "Leaf_Lookup key l = leaf_lookup_from key (lf_array l)"

text \<open>\<open>RemoveAndDeleteRecord\<close>'s loop over \<open>i = 0 .. size - 1\<close>: a match sets
  the flag, an entry after a match is copied one slot left.\<close>

function leaf_remove_loop :: "'k \<Rightarrow> nat \<Rightarrow> bool \<Rightarrow> ('k \<times> 'v) list \<Rightarrow> bool \<times> ('k \<times> 'v) list" where
  "leaf_remove_loop key i flag arr =
     (if i < length arr then
        (if key = fst (arr ! i) then leaf_remove_loop key (i + 1) True arr
         else if flag then leaf_remove_loop key (i + 1) flag (arr[i - 1 := arr ! i])
         else leaf_remove_loop key (i + 1) flag arr)
      else (flag, arr))"
  by pat_completeness auto
termination
  by (relation "measure (\<lambda>(key, i, flag, arr). length arr - i)") auto

declare leaf_remove_loop.simps [simp del]

definition Leaf_RemoveAndDeleteRecord :: "'k \<Rightarrow> ('k, 'v) leaf_page \<Rightarrow> nat \<times> ('k, 'v) leaf_page" where
  "Leaf_RemoveAndDeleteRecord key l =
     (let size = Leaf_GetSize l;
          (flag, arr) = leaf_remove_loop key 0 False (lf_array l)
      in if flag then (size - 1, l\<lparr>lf_array := take (size - 1) arr\<rparr>)
         else (size, l\<lparr>lf_array := arr\<rparr>))"

definition Leaf_CopyLastFrom :: "'k \<times> 'v \<Rightarrow> ('k, 'v) leaf_page \<Rightarrow> ('k, 'v) leaf_page" where
  "Leaf_CopyLastFrom item l = l\<lparr>lf_array := lf_array l @ [item]\<rparr>"

definition Leaf_CopyFirstFrom :: "'k \<times> 'v \<Rightarrow> ('k, 'v) leaf_page \<Rightarrow> ('k, 'v) leaf_page" where
  "Leaf_CopyFirstFrom item l = l\<lparr>lf_array := item # lf_array l\<rparr>"

definition Leaf_MoveFirstToEndOf ::
  "('k, 'v) leaf_page \<Rightarrow> ('k, 'v) leaf_page \<Rightarrow> ('k, 'v) leaf_page \<times> ('k, 'v) leaf_page" where
  "Leaf_MoveFirstToEndOf l recipient =
     (l\<lparr>lf_array := tl (lf_array l)\<rparr>, Leaf_CopyLastFrom (hd (lf_array l)) recipient)"

definition Leaf_MoveLastToFrontOf ::
  "('k, 'v) leaf_page \<Rightarrow> ('k, 'v) leaf_page \<Rightarrow> ('k, 'v) leaf_page \<times> ('k, 'v) leaf_page" where
  "Leaf_MoveLastToFrontOf l recipient =
     (l\<lparr>lf_array := butlast (lf_array l)\<rparr>, Leaf_CopyFirstFrom (last (lf_array l)) recipient)"

text \<open>\<open>MoveAllTo\<close> repeats a single move \<open>size\<close> times, in the direction the
  sibling link gives; for pages that are not linked it changes nothing.\<close>

definition Leaf_MoveAllTo ::
  "('k, 'v) leaf_page \<Rightarrow> ('k, 'v) leaf_page \<Rightarrow> ('k, 'v) leaf_page \<times> ('k, 'v) leaf_page" where
  "Leaf_MoveAllTo l recipient =
     (let size = Leaf_GetSize l
      in if lf_next_page_id l = lf_page_id recipient then
           ((\<lambda>(a, b). Leaf_MoveLastToFrontOf a b) ^^ size) (l, recipient)
         else if lf_next_page_id recipient = lf_page_id l then
           ((\<lambda>(a, b). Leaf_MoveFirstToEndOf a b) ^^ size) (l, recipient)
         else (l, recipient))"

text \<open>The keys of a leaf are strictly increasing (spec invariant 4 within a node).\<close>

definition leaf_sorted :: "('k::linorder, 'v) leaf_page \<Rightarrow> bool" where
  "leaf_sorted l \<longleftrightarrow> sorted_wrt (<) (map fst (lf_array l))"

lemmas leaf_defs [model_simps] = Leaf_Init_def Leaf_GetSize_def Leaf_KeyIndex_def Leaf_KeyAt_def
  Leaf_GetItem_def Leaf_Insert_def Leaf_CopyNFrom_def Leaf_MoveHalfTo_def Leaf_Lookup_def
  Leaf_CopyLastFrom_def Leaf_CopyFirstFrom_def Leaf_MoveFirstToEndOf_def Leaf_MoveLastToFrontOf_def

section \<open>Insert\<close>

lemma leaf_insert_rev_split:
  "leaf_insert_rev key value ys =
     takeWhile (\<lambda>x. key < fst x) ys @ (key, value) # dropWhile (\<lambda>x. key < fst x) ys"
  by (induction ys) auto

lemma insort_key_snoc:
  "f a \<le> f x \<Longrightarrow> insort_key f a (ys @ [x]) = insort_key f a ys @ [x]"
  by (induction ys) auto

lemma insort_key_all_less:
  "\<forall>y \<in> set ys. f y < f a \<Longrightarrow> insort_key f a ys = ys @ [a]"
  by (induction ys) auto

lemma leaf_insert_rev_insort:
  assumes "sorted_wrt (<) (map fst xs)" and "key \<notin> fst ` set xs"
  shows "rev (leaf_insert_rev key value (rev xs)) = insort_key fst (key, value) xs"
  using assms
proof (induction xs rule: rev_induct)
  case Nil
  then show ?case by simp
next
  case (snoc x ys)
  have sy: "sorted_wrt (<) (map fst ys)" and lt: "\<forall>y \<in> set ys. fst y < fst x"
    using snoc.prems(1) by (simp_all add: sorted_wrt_append)
  show ?case
  proof (cases "key < fst x")
    case True
    then have "rev (leaf_insert_rev key value (rev (ys @ [x]))) =
               rev (leaf_insert_rev key value (rev ys)) @ [x]" by simp
    also have "\<dots> = insort_key fst (key, value) ys @ [x]"
      using snoc.IH sy snoc.prems(2) by simp
    finally show ?thesis using True by (simp add: insort_key_snoc)
  next
    case False
    then have "fst x < key" using snoc.prems(2) by (auto simp: not_less order.order_iff_strict)
    then have "\<forall>y \<in> set (ys @ [x]). fst y < key" using lt by auto
    then show ?thesis using False by (simp add: insort_key_all_less)
  qed
qed

lemma Leaf_Insert_size: "fst (Leaf_Insert key value l) = Leaf_GetSize l + 1"
  by (simp add: Leaf_Insert_def Let_def)

lemma Leaf_Insert_fields [simp]:
  "lf_page_id (snd (Leaf_Insert key value l)) = lf_page_id l"
  "lf_parent_page_id (snd (Leaf_Insert key value l)) = lf_parent_page_id l"
  "lf_next_page_id (snd (Leaf_Insert key value l)) = lf_next_page_id l"
  "lf_max_size (snd (Leaf_Insert key value l)) = lf_max_size l"
  by (simp_all add: Leaf_Insert_def Let_def)

lemma strict_sorted_insort_key:
  assumes "sorted_wrt (<) (map f xs)" and "f a \<notin> f ` set xs"
  shows "sorted_wrt (<) (map f (insort_key f a xs))"
proof -
  have "sorted (map f xs)" "distinct (map f xs)" using assms(1) by (simp_all add: strict_sorted_iff)
  then have "sorted (map f (insort_key f a xs))" "distinct (map f (insort_key f a xs))"
    using assms(2) by (simp_all add: sorted_insort_key distinct_insort_key)
  then show ?thesis by (simp add: strict_sorted_iff)
qed

section \<open>Lookup\<close>

lemma leaf_lookup_from_map_of: "leaf_lookup_from key xs = map_of xs key"
  by (induction xs) auto

lemma Leaf_Lookup_map_of: "Leaf_Lookup key l = map_of (lf_array l) key"
  by (simp add: Leaf_Lookup_def leaf_lookup_from_map_of)

lemma map_of_insort_key:
  "map_of (insort_key fst (k, v) xs) = (map_of xs)(k \<mapsto> v)" if "k \<notin> fst ` set xs"
  using that by (induction xs) (auto simp: fun_upd_twist)

section \<open>RemoveAndDeleteRecord\<close>

text \<open>After the match, each later entry is copied one slot left; the last slot
  keeps its old entry, which the size decrement drops.\<close>

lemma leaf_remove_loop_shift:
  "key \<notin> fst ` set (drop i arr) \<Longrightarrow> 0 < i \<Longrightarrow> i \<le> length arr \<Longrightarrow>
   leaf_remove_loop key i True arr = (True, take (i - 1) arr @ drop i arr @ [last arr])"
proof (induction "length arr - i" arbitrary: i arr)
  case 0
  then have i: "i = length arr" by simp
  have "arr \<noteq> []" using "0.prems"(2,3) by auto
  then have a: "take (length arr - 1) arr @ [last arr] = arr"
    by (metis append_butlast_last_id butlast_conv_take)
  have "leaf_remove_loop key i True arr = (True, arr)"
    using i by (subst leaf_remove_loop.simps) simp
  then show ?case using i a by simp
next
  case (Suc n)
  show ?case
  proof -
    have True: "i < length arr" using Suc.hyps(2) by simp
    have ne: "key \<noteq> fst (arr ! i)"
      using Suc.prems(1) Cons_nth_drop_Suc[OF True, symmetric] by force
    let ?arr' = "arr[i - 1 := arr ! i]"
    have "leaf_remove_loop key i True arr = leaf_remove_loop key (i + 1) True ?arr'"
      using True ne by (subst leaf_remove_loop.simps) simp
    also have "\<dots> = (True, take (i + 1 - 1) ?arr' @ drop (i + 1) ?arr' @ [last ?arr'])"
    proof (rule Suc.hyps(1))
      show "n = length ?arr' - (i + 1)" using Suc.hyps(2) by simp
      show "key \<notin> fst ` set (drop (i + 1) ?arr')"
        using Suc.prems(1) by (simp add: set_drop_subset[THEN subsetD] Cons_nth_drop_Suc[OF True, symmetric])
    qed (use True in simp_all)
    also have "take (i + 1 - 1) ?arr' @ drop (i + 1) ?arr' @ [last ?arr'] =
               take (i - 1) arr @ drop i arr @ [last arr]"
    proof -
      obtain j where j: "i = Suc j" using Suc.prems(2) by (cases i) auto
      have "take i ?arr' = take (i - 1) arr @ [arr ! i]"
        using True unfolding j by (simp add: take_update_swap take_Suc_conv_app_nth list_update_append)
      moreover have "drop (i + 1) ?arr' = drop (i + 1) arr" by simp
      moreover have "last ?arr' = last arr"
      proof -
        have "arr \<noteq> []" "i - 1 \<noteq> length arr - 1" using True Suc.prems(2) by auto
        then show ?thesis by (simp add: last_list_update)
      qed
      moreover have "arr ! i # drop (i + 1) arr = drop i arr" using True by (simp add: Cons_nth_drop_Suc)
      ultimately show ?thesis by simp
    qed
    finally show ?thesis .
  qed
qed

lemma leaf_remove_loop_skip:
  "(\<forall>m. i \<le> m \<and> m < j \<longrightarrow> key \<noteq> fst (arr ! m)) \<Longrightarrow> i \<le> j \<Longrightarrow> j \<le> length arr \<Longrightarrow>
   leaf_remove_loop key i False arr = leaf_remove_loop key j False arr"
proof (induction "j - i" arbitrary: i)
  case 0
  then show ?case by simp
next
  case (Suc n)
  then have "i < length arr" "key \<noteq> fst (arr ! i)" by auto
  then have "leaf_remove_loop key i False arr = leaf_remove_loop key (i + 1) False arr"
    by (subst leaf_remove_loop.simps) simp
  also have "\<dots> = leaf_remove_loop key j False arr" using Suc by simp
  finally show ?case .
qed

lemma leaf_remove_loop_found:
  assumes "arr = ys @ x # zs" and "fst x = key" and "key \<notin> fst ` set ys" and "key \<notin> fst ` set zs"
  shows "leaf_remove_loop key 0 False arr = (True, ys @ zs @ [last arr])"
proof -
  have "\<forall>m. 0 \<le> m \<and> m < length ys \<longrightarrow> key \<noteq> fst (arr ! m)"
    using assms(1,3) by (auto simp: nth_append)
  then have "leaf_remove_loop key 0 False arr = leaf_remove_loop key (length ys) False arr"
    using assms(1) by (intro leaf_remove_loop_skip) auto
  also have "\<dots> = leaf_remove_loop key (length ys + 1) True arr"
    using assms(1,2) by (subst leaf_remove_loop.simps) simp
  also have "\<dots> = (True, take (length ys) arr @ drop (length ys + 1) arr @ [last arr])"
    using assms(1,4) by (subst leaf_remove_loop_shift) auto
  finally show ?thesis using assms(1) by simp
qed

lemma leaf_remove_loop_absent:
  "key \<notin> fst ` set arr \<Longrightarrow> leaf_remove_loop key 0 False arr = (False, arr)"
proof -
  assume a: "key \<notin> fst ` set arr"
  then have "leaf_remove_loop key 0 False arr = leaf_remove_loop key (length arr) False arr"
    by (intro leaf_remove_loop_skip) (force dest: nth_mem)+
  also have "\<dots> = (False, arr)" by (subst leaf_remove_loop.simps) simp
  finally show ?thesis .
qed

lemma Leaf_RemoveAndDeleteRecord_filter:
  assumes "distinct (map fst (lf_array l))"
  shows "lf_array (snd (Leaf_RemoveAndDeleteRecord key l)) = filter (\<lambda>x. fst x \<noteq> key) (lf_array l) \<and>
         fst (Leaf_RemoveAndDeleteRecord key l) = length (filter (\<lambda>x. fst x \<noteq> key) (lf_array l))"
proof (cases "key \<in> fst ` set (lf_array l)")
  case True
  then obtain ys x zs where arr: "lf_array l = ys @ x # zs" and k: "fst x = key"
    by (auto simp: in_set_conv_decomp)
  have nys: "key \<notin> fst ` set ys" and nzs: "key \<notin> fst ` set zs"
    using assms arr k by auto
  have "filter (\<lambda>x. fst x \<noteq> key) ys = ys" "filter (\<lambda>x. fst x \<noteq> key) zs = zs"
    using nys nzs by (force simp: filter_id_conv)+
  then have f: "filter (\<lambda>x. fst x \<noteq> key) (lf_array l) = ys @ zs" using arr k by simp
  show ?thesis
    using leaf_remove_loop_found[OF arr k nys nzs] f arr
    by (simp add: Leaf_RemoveAndDeleteRecord_def Leaf_GetSize_def)
next
  case False
  then have "filter (\<lambda>x. fst x \<noteq> key) (lf_array l) = lf_array l" by (force simp: filter_id_conv)
  then show ?thesis using leaf_remove_loop_absent[OF False]
    by (simp add: Leaf_RemoveAndDeleteRecord_def Leaf_GetSize_def)
qed

section \<open>MoveAllTo\<close>

lemma funpow_MoveLastToFrontOf:
  "n \<le> length (lf_array l) \<Longrightarrow>
   ((\<lambda>(a, b). Leaf_MoveLastToFrontOf a b) ^^ n) (l, r) =
     (l\<lparr>lf_array := take (length (lf_array l) - n) (lf_array l)\<rparr>,
      r\<lparr>lf_array := drop (length (lf_array l) - n) (lf_array l) @ lf_array r\<rparr>)"
proof (induction n)
  case 0
  then show ?case by simp
next
  case (Suc n)
  let ?m = "length (lf_array l) - Suc n"
  have m: "length (lf_array l) - n = Suc ?m" using Suc.prems by simp
  have "last (take (Suc ?m) (lf_array l)) = lf_array l ! ?m"
    using Suc.prems by (subst last_conv_nth) auto
  moreover have "drop ?m (lf_array l) = lf_array l ! ?m # drop (Suc ?m) (lf_array l)"
    using Suc.prems by (simp add: Cons_nth_drop_Suc)
  ultimately show ?case using Suc
    by (simp add: m Leaf_MoveLastToFrontOf_def Leaf_CopyFirstFrom_def butlast_take)
qed

lemma funpow_MoveFirstToEndOf:
  "n \<le> length (lf_array l) \<Longrightarrow>
   ((\<lambda>(a, b). Leaf_MoveFirstToEndOf a b) ^^ n) (l, r) =
     (l\<lparr>lf_array := drop n (lf_array l)\<rparr>, r\<lparr>lf_array := lf_array r @ take n (lf_array l)\<rparr>)"
proof (induction n)
  case 0
  then show ?case by simp
next
  case (Suc n)
  then have "hd (drop n (lf_array l)) = lf_array l ! n" by (simp add: hd_drop_conv_nth)
  with Suc show ?case
    by (simp add: Leaf_MoveFirstToEndOf_def Leaf_CopyLastFrom_def tl_drop drop_Suc take_Suc_conv_app_nth)
qed

lemma Leaf_MoveAllTo_next:
  "lf_next_page_id l = lf_page_id recipient \<Longrightarrow>
   Leaf_MoveAllTo l recipient = (l\<lparr>lf_array := []\<rparr>, recipient\<lparr>lf_array := lf_array l @ lf_array recipient\<rparr>)"
  using funpow_MoveLastToFrontOf[of "length (lf_array l)" l recipient]
  by (simp add: Leaf_MoveAllTo_def Leaf_GetSize_def)

lemma Leaf_MoveAllTo_prev:
  "lf_next_page_id l \<noteq> lf_page_id recipient \<Longrightarrow> lf_next_page_id recipient = lf_page_id l \<Longrightarrow>
   Leaf_MoveAllTo l recipient = (l\<lparr>lf_array := []\<rparr>, recipient\<lparr>lf_array := lf_array recipient @ lf_array l\<rparr>)"
  using funpow_MoveFirstToEndOf[of "length (lf_array l)" l recipient]
  by (simp add: Leaf_MoveAllTo_def Leaf_GetSize_def)

lemma map_of_filter_key: "map_of (filter (\<lambda>x. fst x \<noteq> key) xs) = (map_of xs)(key := None)"
  by (induction xs) (auto simp: fun_upd_twist)

section \<open>Properties of the leaf page\<close>

text \<open>C15: Insert of a key not in a sorted leaf is the sorted insertion
  \<open>insort_key\<close>: the backward shifting loop places the pair after every smaller
  key.  The leaf stays strictly sorted, its size grows by one, and Lookup then
  finds the new value and every old one.\<close>

theorem Leaf_Insert_sorted:
  assumes "leaf_sorted l" and "key \<notin> fst ` set (lf_array l)"
  shows "lf_array (snd (Leaf_Insert key value l)) = insort_key fst (key, value) (lf_array l) \<and>
         leaf_sorted (snd (Leaf_Insert key value l)) \<and>
         fst (Leaf_Insert key value l) = Leaf_GetSize (snd (Leaf_Insert key value l)) \<and>
         Leaf_Lookup k (snd (Leaf_Insert key value l)) = ((map_of (lf_array l))(key \<mapsto> value)) k"
proof -
  have arr: "lf_array (snd (Leaf_Insert key value l)) = insort_key fst (key, value) (lf_array l)"
    using leaf_insert_rev_insort[of "lf_array l" key "value"] assms
    by (simp add: Leaf_Insert_def Let_def leaf_sorted_def)
  moreover have "leaf_sorted (snd (Leaf_Insert key value l))"
    using strict_sorted_insort_key[of fst "lf_array l" "(key, value)"] assms arr
    by (simp add: leaf_sorted_def)
  moreover have "fst (Leaf_Insert key value l) = Leaf_GetSize (snd (Leaf_Insert key value l))"
    using arr by (simp add: Leaf_Insert_size Leaf_GetSize_def length_insort)
  ultimately show ?thesis
    using map_of_insort_key[OF assms(2)] by (simp add: Leaf_Lookup_map_of)
qed

lemma Leaf_Insert_sorted_witness:
  "lf_array (snd (Leaf_Insert (2::int) (20::int)
      \<lparr>lf_page_id = 1, lf_parent_page_id = -1, lf_max_size = 4, lf_next_page_id = -1,
       lf_array = [(1, 10), (3, 30)]\<rparr>)) = [(1, 10), (2, 20), (3, 30)]"
proof -
  let ?l = "\<lparr>lf_page_id = 1, lf_parent_page_id = -1, lf_max_size = 4, lf_next_page_id = -1,
             lf_array = [(1::int, 10::int), (3, 30)]\<rparr>"
  have "leaf_sorted ?l" "(2::int) \<notin> fst ` set (lf_array ?l)" by (simp_all add: leaf_sorted_def)
  then show ?thesis using Leaf_Insert_sorted[of ?l 2 20] by simp
qed

text \<open>RemoveAndDeleteRecord on a sorted leaf is filtering the key out: the
  index loop that copies every later entry one slot left and the size decrement
  leave exactly the other entries, in order.  The returned size is the new size,
  the leaf stays sorted, and Lookup then misses the key and finds every other.\<close>

theorem Leaf_RemoveAndDeleteRecord_correct:
  assumes "leaf_sorted l"
  shows "lf_array (snd (Leaf_RemoveAndDeleteRecord key l)) = filter (\<lambda>x. fst x \<noteq> key) (lf_array l) \<and>
         fst (Leaf_RemoveAndDeleteRecord key l) = Leaf_GetSize (snd (Leaf_RemoveAndDeleteRecord key l)) \<and>
         leaf_sorted (snd (Leaf_RemoveAndDeleteRecord key l)) \<and>
         Leaf_Lookup k (snd (Leaf_RemoveAndDeleteRecord key l)) = ((map_of (lf_array l))(key := None)) k"
proof -
  have d: "distinct (map fst (lf_array l))" using assms by (simp add: leaf_sorted_def strict_sorted_iff)
  note F = Leaf_RemoveAndDeleteRecord_filter[OF d, of key]
  have "sorted_wrt (<) (map fst (filter (\<lambda>x. fst x \<noteq> key) (lf_array l)))"
    using assms by (simp add: leaf_sorted_def sorted_wrt_map sorted_wrt_filter)
  moreover have "map_of (filter (\<lambda>x. fst x \<noteq> key) (lf_array l)) k = ((map_of (lf_array l))(key := None)) k"
    by (simp add: map_of_filter_key)
  ultimately show ?thesis using F by (simp add: leaf_sorted_def Leaf_GetSize_def Leaf_Lookup_map_of)
qed

lemma Leaf_RemoveAndDeleteRecord_correct_witness:
  "lf_array (snd (Leaf_RemoveAndDeleteRecord (2::int)
      \<lparr>lf_page_id = 1, lf_parent_page_id = -1, lf_max_size = 4, lf_next_page_id = -1,
       lf_array = [(1, 10::int), (2, 20), (3, 30)]\<rparr>)) = [(1, 10), (3, 30)]"
  using Leaf_RemoveAndDeleteRecord_correct[of
      "\<lparr>lf_page_id = 1, lf_parent_page_id = -1, lf_max_size = 4, lf_next_page_id = -1,
        lf_array = [(1::int, 10::int), (2, 20), (3, 30)]\<rparr>" 2]
  by (simp add: leaf_sorted_def)

text \<open>MoveAllTo empties the page into its linked sibling: into the next leaf
  the entries go in front, into the previous leaf (the coalesce case, the page
  following the recipient) they go at the end, order kept both ways.\<close>

theorem Leaf_MoveAllTo_concat:
  "(lf_next_page_id l = lf_page_id recipient \<longrightarrow>
      Leaf_MoveAllTo l recipient = (l\<lparr>lf_array := []\<rparr>, recipient\<lparr>lf_array := lf_array l @ lf_array recipient\<rparr>)) \<and>
   (lf_next_page_id l \<noteq> lf_page_id recipient \<and> lf_next_page_id recipient = lf_page_id l \<longrightarrow>
      Leaf_MoveAllTo l recipient = (l\<lparr>lf_array := []\<rparr>, recipient\<lparr>lf_array := lf_array recipient @ lf_array l\<rparr>))"
  using Leaf_MoveAllTo_next[of l recipient] Leaf_MoveAllTo_prev[of l recipient] by blast

lemma Leaf_MoveAllTo_concat_witness:
  "Leaf_MoveAllTo
      \<lparr>lf_page_id = 7, lf_parent_page_id = 3, lf_max_size = 4, lf_next_page_id = -1,
       lf_array = [(5::int, 50::int), (6, 60)]\<rparr>
      \<lparr>lf_page_id = 4, lf_parent_page_id = 3, lf_max_size = 4, lf_next_page_id = 7,
       lf_array = [(1, 10)]\<rparr>
   = (\<lparr>lf_page_id = 7, lf_parent_page_id = 3, lf_max_size = 4, lf_next_page_id = -1, lf_array = []\<rparr>,
      \<lparr>lf_page_id = 4, lf_parent_page_id = 3, lf_max_size = 4, lf_next_page_id = 7,
       lf_array = [(1, 10), (5, 50), (6, 60)]\<rparr>)"
  using Leaf_MoveAllTo_concat[of
      "\<lparr>lf_page_id = 7, lf_parent_page_id = 3, lf_max_size = 4, lf_next_page_id = -1,
        lf_array = [(5::int, 50::int), (6, 60)]\<rparr>"
      "\<lparr>lf_page_id = 4, lf_parent_page_id = 3, lf_max_size = 4, lf_next_page_id = 7,
        lf_array = [(1, 10)]\<rparr>"]
  by simp

end
