(* ===== verification/BPlus_Internal.thy ===== *)
theory BPlus_Internal
  imports BPlus_Leaf
begin

text \<open>
  The B+ tree internal page of \<^verbatim>\<open>src/src/page/b_plus_tree_internal_page.cpp\<close>,
  and the page store the tree works on.  An internal page's array of
  \<open>(key, child page id)\<close> pairs is the list of its first \<open>GetSize()\<close> entries;
  entry 0's key is the sentinel the lookup ignores.  The tree reads and writes
  its pages through the buffer pool as B+ tree nodes (\<open>reinterpret_cast\<close> of the
  page data); the model keeps those logical contents as a store from page ids to
  nodes, a leaf or an internal page.  A page the pool cannot fetch is one missing
  from the store.  The methods that fetch children to reset their parent
  (\<open>CopyNFrom\<close>, \<open>CopyLastFrom\<close>, \<open>CopyFirstFrom\<close>) and the ones that fetch the
  recipient (\<open>MoveFirstToEndOf\<close>, \<open>MoveLastToFrontOf\<close>) act on the store.  A
  negative index given to \<open>Remove\<close> writes before the array (undefined
  behaviour) and is \<open>None\<close>; so is a page id naming no internal page.
\<close>

record 'k internal_page =
  ip_page_id :: page_id
  ip_parent_page_id :: page_id
  ip_max_size :: nat
  ip_array :: "('k \<times> page_id) list"

datatype ('k, 'v) bt_node = LeafNode "('k, 'v) leaf_page" | InternalNode "'k internal_page"

type_synonym ('k, 'v) page_store = "page_id \<rightharpoonup> ('k, 'v) bt_node"

definition Int_Init :: "page_id \<Rightarrow> page_id \<Rightarrow> nat \<Rightarrow> 'k internal_page" where
  "Int_Init page_id parent_id max_size =
     \<lparr>ip_page_id = page_id, ip_parent_page_id = parent_id, ip_max_size = max_size, ip_array = []\<rparr>"

definition Int_GetSize :: "'k internal_page \<Rightarrow> nat" where
  "Int_GetSize n = length (ip_array n)"

definition Int_KeyAt :: "'k internal_page \<Rightarrow> nat \<Rightarrow> 'k" where
  "Int_KeyAt n index = fst (ip_array n ! index)"

definition Int_SetKeyAt :: "nat \<Rightarrow> 'k \<Rightarrow> 'k internal_page \<Rightarrow> 'k internal_page" where
  "Int_SetKeyAt index key n = n\<lparr>ip_array := (ip_array n)[index := (key, snd (ip_array n ! index))]\<rparr>"

definition Int_ValueAt :: "'k internal_page \<Rightarrow> nat \<Rightarrow> page_id" where
  "Int_ValueAt n index = snd (ip_array n ! index)"

function value_index_loop :: "page_id \<Rightarrow> ('k \<times> page_id) list \<Rightarrow> nat \<Rightarrow> int" where
  "value_index_loop value xs i =
     (if i < length xs then (if snd (xs ! i) = value then int i else value_index_loop value xs (i + 1))
      else -1)"
  by pat_completeness auto
termination
  by (relation "measure (\<lambda>(value, xs, i). length xs - i)") auto

definition Int_ValueIndex :: "'k internal_page \<Rightarrow> page_id \<Rightarrow> int" where
  "Int_ValueIndex n value = value_index_loop value (ip_array n) 0"

text \<open>\<open>Lookup\<close>: the first \<open>i \<ge> 1\<close> with \<open>key < KeyAt(i)\<close> gives child \<open>i - 1\<close>,
  else the last child.\<close>

function int_lookup_loop :: "'k::linorder \<Rightarrow> ('k \<times> page_id) list \<Rightarrow> nat \<Rightarrow> page_id" where
  "int_lookup_loop key xs i =
     (if i < length xs then (if key < fst (xs ! i) then snd (xs ! (i - 1)) else int_lookup_loop key xs (i + 1))
      else snd (xs ! (length xs - 1)))"
  by pat_completeness auto
termination
  by (relation "measure (\<lambda>(key, xs, i). length xs - i)") auto

definition Int_Lookup :: "'k::linorder \<Rightarrow> 'k internal_page \<Rightarrow> page_id" where
  "Int_Lookup key n = int_lookup_loop key (ip_array n) 1"

text \<open>The new root comes from a zeroed page just initialised: its slot-0 key is
  whatever those bytes read as, an unspecified key.\<close>

definition Int_PopulateNewRoot :: "page_id \<Rightarrow> 'k \<Rightarrow> page_id \<Rightarrow> 'k internal_page \<Rightarrow> 'k internal_page" where
  "Int_PopulateNewRoot old_value new_key new_value n =
     n\<lparr>ip_array := [(undefined, old_value), (new_key, new_value)], ip_parent_page_id := INVALID_PAGE_ID\<rparr>"

text \<open>\<open>InsertNodeAfter\<close>'s loop from the end: entries after \<open>old_value\<close> move one
  slot right and the new pair goes right after it.  If \<open>old_value\<close> is absent
  every entry moves and slot 0 keeps its old entry.\<close>

fun int_insert_after_rev ::
  "page_id \<Rightarrow> 'k \<Rightarrow> page_id \<Rightarrow> 'k \<times> page_id \<Rightarrow> ('k \<times> page_id) list \<Rightarrow> ('k \<times> page_id) list" where
  "int_insert_after_rev old_value new_key new_value first [] = [first]"
| "int_insert_after_rev old_value new_key new_value first (x # xs) =
     (if snd x \<noteq> old_value then x # int_insert_after_rev old_value new_key new_value first xs
      else (new_key, new_value) # x # xs)"

definition Int_InsertNodeAfter ::
  "page_id \<Rightarrow> 'k \<Rightarrow> page_id \<Rightarrow> 'k internal_page \<Rightarrow> nat \<times> 'k internal_page" where
  "Int_InsertNodeAfter old_value new_key new_value n =
     (Int_GetSize n + 1,
      n\<lparr>ip_array := rev (int_insert_after_rev old_value new_key new_value (hd (ip_array n))
                                               (rev (ip_array n)))\<rparr>)"

function int_remove_loop :: "nat \<Rightarrow> ('k \<times> page_id) list \<Rightarrow> ('k \<times> page_id) list" where
  "int_remove_loop i xs = (if i + 1 < length xs then int_remove_loop (i + 1) (xs[i := xs ! (i + 1)]) else xs)"
  by pat_completeness auto
termination
  by (relation "measure (\<lambda>(i, xs). length xs - i)") auto

definition Int_Remove :: "int \<Rightarrow> 'k internal_page \<Rightarrow> 'k internal_page option" where
  "Int_Remove index n =
     (if index < 0 then None
      else Some (n\<lparr>ip_array := take (Int_GetSize n - 1) (int_remove_loop (nat index) (ip_array n))\<rparr>))"

definition Int_RemoveAndReturnOnlyChild :: "'k internal_page \<Rightarrow> page_id \<times> 'k internal_page" where
  "Int_RemoveAndReturnOnlyChild n =
     (snd (ip_array n ! 0), n\<lparr>ip_array := take (Int_GetSize n - 1) (ip_array n)\<rparr>)"

section \<open>Pages in the store\<close>

definition get_internal :: "('k, 'v) page_store \<Rightarrow> page_id \<Rightarrow> 'k internal_page option" where
  "get_internal st pid = (case st pid of Some (InternalNode n) \<Rightarrow> Some n | _ \<Rightarrow> None)"

definition get_leaf :: "('k, 'v) page_store \<Rightarrow> page_id \<Rightarrow> ('k, 'v) leaf_page option" where
  "get_leaf st pid = (case st pid of Some (LeafNode l) \<Rightarrow> Some l | _ \<Rightarrow> None)"

text \<open>\<open>child_node->SetParentPageId(p)\<close> on a fetched child, of either kind; a child
  the pool cannot fetch is skipped, as the code does.\<close>

definition set_parent :: "page_id \<Rightarrow> page_id \<Rightarrow> ('k, 'v) page_store \<Rightarrow> ('k, 'v) page_store" where
  "set_parent child parent st =
     (case st child of
        Some (LeafNode l) \<Rightarrow> st(child \<mapsto> LeafNode (l\<lparr>lf_parent_page_id := parent\<rparr>))
      | Some (InternalNode n) \<Rightarrow> st(child \<mapsto> InternalNode (n\<lparr>ip_parent_page_id := parent\<rparr>))
      | None \<Rightarrow> st)"

definition Int_CopyNFrom ::
  "('k \<times> page_id) list \<Rightarrow> page_id \<Rightarrow> ('k, 'v) page_store \<Rightarrow> ('k, 'v) page_store option" where
  "Int_CopyNFrom items pid st =
     (case get_internal st pid of
        None \<Rightarrow> None
      | Some n \<Rightarrow> Some (fold (\<lambda>item. set_parent (snd item) (ip_page_id n)) items
                         (st(pid \<mapsto> InternalNode (n\<lparr>ip_array := items\<rparr>)))))"

definition Int_MoveHalfTo :: "page_id \<Rightarrow> page_id \<Rightarrow> ('k, 'v) page_store \<Rightarrow> ('k, 'v) page_store option" where
  "Int_MoveHalfTo pid recipient st =
     (case get_internal st pid of
        None \<Rightarrow> None
      | Some n \<Rightarrow>
          (let size = Int_GetSize n in
           case Int_CopyNFrom (drop (size - size div 2) (ip_array n)) recipient st of
             None \<Rightarrow> None
           | Some st1 \<Rightarrow>
               (case get_internal st1 pid of
                  None \<Rightarrow> None
                | Some n1 \<Rightarrow> Some (st1(pid \<mapsto> InternalNode (n1\<lparr>ip_array := take (size - size div 2) (ip_array n1)\<rparr>))))))"

definition Int_CopyLastFrom :: "'k \<times> page_id \<Rightarrow> page_id \<Rightarrow> ('k, 'v) page_store \<Rightarrow> ('k, 'v) page_store option" where
  "Int_CopyLastFrom pair pid st =
     (case get_internal st pid of
        None \<Rightarrow> None
      | Some n \<Rightarrow> Some (set_parent (snd pair) (ip_page_id n)
                         (st(pid \<mapsto> InternalNode (n\<lparr>ip_array := ip_array n @ [pair]\<rparr>)))))"

definition Int_CopyFirstFrom :: "'k \<times> page_id \<Rightarrow> page_id \<Rightarrow> ('k, 'v) page_store \<Rightarrow> ('k, 'v) page_store option" where
  "Int_CopyFirstFrom pair pid st =
     (case get_internal st pid of
        None \<Rightarrow> None
      | Some n \<Rightarrow> Some (set_parent (snd pair) (ip_page_id n)
                         (st(pid \<mapsto> InternalNode (n\<lparr>ip_array := pair # ip_array n\<rparr>)))))"

text \<open>The recipient is fetched anew through the pool; if it cannot be fetched the
  method returns at once.\<close>

definition Int_MoveFirstToEndOf ::
  "page_id \<Rightarrow> page_id \<Rightarrow> 'k \<Rightarrow> ('k, 'v) page_store \<Rightarrow> ('k, 'v) page_store option" where
  "Int_MoveFirstToEndOf pid recipient middle_key st =
     (if st recipient = None then Some st
      else case get_internal st pid of
        None \<Rightarrow> None
      | Some n \<Rightarrow>
          (case Int_CopyLastFrom (middle_key, snd (ip_array n ! 0)) recipient st of
             None \<Rightarrow> None
           | Some st1 \<Rightarrow>
               (case get_internal st1 pid of
                  None \<Rightarrow> None
                | Some n1 \<Rightarrow> Some (st1(pid \<mapsto> InternalNode (n1\<lparr>ip_array := tl (ip_array n1)\<rparr>))))))"

definition Int_MoveLastToFrontOf ::
  "page_id \<Rightarrow> page_id \<Rightarrow> 'k \<Rightarrow> ('k, 'v) page_store \<Rightarrow> ('k, 'v) page_store option" where
  "Int_MoveLastToFrontOf pid recipient middle_key st =
     (if st recipient = None then Some st
      else case get_internal st pid of
        None \<Rightarrow> None
      | Some n \<Rightarrow>
          (case Int_CopyFirstFrom (last (ip_array n)) recipient st of
             None \<Rightarrow> None
           | Some st1 \<Rightarrow>
               (case (get_internal st1 recipient, get_internal st1 pid) of
                  (Some r1, Some _) \<Rightarrow>
                    (let st2 = st1(recipient \<mapsto> InternalNode (Int_SetKeyAt 1 middle_key r1))
                     in case get_internal st2 pid of
                          None \<Rightarrow> None
                        | Some n2 \<Rightarrow> Some (st2(pid \<mapsto> InternalNode (n2\<lparr>ip_array := butlast (ip_array n2)\<rparr>))))
                | _ \<Rightarrow> None)))"

text \<open>\<open>MoveAllTo\<close>: \<open>size\<close> moves of the first entry, the first with the parent's
  middle key and each later one with the key then at slot 0 (the counter is the
  number of moves left, so \<open>i < size - 1\<close> is \<open>1 < m\<close>).\<close>

fun int_move_all_loop ::
  "nat \<Rightarrow> page_id \<Rightarrow> page_id \<Rightarrow> 'k \<Rightarrow> ('k, 'v) page_store \<Rightarrow> ('k, 'v) page_store option" where
  "int_move_all_loop 0 pid recipient cur_midkey st = Some st"
| "int_move_all_loop (Suc m) pid recipient cur_midkey st =
     (case Int_MoveFirstToEndOf pid recipient cur_midkey st of
        None \<Rightarrow> None
      | Some st1 \<Rightarrow>
          (if 1 < Suc m then
             (case get_internal st1 pid of
                None \<Rightarrow> None
              | Some n1 \<Rightarrow> int_move_all_loop m pid recipient (Int_KeyAt n1 0) st1)
           else Some st1))"

definition Int_MoveAllTo :: "page_id \<Rightarrow> page_id \<Rightarrow> 'k \<Rightarrow> ('k, 'v) page_store \<Rightarrow> ('k, 'v) page_store option" where
  "Int_MoveAllTo pid recipient middle_key st =
     (case get_internal st pid of
        None \<Rightarrow> None
      | Some n \<Rightarrow> int_move_all_loop (Int_GetSize n) pid recipient middle_key st)"

declare value_index_loop.simps [simp del] int_lookup_loop.simps [simp del] int_remove_loop.simps [simp del]

section \<open>Lookup and ValueIndex\<close>

lemma int_lookup_loop_takeWhile:
  "0 < i \<Longrightarrow> i \<le> length xs \<Longrightarrow>
   int_lookup_loop key xs i = snd (xs ! (i - 1 + length (takeWhile (\<lambda>x. fst x \<le> key) (drop i xs))))"
proof (induction "length xs - i" arbitrary: i)
  case 0
  then show ?case by (subst int_lookup_loop.simps) simp
next
  case (Suc m)
  then have i: "i < length xs" by simp
  have d: "drop i xs = xs ! i # drop (Suc i) xs" using i by (simp add: Cons_nth_drop_Suc)
  show ?case
  proof (cases "key < fst (xs ! i)")
    case True
    then have "\<not> fst (xs ! i) \<le> key" by simp
    then show ?thesis using True i d by (subst int_lookup_loop.simps) simp
  next
    case False
    then have "int_lookup_loop key xs i = int_lookup_loop key xs (i + 1)"
      using i by (subst int_lookup_loop.simps) simp
    also have "\<dots> = snd (xs ! (i + length (takeWhile (\<lambda>x. fst x \<le> key) (drop (Suc i) xs))))"
      using Suc.hyps(1)[of "i + 1"] Suc.hyps(2) Suc.prems i by simp
    moreover have "fst (xs ! i) \<le> key" using False by simp
    ultimately show ?thesis using d Suc.prems(1) by simp
  qed
qed

text \<open>Lookup returns the child after as many separators as are at most the key.\<close>

lemma Int_Lookup_takeWhile:
  "ip_array n \<noteq> [] \<Longrightarrow>
   Int_Lookup key n = snd (ip_array n ! length (takeWhile (\<lambda>x. fst x \<le> key) (tl (ip_array n))))"
  using int_lookup_loop_takeWhile[of 1 "ip_array n" key]
  by (cases "ip_array n") (simp_all add: Int_Lookup_def)

lemma value_index_loop_first:
  "i \<le> length xs \<Longrightarrow>
   value_index_loop value xs i =
     (if value \<in> snd ` set (drop i xs) then int (i + length (takeWhile (\<lambda>x. snd x \<noteq> value) (drop i xs)))
      else -1)"
proof (induction "length xs - i" arbitrary: i)
  case 0
  then show ?case by (subst value_index_loop.simps) simp
next
  case (Suc m)
  then have i: "i < length xs" by simp
  have d: "drop i xs = xs ! i # drop (Suc i) xs" using i by (simp add: Cons_nth_drop_Suc)
  show ?case
  proof (cases "snd (xs ! i) = value")
    case True
    then show ?thesis using i d by (subst value_index_loop.simps) force
  next
    case False
    then have "value_index_loop value xs i = value_index_loop value xs (i + 1)"
      using i by (subst value_index_loop.simps) simp
    then show ?thesis using Suc.hyps(1)[of "i + 1"] Suc.hyps(2) Suc.prems i False d by auto
  qed
qed

lemma takeWhile_distinct_nth:
  "distinct (map f xs) \<Longrightarrow> j < length xs \<Longrightarrow> length (takeWhile (\<lambda>x. f x \<noteq> f (xs ! j)) xs) = j"
proof (induction xs arbitrary: j)
  case Nil
  then show ?case by simp
next
  case (Cons x xs)
  then show ?case
    by (cases j) (auto simp: nth_mem image_iff dest: nth_mem)
qed

text \<open>ValueIndex finds the position of a child among distinct children.\<close>

lemma Int_ValueIndex_nth:
  "distinct (map snd (ip_array n)) \<Longrightarrow> j < length (ip_array n) \<Longrightarrow>
   Int_ValueIndex n (snd (ip_array n ! j)) = int j"
  using value_index_loop_first[of 0 "ip_array n" "snd (ip_array n ! j)"]
        takeWhile_distinct_nth[of snd "ip_array n" j]
  by (simp add: Int_ValueIndex_def image_iff) (metis nth_mem)


lemma Int_ValueIndex_takeWhile:
  "Int_ValueIndex n v =
     (if v \<in> snd ` set (ip_array n) then int (length (takeWhile (\<lambda>x. snd x \<noteq> v) (ip_array n))) else -1)"
  using value_index_loop_first[of 0 "ip_array n" v] by (simp add: Int_ValueIndex_def)

end
