(* ===== verification/BPlus_Tree.thy ===== *)
theory BPlus_Tree
  imports BPlus_Internal
begin

text \<open>
  The B+ tree of \<^verbatim>\<open>src/src/index/b_plus_tree.cpp\<close> over the page store of
  theory BPlus_Internal.  The tree object's fields are a record, with the
  store, the index roots page (a map from index id to root page id) and the next
  page id the pool hands out.  \<open>NewPage\<close> hands out a page id not in the store;
  the pool's \<open>nullptr\<close> on exhaustion is not modelled (the store is unbounded),
  while a page missing from the store is a failed \<open>FetchPage\<close>.  Pin and unpin
  calls do not change logical contents and are left out.  Each loop over pages
  (the descent of GetValue and InsertIntoLeaf, the ascent that inserts
  separators) is a \<open>partial_function (option)\<close>: on a store whose parent or child
  links cycle it does not return, which is the value \<open>None\<close>.  The index roots
  page's \<open>Insert\<close>/\<open>Update\<close>/\<open>Delete\<close> (\<^verbatim>\<open>index_roots_page.cpp\<close>, not under src)
  follow the spec.
\<close>

record ('k, 'v) bplus_tree =
  index_id :: nat
  root_page_id :: page_id
  leaf_max_size :: nat
  internal_max_size :: nat
  bt_store :: "('k, 'v) page_store"
  index_roots :: "nat \<rightharpoonup> page_id"
  bt_next_page_id :: page_id

definition bt_new_page :: "('k, 'v) bplus_tree \<Rightarrow> page_id \<times> ('k, 'v) bplus_tree" where
  "bt_new_page t = (bt_next_page_id t, t\<lparr>bt_next_page_id := bt_next_page_id t + 1\<rparr>)"

definition bt_put :: "page_id \<Rightarrow> ('k, 'v) bt_node \<Rightarrow> ('k, 'v) bplus_tree \<Rightarrow> ('k, 'v) bplus_tree" where
  "bt_put pid node t = t\<lparr>bt_store := (bt_store t)(pid \<mapsto> node)\<rparr>"

definition Roots_Insert :: "nat \<Rightarrow> page_id \<Rightarrow> (nat \<rightharpoonup> page_id) \<Rightarrow> (nat \<rightharpoonup> page_id)" where
  "Roots_Insert idx root m = (if m idx = None then m(idx \<mapsto> root) else m)"

definition Roots_Update :: "nat \<Rightarrow> page_id \<Rightarrow> (nat \<rightharpoonup> page_id) \<Rightarrow> (nat \<rightharpoonup> page_id)" where
  "Roots_Update idx root m = (if m idx \<noteq> None then m(idx \<mapsto> root) else m)"

definition UpdateRootPageId :: "bool \<Rightarrow> ('k, 'v) bplus_tree \<Rightarrow> ('k, 'v) bplus_tree" where
  "UpdateRootPageId insert_record t =
     t\<lparr>index_roots := (if insert_record then Roots_Insert (index_id t) (root_page_id t) (index_roots t)
                       else Roots_Update (index_id t) (root_page_id t) (index_roots t))\<rparr>"

definition BPlusTree ::
  "nat \<Rightarrow> ('k, 'v) page_store \<Rightarrow> (nat \<rightharpoonup> page_id) \<Rightarrow> page_id \<Rightarrow> nat \<Rightarrow> nat \<Rightarrow> ('k, 'v) bplus_tree" where
  "BPlusTree idx st roots next_pid leaf_max internal_max =
     (let t = \<lparr>index_id = idx, root_page_id = INVALID_PAGE_ID, leaf_max_size = leaf_max,
               internal_max_size = internal_max, bt_store = st, index_roots = roots,
               bt_next_page_id = next_pid\<rparr>
      in case roots idx of
           None \<Rightarrow> UpdateRootPageId True t
         | Some r \<Rightarrow> t\<lparr>root_page_id := r\<rparr>)"

definition BT_IsEmpty :: "('k, 'v) bplus_tree \<Rightarrow> bool" where
  "BT_IsEmpty t \<longleftrightarrow> root_page_id t = INVALID_PAGE_ID"

section \<open>GetValue\<close>

partial_function (option) bt_get_value_loop ::
  "('k::linorder, 'v) page_store \<Rightarrow> 'k \<Rightarrow> page_id \<Rightarrow> 'v option option" where
  "bt_get_value_loop st key cur_page_id =
     (if cur_page_id = INVALID_PAGE_ID then Some None
      else case st cur_page_id of
        None \<Rightarrow> Some None
      | Some (LeafNode l) \<Rightarrow> Some (Leaf_Lookup key l)
      | Some (InternalNode n) \<Rightarrow> bt_get_value_loop st key (Int_Lookup key n))"

definition BT_GetValue :: "'k::linorder \<Rightarrow> ('k, 'v) bplus_tree \<Rightarrow> 'v option option" where
  "BT_GetValue key t = bt_get_value_loop (bt_store t) key (root_page_id t)"

section \<open>Insert\<close>

definition StartNewTree :: "'k::linorder \<Rightarrow> 'v \<Rightarrow> ('k, 'v) bplus_tree \<Rightarrow> ('k, 'v) bplus_tree" where
  "StartNewTree key value t =
     (let (new_page_id, t1) = bt_new_page t;
          new_node = snd (Leaf_Insert key value (Leaf_Init new_page_id INVALID_PAGE_ID (leaf_max_size t1)))
      in UpdateRootPageId False ((bt_put new_page_id (LeafNode new_node) t1)\<lparr>root_page_id := new_page_id\<rparr>))"

text \<open>The descent of InsertIntoLeaf (and of Remove) to the leaf for \<open>key\<close>; a page
  the pool cannot fetch ends it with \<open>false\<close>, here \<open>Some None\<close>.\<close>

partial_function (option) bt_find_leaf ::
  "('k::linorder, 'v) page_store \<Rightarrow> 'k \<Rightarrow> page_id \<Rightarrow> page_id option option" where
  "bt_find_leaf st key cur_page_id =
     (case st cur_page_id of
        None \<Rightarrow> Some None
      | Some (LeafNode l) \<Rightarrow> Some (Some cur_page_id)
      | Some (InternalNode n) \<Rightarrow> bt_find_leaf st key (Int_Lookup key n))"

text \<open>\<open>Split\<close> of a leaf: the new leaf takes the upper half and is linked after it.\<close>

definition BT_Split_leaf :: "page_id \<Rightarrow> ('k, 'v) bplus_tree \<Rightarrow> (page_id \<times> ('k, 'v) bplus_tree) option" where
  "BT_Split_leaf pid t =
     (case get_leaf (bt_store t) pid of
        None \<Rightarrow> None
      | Some node \<Rightarrow>
          (let (new_page_id, t1) = bt_new_page t;
               new_node = (Leaf_Init new_page_id (lf_parent_page_id node) (leaf_max_size t1))
                            \<lparr>lf_next_page_id := lf_next_page_id node\<rparr>;
               node1 = node\<lparr>lf_next_page_id := new_page_id\<rparr>;
               (node2, new_node2) = Leaf_MoveHalfTo node1 new_node
           in Some (new_page_id, bt_put new_page_id (LeafNode new_node2) (bt_put pid (LeafNode node2) t1))))"

definition BT_Split_internal :: "page_id \<Rightarrow> ('k, 'v) bplus_tree \<Rightarrow> (page_id \<times> ('k, 'v) bplus_tree) option" where
  "BT_Split_internal pid t =
     (case get_internal (bt_store t) pid of
        None \<Rightarrow> None
      | Some node \<Rightarrow>
          (let (new_page_id, t1) = bt_new_page t;
               t2 = bt_put new_page_id
                      (InternalNode (Int_Init new_page_id (ip_parent_page_id node) (internal_max_size t1))) t1
           in case Int_MoveHalfTo pid new_page_id (bt_store t2) of
                None \<Rightarrow> None
              | Some st3 \<Rightarrow> Some (new_page_id, t2\<lparr>bt_store := st3\<rparr>)))"

text \<open>(Without a split \<open>right_key\<close> is never assigned in the code and never read:
  an unspecified key here.)  The second loop of InsertIntoLeaf: from the parent of the page just
  changed up to the root, refresh the key of the left page \<open>merge_left\<close> and,
  when the level below split, insert \<open>(right_key, merge_right)\<close> after it,
  splitting again on overflow; above the root, grow a new root.\<close>

partial_function (option) bt_insert_up ::
  "('k::linorder, 'v) bplus_tree \<Rightarrow> page_id \<Rightarrow> page_id \<Rightarrow> page_id \<Rightarrow> 'k \<Rightarrow> 'k \<Rightarrow>
   (bool \<times> ('k, 'v) bplus_tree) option" where
  "bt_insert_up t cur_page_id merge_left merge_right left_key right_key =
     (if cur_page_id = INVALID_PAGE_ID then
        (if merge_left \<noteq> root_page_id t then Some (False, t)
         else if merge_right = INVALID_PAGE_ID then Some (True, t)
         else
           (let (new_page_id, t1) = bt_new_page t;
                new_node = Int_PopulateNewRoot merge_left right_key merge_right
                             (Int_Init new_page_id INVALID_PAGE_ID (internal_max_size t1));
                t2 = UpdateRootPageId False
                       ((bt_put new_page_id (InternalNode new_node) t1)\<lparr>root_page_id := new_page_id\<rparr>);
                st3 = set_parent merge_right new_page_id (set_parent merge_left new_page_id (bt_store t2))
            in Some (True, t2\<lparr>bt_store := st3\<rparr>)))
      else
        (case get_internal (bt_store t) cur_page_id of
           None \<Rightarrow> None
         | Some cur_node \<Rightarrow>
             (let left_index = Int_ValueIndex cur_node merge_left in
              if left_index < 0 then None
              else
                (let t1 = bt_put cur_page_id (InternalNode (Int_SetKeyAt (nat left_index) left_key cur_node)) t
                 in (if merge_right \<noteq> INVALID_PAGE_ID then
                       (case get_internal (bt_store t1) cur_page_id of
                          None \<Rightarrow> None
                        | Some n1 \<Rightarrow>
                            (let (sz, n2) = Int_InsertNodeAfter merge_left right_key merge_right n1;
                                 t2 = bt_put cur_page_id (InternalNode n2) t1
                             in if internal_max_size t2 < sz then
                                  (case BT_Split_internal cur_page_id t2 of
                                     None \<Rightarrow> None
                                   | Some (split_id, t3) \<Rightarrow>
                                       (case (get_internal (bt_store t3) split_id, get_internal (bt_store t3) cur_page_id) of
                                          (Some split_node, Some n3) \<Rightarrow>
                                            bt_insert_up t3 (ip_parent_page_id n3) (ip_page_id n3) split_id
                                              (Int_KeyAt n3 0) (Int_KeyAt split_node 0)
                                        | _ \<Rightarrow> None))
                                else
                                  (case get_internal (bt_store t2) cur_page_id of
                                     None \<Rightarrow> None
                                   | Some n3 \<Rightarrow>
                                       bt_insert_up t2 (ip_parent_page_id n3) (ip_page_id n3) INVALID_PAGE_ID
                                         (Int_KeyAt n3 0) right_key)))
                     else
                       (case get_internal (bt_store t1) cur_page_id of
                          None \<Rightarrow> None
                        | Some n3 \<Rightarrow>
                            bt_insert_up t1 (ip_parent_page_id n3) (ip_page_id n3) merge_right
                              (Int_KeyAt n3 0) right_key))))))"

definition InsertIntoLeaf ::
  "'k::linorder \<Rightarrow> 'v \<Rightarrow> ('k, 'v) bplus_tree \<Rightarrow> (bool \<times> ('k, 'v) bplus_tree) option" where
  "InsertIntoLeaf key value t =
     (case bt_find_leaf (bt_store t) key (root_page_id t) of
        None \<Rightarrow> None
      | Some None \<Rightarrow> Some (False, t)
      | Some (Some cur_page_id) \<Rightarrow>
          (case get_leaf (bt_store t) cur_page_id of
             None \<Rightarrow> None
           | Some leaf \<Rightarrow>
               (if Leaf_Lookup key leaf \<noteq> None then Some (False, t)
                else
                  (let left_key = Leaf_KeyAt leaf 0;
                       (sz, leaf1) = Leaf_Insert key value leaf;
                       t1 = bt_put cur_page_id (LeafNode leaf1) t
                   in if leaf_max_size t1 < sz then
                        (case BT_Split_leaf cur_page_id t1 of
                           None \<Rightarrow> None
                         | Some (split_id, t2) \<Rightarrow>
                             (case (get_leaf (bt_store t2) split_id, get_leaf (bt_store t2) cur_page_id) of
                                (Some split_leaf, Some leaf2) \<Rightarrow>
                                  bt_insert_up t2 (lf_parent_page_id leaf2) cur_page_id split_id
                                    left_key (Leaf_KeyAt split_leaf 0)
                              | _ \<Rightarrow> None))
                      else bt_insert_up t1 (lf_parent_page_id leaf1) cur_page_id INVALID_PAGE_ID
                             left_key undefined))))"

section \<open>Well-formed trees\<close>

text \<open>The key range of a subtree: at least the separator on its left (if any),
  below the one on its right (if any).\<close>

definition in_range :: "'k::linorder option \<Rightarrow> 'k option \<Rightarrow> 'k \<Rightarrow> bool" where
  "in_range lo hi k \<longleftrightarrow> (case lo of None \<Rightarrow> True | Some a \<Rightarrow> a \<le> k) \<and> (case hi of None \<Rightarrow> True | Some b \<Rightarrow> k < b)"

text \<open>The ranges of the children of an internal page with array \<open>xs\<close> in range
  \<open>[lo, hi)\<close>: child \<open>i\<close> gets \<open>[KeyAt(i), KeyAt(i + 1))\<close>, the first from \<open>lo\<close>,
  the last up to \<open>hi\<close>.\<close>

definition child_bounds :: "'k option \<Rightarrow> 'k option \<Rightarrow> ('k \<times> page_id) list \<Rightarrow> ('k option \<times> 'k option) list" where
  "child_bounds lo hi xs = zip (lo # map (Some \<circ> fst) (tl xs)) (map (Some \<circ> fst) (tl xs) @ [hi])"

text \<open>The contents of the subtree of height \<open>h\<close> at page \<open>p\<close> with parent \<open>par\<close>
  and key range \<open>[lo, hi)\<close>, if it is a well-formed B+ tree: every page names
  itself and its parent, leaves are sorted, separators are increasing and within
  range, every leaf is at depth \<open>h\<close>, and each key lies in its subtree's range.
  The contents are the leaves' pairs left to right.\<close>

fun bt_content ::
  "nat \<Rightarrow> ('k::linorder, 'v) page_store \<Rightarrow> page_id \<Rightarrow> page_id \<Rightarrow> 'k option \<Rightarrow> 'k option \<Rightarrow>
   ('k \<times> 'v) list option" where
  "bt_content 0 st p par lo hi =
     (case st p of
        Some (LeafNode l) \<Rightarrow>
          (if p \<noteq> INVALID_PAGE_ID \<and> lf_page_id l = p \<and> lf_parent_page_id l = par \<and> leaf_sorted l \<and>
              (\<forall>x \<in> set (lf_array l). in_range lo hi (fst x))
           then Some (lf_array l) else None)
      | _ \<Rightarrow> None)"
| "bt_content (Suc h) st p par lo hi =
     (case st p of
        Some (InternalNode n) \<Rightarrow>
          (if p \<noteq> INVALID_PAGE_ID \<and> ip_page_id n = p \<and> ip_parent_page_id n = par \<and> ip_array n \<noteq> [] \<and>
              sorted_wrt (<) (map fst (tl (ip_array n))) \<and>
              (\<forall>x \<in> set (tl (ip_array n)). in_range lo hi (fst x))
           then map_option concat
                  (those (map2 (\<lambda>c (lo', hi'). bt_content h st c p lo' hi')
                            (map snd (ip_array n)) (child_bounds lo hi (ip_array n))))
           else None)
      | _ \<Rightarrow> None)"

definition bt_wf :: "('k::linorder, 'v) bplus_tree \<Rightarrow> nat \<Rightarrow> ('k \<times> 'v) list \<Rightarrow> bool" where
  "bt_wf t h kvs \<longleftrightarrow> bt_content h (bt_store t) (root_page_id t) INVALID_PAGE_ID None None = Some kvs"

definition BT_Insert ::
  "'k::linorder \<Rightarrow> 'v \<Rightarrow> ('k, 'v) bplus_tree \<Rightarrow> (bool \<times> ('k, 'v) bplus_tree) option" where
  "BT_Insert key value t =
     (if BT_IsEmpty t then Some (True, StartNewTree key value t) else InsertIntoLeaf key value t)"

section \<open>Facts on well-formed subtrees\<close>

lemma those_eq_Some: "those xs = Some ys \<longleftrightarrow> xs = map Some ys"
  by (induction xs arbitrary: ys) (auto split: option.splits)

lemma map2_eq_map_Some:
  "map2 f as bs = map Some ys \<Longrightarrow> length as = length bs \<Longrightarrow>
   length ys = length as \<and> (\<forall>i < length as. f (as ! i) (bs ! i) = Some (ys ! i))"
proof -
  assume m: "map2 f as bs = map Some ys" and l: "length as = length bs"
  have len: "length ys = length as" using arg_cong[OF m, of length] l by simp
  have "\<forall>i < length as. f (as ! i) (bs ! i) = Some (ys ! i)"
  proof (intro allI impI)
    fix i assume "i < length as"
    then show "f (as ! i) (bs ! i) = Some (ys ! i)"
      using arg_cong[OF m, of "\<lambda>zs. zs ! i"] l len by simp
  qed
  then show ?thesis using len by blast
qed

lemma length_child_bounds [simp]: "xs \<noteq> [] \<Longrightarrow> length (child_bounds lo hi xs) = length xs"
  by (simp add: child_bounds_def)

lemma child_bounds_nth:
  assumes "i < length xs"
  shows "child_bounds lo hi xs ! i =
           (if i = 0 then lo else Some (fst (xs ! i)),
            if i = length xs - 1 then hi else Some (fst (xs ! Suc i)))"
proof -
  have ne: "xs \<noteq> []" using assms by auto
  have a: "(lo # map (Some \<circ> fst) (tl xs)) ! i = (if i = 0 then lo else Some (fst (xs ! i)))"
    using assms ne by (cases i) (auto simp: nth_tl)
  have b: "(map (Some \<circ> fst) (tl xs) @ [hi]) ! i = (if i = length xs - 1 then hi else Some (fst (xs ! Suc i)))"
    using assms ne by (auto simp: nth_append nth_tl)
  show ?thesis using assms ne a b by (simp add: child_bounds_def)
qed

lemma sorted_takeWhile_le:
  fixes ys :: "'a::linorder list"
  assumes "sorted_wrt (<) ys" and "m < length ys"
  shows "ys ! m \<le> key \<longleftrightarrow> m < length (takeWhile (\<lambda>y. y \<le> key) ys)"
proof
  assume le: "ys ! m \<le> key"
  show "m < length (takeWhile (\<lambda>y. y \<le> key) ys)"
  proof (rule ccontr)
    assume "\<not> ?thesis"
    then have t: "length (takeWhile (\<lambda>y. y \<le> key) ys) \<le> m" by simp
    then have tl: "length (takeWhile (\<lambda>y. y \<le> key) ys) < length ys" using assms(2) by simp
    then have "\<not> ys ! length (takeWhile (\<lambda>y. y \<le> key) ys) \<le> key" by (rule nth_length_takeWhile)
    moreover have "ys ! length (takeWhile (\<lambda>y. y \<le> key) ys) \<le> ys ! m"
    proof (cases "length (takeWhile (\<lambda>y. y \<le> key) ys) = m")
      case False
      then have "length (takeWhile (\<lambda>y. y \<le> key) ys) < m" using t by simp
      then have "ys ! length (takeWhile (\<lambda>y. y \<le> key) ys) < ys ! m"
        using assms unfolding sorted_wrt_iff_nth_less by blast
      then show ?thesis by (rule less_imp_le)
    qed simp
    ultimately show False using le by simp
  qed
next
  assume "m < length (takeWhile (\<lambda>y. y \<le> key) ys)"
  then show "ys ! m \<le> key"
    by (metis nth_mem set_takeWhileD takeWhile_nth)
qed

text \<open>The child Lookup picks is the only one whose range holds the key.\<close>

lemma child_range_unique:
  assumes ne: "xs \<noteq> []" and s: "sorted_wrt (<) (map fst (tl xs))" and k: "in_range lo hi key"
    and i: "i < length xs"
  shows "in_range (fst (child_bounds lo hi xs ! i)) (snd (child_bounds lo hi xs ! i)) key \<longleftrightarrow>
         i = length (takeWhile (\<lambda>x. fst x \<le> key) (tl xs))"
proof -
  let ?ys = "map fst (tl xs)"
  let ?t = "length (takeWhile (\<lambda>x. fst x \<le> key) (tl xs))"
  have t: "?t = length (takeWhile (\<lambda>y. y \<le> key) ?ys)" by (simp add: takeWhile_map comp_def)
  have tle: "?t \<le> length xs - 1" using length_takeWhile_le[of _ "tl xs"] by simp
  have ys: "\<And>m. m < length xs - 1 \<Longrightarrow> ?ys ! m = fst (xs ! Suc m)" using ne by (simp add: nth_tl)
  have lo_ok: "i = 0 \<or> fst (xs ! i) \<le> key \<longleftrightarrow> i \<le> ?t"
  proof (cases i)
    case (Suc m)
    then have "fst (xs ! i) = ?ys ! m" "m < length ?ys" using ys i by auto
    then show ?thesis using sorted_takeWhile_le[OF s, of m key] t Suc by (simp add: Suc_le_eq)
  qed simp
  have hi_ok: "i = length xs - 1 \<or> key < fst (xs ! Suc i) \<longleftrightarrow> ?t \<le> i"
  proof (cases "i = length xs - 1")
    case False
    then have "fst (xs ! Suc i) = ?ys ! i" "i < length ?ys" using ys i by auto
    moreover have "key < fst (xs ! Suc i) \<longleftrightarrow> \<not> fst (xs ! Suc i) \<le> key" by auto
    ultimately show ?thesis using sorted_takeWhile_le[OF s, of i key] t False by (simp add: not_less)
  qed (use tle in simp)
  have "in_range (fst (child_bounds lo hi xs ! i)) (snd (child_bounds lo hi xs ! i)) key \<longleftrightarrow>
        (i = 0 \<or> fst (xs ! i) \<le> key) \<and> (i = length xs - 1 \<or> key < fst (xs ! Suc i))"
    using k i by (auto simp: child_bounds_nth in_range_def split: option.splits)
  then show ?thesis using lo_ok hi_ok by auto
qed

lemma child_range_sub:
  assumes "\<forall>x \<in> set (tl xs). in_range lo hi (fst x)" and "i < length xs"
    and "in_range (fst (child_bounds lo hi xs ! i)) (snd (child_bounds lo hi xs ! i)) k"
  shows "in_range lo hi k"
proof -
  have ne: "xs \<noteq> []" using assms(2) by auto
  have m: "in_range lo hi (fst (xs ! j))" if j: "0 < j" "j < length xs" for j
  proof -
    have "xs ! j = tl xs ! (j - 1)" "j - 1 < length (tl xs)" using j ne by (simp_all add: nth_tl)
    then show ?thesis using assms(1) nth_mem by metis
  qed
  show ?thesis
    using assms(2,3) m[of i] m[of "Suc i"]
    by (auto simp: child_bounds_nth in_range_def split: option.splits if_splits
             intro: order_trans less_trans)
qed

lemma map_of_concat_nth:
  "j < length xss \<Longrightarrow> (\<forall>i < length xss. i \<noteq> j \<longrightarrow> k \<notin> fst ` set (xss ! i)) \<Longrightarrow>
   map_of (concat xss) k = map_of (xss ! j) k"
proof (induction xss arbitrary: j)
  case Nil
  then show ?case by simp
next
  case (Cons xs xss)
  show ?case
  proof (cases j)
    case 0
    have "k \<notin> fst ` set ys" if "ys \<in> set xss" for ys
    proof -
      from that obtain i where "i < length xss" "ys = xss ! i" unfolding in_set_conv_nth by blast
      then show ?thesis using Cons.prems(2)[rule_format, of "Suc i"] 0 by simp
    qed
    then have "map_of (concat xss) k = None" by (force simp: map_of_eq_None_iff)
    then show ?thesis using 0 by (simp add: map_of_append map_add_def split: option.splits)
  next
    case (Suc j')
    have "k \<notin> fst ` set xs" using Cons.prems(2) Suc by force
    then have "map_of xs k = None" by (simp add: map_of_eq_None_iff)
    moreover have "map_of (concat xss) k = map_of (xss ! j') k"
    proof (rule Cons.IH)
      show "j' < length xss" using Cons.prems(1) Suc by simp
      show "\<forall>i < length xss. i \<noteq> j' \<longrightarrow> k \<notin> fst ` set (xss ! i)"
      proof (intro allI impI)
        fix i assume "i < length xss" "i \<noteq> j'"
        then show "k \<notin> fst ` set (xss ! i)" using Cons.prems(2)[rule_format, of "Suc i"] Suc by simp
      qed
    qed
    ultimately show ?thesis using Suc by (simp add: map_of_append map_add_def)
  qed
qed

lemma bt_content_0D:
  "bt_content 0 st p par lo hi = Some kvs \<Longrightarrow>
   \<exists>l. st p = Some (LeafNode l) \<and> p \<noteq> INVALID_PAGE_ID \<and> lf_page_id l = p \<and> lf_parent_page_id l = par \<and>
       leaf_sorted l \<and> (\<forall>x \<in> set (lf_array l). in_range lo hi (fst x)) \<and> kvs = lf_array l"
  by (auto split: option.splits bt_node.splits if_splits)

lemma bt_content_SucD:
  assumes "bt_content (Suc h) st p par lo hi = Some kvs"
  shows "\<exists>n kvss. st p = Some (InternalNode n) \<and> p \<noteq> INVALID_PAGE_ID \<and> ip_page_id n = p \<and>
           ip_parent_page_id n = par \<and> ip_array n \<noteq> [] \<and> sorted_wrt (<) (map fst (tl (ip_array n))) \<and>
           (\<forall>x \<in> set (tl (ip_array n)). in_range lo hi (fst x)) \<and>
           kvs = concat kvss \<and> length kvss = length (ip_array n) \<and>
           (\<forall>i < length (ip_array n).
              bt_content h st (snd (ip_array n ! i)) p (fst (child_bounds lo hi (ip_array n) ! i))
                (snd (child_bounds lo hi (ip_array n) ! i)) = Some (kvss ! i))"
proof -
  obtain n where n: "st p = Some (InternalNode n)"
    using assms by (auto split: option.splits bt_node.splits)
  let ?xs = "ip_array n"
  have c: "p \<noteq> INVALID_PAGE_ID \<and> ip_page_id n = p \<and> ip_parent_page_id n = par \<and> ?xs \<noteq> [] \<and>
           sorted_wrt (<) (map fst (tl ?xs)) \<and> (\<forall>x \<in> set (tl ?xs). in_range lo hi (fst x))"
    using assms n by (auto split: if_splits)
  then obtain kvss where th: "those (map2 (\<lambda>c (lo', hi'). bt_content h st c p lo' hi')
                              (map snd ?xs) (child_bounds lo hi ?xs)) = Some kvss" and kc: "kvs = concat kvss"
    using assms n by (auto split: if_splits)
  have "length (map snd ?xs) = length (child_bounds lo hi ?xs)" using c by simp
  from map2_eq_map_Some[OF th[unfolded those_eq_Some] this]
  have "length kvss = length ?xs \<and>
        (\<forall>i < length ?xs. bt_content h st (snd (?xs ! i)) p (fst (child_bounds lo hi ?xs ! i))
                           (snd (child_bounds lo hi ?xs ! i)) = Some (kvss ! i))"
    by (simp add: split_def)
  then show ?thesis using n c kc by blast
qed

lemma bt_content_range:
  "bt_content h st p par lo hi = Some kvs \<Longrightarrow> \<forall>x \<in> set kvs. in_range lo hi (fst x)"
proof (induction h arbitrary: p par lo hi kvs)
  case 0
  then show ?case using bt_content_0D[OF "0.prems"] by blast
next
  case (Suc h)
  obtain n kvss where D: "st p = Some (InternalNode n)" "ip_array n \<noteq> []"
    "\<forall>x \<in> set (tl (ip_array n)). in_range lo hi (fst x)" "kvs = concat kvss"
    "length kvss = length (ip_array n)"
    "\<forall>i < length (ip_array n). bt_content h st (snd (ip_array n ! i)) p (fst (child_bounds lo hi (ip_array n) ! i))
        (snd (child_bounds lo hi (ip_array n) ! i)) = Some (kvss ! i)"
    using bt_content_SucD[OF Suc.prems] by blast
  show ?case
  proof
    fix x assume "x \<in> set kvs"
    then obtain ys where "ys \<in> set kvss" "x \<in> set ys" using D(4) by auto
    then obtain i where i: "i < length kvss" "x \<in> set (kvss ! i)" unfolding in_set_conv_nth by blast
    then have "in_range (fst (child_bounds lo hi (ip_array n) ! i)) (snd (child_bounds lo hi (ip_array n) ! i)) (fst x)"
      using Suc.IH D(5,6) by auto
    then show "in_range lo hi (fst x)" using child_range_sub D(3) i(1) D(5) by metis
  qed
qed

text \<open>One step of a descent: in a well-formed internal page whose range holds
  the key, Lookup picks a well-formed child whose range holds the key and whose
  contents give the key the same value.\<close>

lemma bt_content_descend:
  assumes c: "bt_content (Suc h) st p par lo hi = Some kvs" and k: "in_range lo hi key"
  shows "\<exists>n lo' hi' kvs'. st p = Some (InternalNode n) \<and> p \<noteq> INVALID_PAGE_ID \<and>
           bt_content h st (Int_Lookup key n) p lo' hi' = Some kvs' \<and> in_range lo' hi' key \<and>
           map_of kvs' key = map_of kvs key"
proof -
  obtain n kvss where D: "st p = Some (InternalNode n)" "p \<noteq> INVALID_PAGE_ID" "ip_array n \<noteq> []"
    "sorted_wrt (<) (map fst (tl (ip_array n)))"
    "kvs = concat kvss" "length kvss = length (ip_array n)"
    "\<forall>i < length (ip_array n). bt_content h st (snd (ip_array n ! i)) p (fst (child_bounds lo hi (ip_array n) ! i))
        (snd (child_bounds lo hi (ip_array n) ! i)) = Some (kvss ! i)"
    using bt_content_SucD[OF c] by blast
  let ?xs = "ip_array n"
  let ?j = "length (takeWhile (\<lambda>x. fst x \<le> key) (tl ?xs))"
  let ?cb = "\<lambda>i. child_bounds lo hi ?xs ! i"
  have "?j \<le> length (tl ?xs)" by (rule length_takeWhile_le)
  then have j: "?j < length ?xs" using D(3) by (cases ?xs) auto
  have uniq: "\<And>i. i < length ?xs \<Longrightarrow> in_range (fst (?cb i)) (snd (?cb i)) key \<longleftrightarrow> i = ?j"
    using child_range_unique[OF D(3,4) k] by blast
  have lk: "Int_Lookup key n = snd (?xs ! ?j)" using D(3) by (simp add: Int_Lookup_takeWhile)
  have "map_of (kvss ! ?j) key = map_of kvs key"
  proof -
    have "key \<notin> fst ` set (kvss ! i)" if "i < length kvss" "i \<noteq> ?j" for i
    proof
      assume "key \<in> fst ` set (kvss ! i)"
      then obtain x where "x \<in> set (kvss ! i)" "fst x = key" by auto
      moreover have "\<forall>x \<in> set (kvss ! i). in_range (fst (?cb i)) (snd (?cb i)) (fst x)"
        using bt_content_range D(6,7) that(1) by metis
      ultimately show False using uniq that D(6) by auto
    qed
    then show ?thesis using map_of_concat_nth[of ?j kvss key] D(5,6) j by simp
  qed
  then show ?thesis using D(1,2,7) j uniq[OF j] lk by metis
qed

text \<open>The descent of GetValue on a well-formed subtree whose range holds the key
  ends, with the key's value in the subtree's contents.\<close>

lemma bt_get_value_loop_content:
  "bt_content h st p par lo hi = Some kvs \<Longrightarrow> in_range lo hi key \<Longrightarrow>
   bt_get_value_loop st key p = Some (map_of kvs key)"
proof (induction h arbitrary: p par lo hi kvs)
  case 0
  obtain l where "st p = Some (LeafNode l)" "p \<noteq> INVALID_PAGE_ID" "kvs = lf_array l"
    using bt_content_0D[OF "0.prems"(1)] by blast
  then show ?case by (simp add: bt_get_value_loop.simps Leaf_Lookup_map_of)
next
  case (Suc h)
  then obtain n lo' hi' kvs' where "st p = Some (InternalNode n)" "p \<noteq> INVALID_PAGE_ID"
    "bt_content h st (Int_Lookup key n) p lo' hi' = Some kvs'" "in_range lo' hi' key"
    "map_of kvs' key = map_of kvs key"
    using bt_content_descend by metis
  then show ?case using Suc.IH by (simp add: bt_get_value_loop.simps)
qed

text \<open>The descent of InsertIntoLeaf and Remove ends at the leaf whose range holds
  the key, which holds the key's value if the subtree does.\<close>

lemma bt_find_leaf_content:
  "bt_content h st p par lo hi = Some kvs \<Longrightarrow> in_range lo hi key \<Longrightarrow>
   \<exists>q l lo' hi'. bt_find_leaf st key p = Some (Some q) \<and> st q = Some (LeafNode l) \<and>
     bt_content 0 st q (lf_parent_page_id l) lo' hi' = Some (lf_array l) \<and> in_range lo' hi' key \<and>
     map_of (lf_array l) key = map_of kvs key"
proof (induction h arbitrary: p par lo hi kvs)
  case 0
  obtain l where "st p = Some (LeafNode l)" "lf_parent_page_id l = par" "kvs = lf_array l"
    using bt_content_0D[OF "0.prems"(1)] by blast
  then show ?case using "0.prems"
    by (intro exI[of _ p] exI[of _ l] exI[of _ lo] exI[of _ hi]) (simp add: bt_find_leaf.simps)
next
  case (Suc h)
  then obtain n lo' hi' kvs' where "st p = Some (InternalNode n)"
    "bt_content h st (Int_Lookup key n) p lo' hi' = Some kvs'" "in_range lo' hi' key"
    "map_of kvs' key = map_of kvs key"
    using bt_content_descend by metis
  then show ?case using Suc.IH[of "Int_Lookup key n" p lo' hi' kvs'] by (auto simp: bt_find_leaf.simps)
qed

lemma bt_get_value_loop_invalid: "bt_get_value_loop st key INVALID_PAGE_ID = Some None"
  by (simp add: bt_get_value_loop.simps)

section \<open>Properties of GetValue\<close>

text \<open>C16: On a well-formed tree GetValue terminates and returns the key's value
  in the tree's contents, or reports the key absent: the descent through
  internal pages always picks the child whose key range holds the key.  An empty
  tree (root \<open>INVALID_PAGE_ID\<close>) reports every key absent.\<close>

theorem BT_GetValue_correct:
  "(bt_wf t h kvs \<longrightarrow> BT_GetValue key t = Some (map_of kvs key)) \<and>
   (BT_IsEmpty t \<longrightarrow> BT_GetValue key t = Some None)"
  using bt_get_value_loop_content[of h "bt_store t" "root_page_id t" INVALID_PAGE_ID None None kvs key]
  by (auto simp: bt_wf_def BT_GetValue_def BT_IsEmpty_def in_range_def bt_get_value_loop_invalid)

lemma BT_GetValue_correct_witness:
  "BT_GetValue (5::int)
     \<lparr>index_id = 0, root_page_id = 1, leaf_max_size = 4, internal_max_size = 4,
      bt_store = [1 \<mapsto> InternalNode \<lparr>ip_page_id = 1, ip_parent_page_id = -1, ip_max_size = 4,
                                     ip_array = [(0, 2), (5, 3)]\<rparr>,
                  2 \<mapsto> LeafNode \<lparr>lf_page_id = 2, lf_parent_page_id = 1, lf_max_size = 4, lf_next_page_id = 3,
                                 lf_array = [(1, 10::int), (3, 30)]\<rparr>,
                  3 \<mapsto> LeafNode \<lparr>lf_page_id = 3, lf_parent_page_id = 1, lf_max_size = 4, lf_next_page_id = -1,
                                 lf_array = [(5, 50), (7, 70)]\<rparr>],
      index_roots = [0 \<mapsto> 1], bt_next_page_id = 4\<rparr> = Some (Some 50)"
proof -
  define t :: "(int, int) bplus_tree" where "t =
     \<lparr>index_id = 0, root_page_id = 1, leaf_max_size = 4, internal_max_size = 4,
      bt_store = [1 \<mapsto> InternalNode \<lparr>ip_page_id = 1, ip_parent_page_id = -1, ip_max_size = 4,
                                     ip_array = [(0, 2), (5, 3)]\<rparr>,
                  2 \<mapsto> LeafNode \<lparr>lf_page_id = 2, lf_parent_page_id = 1, lf_max_size = 4, lf_next_page_id = 3,
                                 lf_array = [(1, 10::int), (3, 30)]\<rparr>,
                  3 \<mapsto> LeafNode \<lparr>lf_page_id = 3, lf_parent_page_id = 1, lf_max_size = 4, lf_next_page_id = -1,
                                 lf_array = [(5, 50), (7, 70)]\<rparr>],
      index_roots = [0 \<mapsto> 1], bt_next_page_id = 4\<rparr>"
  have "bt_wf t 1 [(1, 10), (3, 30), (5, 50), (7, 70)]"
    by (simp add: t_def bt_wf_def child_bounds_def in_range_def leaf_sorted_def INVALID_PAGE_ID_def)
  then have "BT_GetValue 5 t = Some (map_of [(1, 10), (3, 30), (5, 50), (7, 70)] (5::int))"
    using BT_GetValue_correct[of t 1 "[(1, 10), (3, 30), (5, 50), (7, 70)]" 5] by blast
  then show ?thesis by (simp add: t_def)
qed

section \<open>Properties of Insert\<close>

lemma bt_content_valid: "bt_content h st p par lo hi = Some kvs \<Longrightarrow> p \<noteq> INVALID_PAGE_ID"
  by (cases h) (auto split: option.splits bt_node.splits if_splits)

lemma bt_wf_not_empty: "bt_wf t h kvs \<Longrightarrow> \<not> BT_IsEmpty t"
  unfolding bt_wf_def BT_IsEmpty_def using bt_content_valid by blast

text \<open>Insert of a key already in a well-formed tree returns false and leaves
  the tree unchanged (unique keys): the descent finds the leaf whose range holds
  the key, and its Lookup finds it.\<close>

theorem BT_Insert_duplicate:
  assumes "bt_wf t h kvs" and "map_of kvs key \<noteq> None"
  shows "BT_Insert key value t = Some (False, t)"
proof -
  obtain q l lo' hi' where f: "bt_find_leaf (bt_store t) key (root_page_id t) = Some (Some q)"
    "bt_store t q = Some (LeafNode l)" "map_of (lf_array l) key = map_of kvs key"
    using bt_find_leaf_content[of h "bt_store t" "root_page_id t" INVALID_PAGE_ID None None kvs key]
          assms(1) by (auto simp: bt_wf_def in_range_def)
  then show ?thesis using assms bt_wf_not_empty[OF assms(1)]
    by (simp add: BT_Insert_def InsertIntoLeaf_def get_leaf_def Leaf_Lookup_map_of)
qed

lemma BT_Insert_duplicate_witness:
  "BT_Insert (3::int) (99::int)
     \<lparr>index_id = 0, root_page_id = 2, leaf_max_size = 4, internal_max_size = 4,
      bt_store = [2 \<mapsto> LeafNode \<lparr>lf_page_id = 2, lf_parent_page_id = -1, lf_max_size = 4, lf_next_page_id = -1,
                                 lf_array = [(1, 10), (3, 30)]\<rparr>],
      index_roots = [0 \<mapsto> 2], bt_next_page_id = 3\<rparr>
   = Some (False,
       \<lparr>index_id = 0, root_page_id = 2, leaf_max_size = 4, internal_max_size = 4,
        bt_store = [2 \<mapsto> LeafNode \<lparr>lf_page_id = 2, lf_parent_page_id = -1, lf_max_size = 4, lf_next_page_id = -1,
                                   lf_array = [(1, 10), (3, 30)]\<rparr>],
        index_roots = [0 \<mapsto> 2], bt_next_page_id = 3\<rparr>)"
proof -
  define t :: "(int, int) bplus_tree" where "t =
     \<lparr>index_id = 0, root_page_id = 2, leaf_max_size = 4, internal_max_size = 4,
      bt_store = [2 \<mapsto> LeafNode \<lparr>lf_page_id = 2, lf_parent_page_id = -1, lf_max_size = 4, lf_next_page_id = -1,
                                 lf_array = [(1, 10), (3, 30)]\<rparr>],
      index_roots = [0 \<mapsto> 2], bt_next_page_id = 3\<rparr>"
  have "bt_wf t 0 [(1, 10), (3, 30)]"
    by (simp add: t_def bt_wf_def in_range_def leaf_sorted_def INVALID_PAGE_ID_def)
  moreover have "map_of [(1::int, 10::int), (3, 30)] 3 \<noteq> None" by simp
  ultimately show ?thesis using BT_Insert_duplicate[of t 0 "[(1, 10), (3, 30)]" 3 99] by (simp add: t_def)
qed

text \<open>Insert into an empty tree makes a single leaf holding the pair the root
  (a well-formed tree of height 0).  The root is recorded in the index roots page
  with \<open>UpdateRootPageId(0)\<close>, an update: the page holds the new root only if
  it already had an entry for the index (the constructor makes one; the spec asks
  for an insert here).\<close>

theorem BT_Insert_empty:
  assumes "BT_IsEmpty t" and "0 \<le> bt_next_page_id t"
  shows "\<exists>t'. BT_Insert key value t = Some (True, t') \<and> bt_wf t' 0 [(key, value)] \<and>
           root_page_id t' = bt_next_page_id t \<and>
           index_roots t' (index_id t) =
             (if index_roots t (index_id t) = None then None else Some (bt_next_page_id t))"
  using assms
  by (simp add: BT_Insert_def StartNewTree_def bt_new_page_def bt_put_def UpdateRootPageId_def
                Roots_Update_def Leaf_Insert_def Leaf_Init_def Leaf_GetSize_def bt_wf_def in_range_def
                leaf_sorted_def INVALID_PAGE_ID_def)

lemma BT_Insert_empty_witness:
  "BT_Insert (7::int) (70::int) (BPlusTree 0 Map.empty Map.empty 1 4 4) =
     Some (True, snd (the (BT_Insert (7::int) (70::int) (BPlusTree 0 Map.empty Map.empty 1 4 4)))) \<and>
   index_roots (snd (the (BT_Insert (7::int) (70::int) (BPlusTree 0 Map.empty Map.empty 1 4 4)))) 0 = Some 1"
proof -
  have "BT_IsEmpty (BPlusTree 0 Map.empty Map.empty 1 4 4 :: (int, int) bplus_tree)"
    "0 \<le> bt_next_page_id (BPlusTree 0 Map.empty Map.empty 1 4 4 :: (int, int) bplus_tree)"
    by (simp_all add: BT_IsEmpty_def BPlusTree_def UpdateRootPageId_def)
  then show ?thesis
    using BT_Insert_empty[of "BPlusTree 0 Map.empty Map.empty 1 4 4 :: (int, int) bplus_tree" 7 70]
    by (auto simp: BPlusTree_def UpdateRootPageId_def Roots_Insert_def)
qed

end
