(* ===== verification/BPlus_Remove.thy ===== *)
theory BPlus_Remove
  imports BPlus_Tree "HOL-Library.Monad_Syntax"
begin

text \<open>
  Deletion from the B+ tree of \<^verbatim>\<open>src/src/index/b_plus_tree.cpp\<close>: \<open>Remove\<close>,
  \<open>CoalesceOrRedistribute\<close>, \<open>Coalesce\<close>, \<open>Redistribute\<close>, \<open>AdjustRoot\<close> and
  \<open>Destroy\<close>, over the tree record and page store of theory BPlus_Tree.
  The code's template methods (\<open>N\<close> a leaf or an internal page) read the
  common page header (\<open>GetSize\<close>, \<open>GetMinSize\<close>, \<open>KeyAt(0)\<close>, parent and page
  id) through generic accessors on \<open>bt_node\<close>, and dispatch on the page kind
  where the code tests \<open>IsLeafPage\<close>.  Pages are read from the store afresh
  after each call that may have changed them, since in the code all pointers
  alias frames of the pool.  \<open>DeletePage\<close> removes a page from the store.  A
  failed \<open>assert\<close>, a dereference of a page the pool cannot fetch, and a
  negative index returned by \<open>ValueIndex\<close> and then used are \<open>None\<close>; so is a
  recursion through parents that does not end (\<open>partial_function (option)\<close>).
\<close>

section \<open>Generic page header\<close>

definition node_GetSize :: "('k, 'v) bt_node \<Rightarrow> nat" where
  "node_GetSize nd = (case nd of LeafNode l \<Rightarrow> Leaf_GetSize l | InternalNode n \<Rightarrow> Int_GetSize n)"

text \<open>\<open>GetMinSize()\<close> of \<^verbatim>\<open>b_plus_tree_page.h\<close> is \<open>max_size / 2\<close> (spec,
  configuration of the B+ tree).\<close>

definition node_GetMinSize :: "('k, 'v) bt_node \<Rightarrow> nat" where
  "node_GetMinSize nd = (case nd of LeafNode l \<Rightarrow> lf_max_size l div 2 | InternalNode n \<Rightarrow> ip_max_size n div 2)"

definition Int_GetMinSize :: "'k internal_page \<Rightarrow> nat" where
  "Int_GetMinSize n = ip_max_size n div 2"

definition node_parent :: "('k, 'v) bt_node \<Rightarrow> page_id" where
  "node_parent nd = (case nd of LeafNode l \<Rightarrow> lf_parent_page_id l | InternalNode n \<Rightarrow> ip_parent_page_id n)"

definition node_page_id :: "('k, 'v) bt_node \<Rightarrow> page_id" where
  "node_page_id nd = (case nd of LeafNode l \<Rightarrow> lf_page_id l | InternalNode n \<Rightarrow> ip_page_id n)"

definition node_KeyAt0 :: "('k, 'v) bt_node \<Rightarrow> 'k" where
  "node_KeyAt0 nd = (case nd of LeafNode l \<Rightarrow> Leaf_KeyAt l 0 | InternalNode n \<Rightarrow> Int_KeyAt n 0)"

definition bt_delete :: "page_id \<Rightarrow> ('k, 'v) bplus_tree \<Rightarrow> ('k, 'v) bplus_tree" where
  "bt_delete pid t = t\<lparr>bt_store := (bt_store t)(pid := None)\<rparr>"

definition Roots_Delete :: "nat \<Rightarrow> (nat \<rightharpoonup> page_id) \<Rightarrow> (nat \<rightharpoonup> page_id)" where
  "Roots_Delete idx m = m(idx := None)"

lemmas node_defs [model_simps] = node_GetSize_def node_GetMinSize_def node_parent_def node_page_id_def
  node_KeyAt0_def Int_GetMinSize_def bt_delete_def

section \<open>Destroy\<close>

definition BT_Destroy :: "('k, 'v) bplus_tree \<Rightarrow> ('k, 'v) bplus_tree" where
  "BT_Destroy t = t\<lparr>root_page_id := INVALID_PAGE_ID, index_roots := Roots_Delete (index_id t) (index_roots t)\<rparr>"

section \<open>Redistribute\<close>

text \<open>The leaf loop of \<open>Redistribute\<close>: while the sizes differ by more than one,
  move the sibling's first entry to the end of the node (\<open>index = 0\<close>, the
  sibling is on the right) or its last entry to the front of the node.\<close>

partial_function (option) leaf_redistribute_loop ::
  "('k, 'v) leaf_page \<Rightarrow> ('k, 'v) leaf_page \<Rightarrow> nat \<Rightarrow> (('k, 'v) leaf_page \<times> ('k, 'v) leaf_page) option" where
  "leaf_redistribute_loop sib node index =
     (if 1 < \<bar>int (Leaf_GetSize node) - int (Leaf_GetSize sib)\<bar> then
        (if index = 0 then (case Leaf_MoveFirstToEndOf sib node of (s1, n1) \<Rightarrow> leaf_redistribute_loop s1 n1 index)
         else (case Leaf_MoveLastToFrontOf sib node of (s1, n1) \<Rightarrow> leaf_redistribute_loop s1 n1 index))
      else Some (sib, node))"

text \<open>The internal loop: the moves go through the store (they re-parent the
  moved child), and the middle key passed to the next move is the sibling's
  new slot-0 key (\<open>index = 0\<close>) or the node's (\<open>index = 1\<close>).\<close>

partial_function (option) int_redistribute_loop ::
  "('k, 'v) page_store \<Rightarrow> page_id \<Rightarrow> page_id \<Rightarrow> nat \<Rightarrow> 'k \<Rightarrow> ('k, 'v) page_store option" where
  "int_redistribute_loop st sid nid index middle_key =
     (case (get_internal st nid, get_internal st sid) of
        (Some n, Some s) \<Rightarrow>
          (if 1 < \<bar>int (Int_GetSize n) - int (Int_GetSize s)\<bar> then
             (if index = 0 then
                do { st1 \<leftarrow> Int_MoveFirstToEndOf sid nid middle_key st;
                     s1 \<leftarrow> get_internal st1 sid;
                     int_redistribute_loop st1 sid nid index (Int_KeyAt s1 0) }
              else
                do { st1 \<leftarrow> Int_MoveLastToFrontOf sid nid middle_key st;
                     n1 \<leftarrow> get_internal st1 nid;
                     int_redistribute_loop st1 sid nid index (Int_KeyAt n1 0) })
           else Some st)
      | _ \<Rightarrow> None)"

definition BT_Redistribute ::
  "page_id \<Rightarrow> page_id \<Rightarrow> nat \<Rightarrow> ('k, 'v) bplus_tree \<Rightarrow> ('k, 'v) bplus_tree option" where
  "BT_Redistribute sid nid index t =
     (case bt_store t nid of
        Some (InternalNode inode) \<Rightarrow>
          do { parent \<leftarrow> get_internal (bt_store t) (ip_parent_page_id inode);
               let vi = Int_ValueIndex parent (if index = 0 then sid else nid);
               if vi < 0 then None
               else do { st1 \<leftarrow> int_redistribute_loop (bt_store t) sid nid index (Int_KeyAt parent (nat vi));
                         Some (t\<lparr>bt_store := st1\<rparr>) } }
      | Some (LeafNode inode) \<Rightarrow>
          do { isibling \<leftarrow> get_leaf (bt_store t) sid;
               (s1, n1) \<leftarrow> leaf_redistribute_loop isibling inode index;
               Some (bt_put nid (LeafNode n1) (bt_put sid (LeafNode s1) t)) }
      | None \<Rightarrow> None)"

section \<open>Coalesce\<close>

text \<open>\<open>Coalesce\<close> first swaps the two pages when \<open>index = 0\<close>, so that the
  right page of the pair (\<open>inode\<close>) always moves into the left one
  (\<open>isibling\<close>); then drops the right page's entry from the parent and reports
  whether the parent fell below its minimum size.\<close>

definition BT_Coalesce ::
  "page_id \<Rightarrow> page_id \<Rightarrow> page_id \<Rightarrow> nat \<Rightarrow> ('k, 'v) bplus_tree \<Rightarrow> (bool \<times> ('k, 'v) bplus_tree) option" where
  "BT_Coalesce neighbor_id node_id parent_id index t =
     (let inode_id = (if index = 0 then neighbor_id else node_id);
          isibling_id = (if index = 0 then node_id else neighbor_id)
      in case bt_store t inode_id of
           Some (LeafNode inode) \<Rightarrow>
             do { isibling \<leftarrow> get_leaf (bt_store t) isibling_id;
                  let (inode1, isibling1) = Leaf_MoveAllTo inode isibling;
                  let isibling2 = isibling1\<lparr>lf_next_page_id := lf_next_page_id inode1\<rparr>;
                  let t1 = bt_put isibling_id (LeafNode isibling2) (bt_put inode_id (LeafNode inode1) t);
                  parent \<leftarrow> get_internal (bt_store t1) parent_id;
                  parent1 \<leftarrow> Int_Remove (Int_ValueIndex parent (lf_page_id inode1)) parent;
                  Some (Int_GetSize parent1 < Int_GetMinSize parent1,
                        bt_put parent_id (InternalNode parent1) t1) }
         | Some (InternalNode inode) \<Rightarrow>
             do { parent \<leftarrow> get_internal (bt_store t) parent_id;
                  let vi = Int_ValueIndex parent (ip_page_id inode);
                  if vi < 0 then None
                  else do {
                    st1 \<leftarrow> Int_MoveAllTo inode_id isibling_id (Int_KeyAt parent (nat vi)) (bt_store t);
                    inode1 \<leftarrow> get_internal st1 inode_id;
                    parent1 \<leftarrow> get_internal st1 parent_id;
                    parent2 \<leftarrow> Int_Remove (Int_ValueIndex parent1 (ip_page_id inode1)) parent1;
                    Some (Int_GetSize parent2 < Int_GetMinSize parent2,
                          t\<lparr>bt_store := st1(parent_id \<mapsto> InternalNode parent2)\<rparr>) } }
         | None \<Rightarrow> None)"

section \<open>AdjustRoot\<close>

definition BT_AdjustRoot :: "page_id \<Rightarrow> ('k, 'v) bplus_tree \<Rightarrow> (bool \<times> ('k, 'v) bplus_tree) option" where
  "BT_AdjustRoot pid t =
     (case bt_store t pid of
        Some (LeafNode l) \<Rightarrow>
          (if Leaf_GetSize l = 0 then Some (True, UpdateRootPageId False (t\<lparr>root_page_id := INVALID_PAGE_ID\<rparr>))
           else Some (False, t))
      | Some (InternalNode n) \<Rightarrow>
          (if Int_GetSize n = 1 then
             (let child_id = Int_ValueAt n 0 in
              if bt_store t child_id = None then None
              else Some (True, UpdateRootPageId False
                                 (t\<lparr>bt_store := set_parent child_id INVALID_PAGE_ID (bt_store t),
                                    root_page_id := child_id\<rparr>)))
           else Some (False, t))
      | None \<Rightarrow> None)"

section \<open>CoalesceOrRedistribute\<close>

text \<open>What \<open>CoalesceOrRedistribute\<close> does with the result of its recursive call
  on the parent, in each of its branches: ignore it (the node was big enough;
  the call only refreshes keys), assert it is false (after a redistribution),
  or delete the parent if it is true (after a coalesce, which also deletes the
  right sibling when the node absorbed it, and returns whether the node itself
  is to be deleted).\<close>

datatype cor_post = PostKeys | PostRedistribute | PostCoalesceRight page_id | PostCoalesceLeft

definition cor_finish ::
  "cor_post \<Rightarrow> page_id \<Rightarrow> bool \<Rightarrow> ('k, 'v) bplus_tree \<Rightarrow> (bool \<times> ('k, 'v) bplus_tree) option" where
  "cor_finish post parent_id flag t =
     (case post of
        PostKeys \<Rightarrow> Some (False, t)
      | PostRedistribute \<Rightarrow> (if flag then None else Some (False, t))
      | PostCoalesceRight sibling_id \<Rightarrow>
          Some (False, (if flag then bt_delete parent_id else id) (bt_delete sibling_id t))
      | PostCoalesceLeft \<Rightarrow> Some (True, (if flag then bt_delete parent_id t else t)))"

text \<open>The work \<open>CoalesceOrRedistribute\<close> does on a non-root node before it
  recurses: refresh the parent's key for the node; if the node is big enough
  stop (recursing when it is the parent's first child); else redistribute with
  the right sibling, then the left, if their sizes allow it, else coalesce with
  the right sibling, else with the left.  It returns the new tree, the parent,
  whether to recurse on the parent, and what to do afterwards.\<close>

definition cor_step ::
  "page_id \<Rightarrow> ('k, 'v) bt_node \<Rightarrow> ('k, 'v) bplus_tree \<Rightarrow>
   (('k, 'v) bplus_tree \<times> page_id \<times> bool \<times> cor_post) option" where
  "cor_step pid node t =
     (let parent_id = node_parent node in
      do { parent_node \<leftarrow> get_internal (bt_store t) parent_id;
           let mindex = Int_ValueIndex parent_node (node_page_id node);
           let msize = node_GetSize node;
           let psize = Int_GetSize parent_node;
           let min_size = node_GetMinSize node;
           if mindex < 0 then None
           else do {
             let m = nat mindex;
             let t1 = bt_put parent_id (InternalNode (Int_SetKeyAt m (node_KeyAt0 node) parent_node)) t;
             if min_size \<le> msize then Some (t1, parent_id, m = 0, PostKeys)
             else do {
               right_size \<leftarrow> (if m + 1 < psize
                               then map_option (Some \<circ> node_GetSize) (bt_store t1 (Int_ValueAt parent_node (m + 1)))
                               else Some None);
               left_size \<leftarrow> (if 0 < m \<and> \<not> (case right_size of Some s \<Rightarrow> min_size \<le> (msize + s) div 2 | None \<Rightarrow> False)
                              then map_option (Some \<circ> node_GetSize) (bt_store t1 (Int_ValueAt parent_node (m - 1)))
                              else Some None);
               if (case right_size of Some s \<Rightarrow> min_size \<le> (msize + s) div 2 | None \<Rightarrow> False) then
                 (let sibling_id = Int_ValueAt parent_node (m + 1) in
                  do { t2 \<leftarrow> BT_Redistribute sibling_id pid 0 t1;
                       sibling_node \<leftarrow> bt_store t2 sibling_id;
                       parent2 \<leftarrow> get_internal (bt_store t2) parent_id;
                       Some (bt_put parent_id (InternalNode (Int_SetKeyAt (m + 1) (node_KeyAt0 sibling_node) parent2)) t2,
                             parent_id, m = 0, PostRedistribute) })
               else if (case left_size of Some s \<Rightarrow> min_size \<le> (msize + s) div 2 | None \<Rightarrow> False) then
                 (let sibling_id = Int_ValueAt parent_node (m - 1) in
                  do { t2 \<leftarrow> BT_Redistribute sibling_id pid 1 t1;
                       node2 \<leftarrow> bt_store t2 pid;
                       parent2 \<leftarrow> get_internal (bt_store t2) parent_id;
                       Some (bt_put parent_id (InternalNode (Int_SetKeyAt m (node_KeyAt0 node2) parent2)) t2,
                             parent_id, m - 1 = 0, PostRedistribute) })
               else if m + 1 < psize then
                 (let sibling_id = Int_ValueAt parent_node (m + 1) in
                  do { (c, t2) \<leftarrow> BT_Coalesce sibling_id pid parent_id 0 t1;
                       Some (t2, parent_id, c \<or> m = 0, PostCoalesceRight sibling_id) })
               else if 0 < m then
                 (let sibling_id = Int_ValueAt parent_node (m - 1) in
                  do { (c, t2) \<leftarrow> BT_Coalesce sibling_id pid parent_id 1 t1;
                       Some (t2, parent_id, c \<or> m - 1 = 0, PostCoalesceLeft) })
               else None } } })"

partial_function (option) BT_CoalesceOrRedistribute ::
  "page_id \<Rightarrow> ('k, 'v) bplus_tree \<Rightarrow> (bool \<times> ('k, 'v) bplus_tree) option" where
  "BT_CoalesceOrRedistribute pid t =
     (case bt_store t pid of
        None \<Rightarrow> None
      | Some node \<Rightarrow>
          (if node_parent node = INVALID_PAGE_ID then
             (if node_page_id node \<noteq> root_page_id t then None else BT_AdjustRoot pid t)
           else
             (case cor_step pid node t of
                None \<Rightarrow> None
              | Some (t1, parent_id, recurse, post) \<Rightarrow>
                  (if recurse then
                     do { (flag, t2) \<leftarrow> BT_CoalesceOrRedistribute parent_id t1;
                          cor_finish post parent_id flag t2 }
                   else cor_finish post parent_id False t1))))"

section \<open>Remove\<close>

definition BT_Remove :: "'k::linorder \<Rightarrow> ('k, 'v) bplus_tree \<Rightarrow> ('k, 'v) bplus_tree option" where
  "BT_Remove key t =
     (if BT_IsEmpty t then Some t
      else case bt_find_leaf (bt_store t) key (root_page_id t) of
        None \<Rightarrow> None
      | Some None \<Rightarrow> Some t
      | Some (Some cur_page_id) \<Rightarrow>
          (case get_leaf (bt_store t) cur_page_id of
             None \<Rightarrow> None
           | Some leaf \<Rightarrow>
               (if Leaf_Lookup key leaf = None then Some t
                else
                  (let leaf_id = lf_page_id leaf;
                       t1 = bt_put cur_page_id (LeafNode (snd (Leaf_RemoveAndDeleteRecord key leaf))) t
                   in case BT_CoalesceOrRedistribute cur_page_id t1 of
                        None \<Rightarrow> None
                      | Some (True, t2) \<Rightarrow> Some (bt_delete leaf_id t2)
                      | Some (False, t2) \<Rightarrow> Some t2))))"


section \<open>Facts used by the Remove proofs\<close>

lemma leaf_sorted_distinct: "leaf_sorted l \<Longrightarrow> distinct (map fst (lf_array l))"
  by (simp add: leaf_sorted_def strict_sorted_iff)

lemma leaf_sorted_filter: "leaf_sorted l \<Longrightarrow> sorted_wrt (<) (map fst (filter P (lf_array l)))"
  unfolding leaf_sorted_def by (simp add: sorted_wrt_map sorted_wrt_filter)

lemma Leaf_RemoveAndDeleteRecord_fields [simp]:
  "lf_page_id (snd (Leaf_RemoveAndDeleteRecord key l)) = lf_page_id l"
  "lf_parent_page_id (snd (Leaf_RemoveAndDeleteRecord key l)) = lf_parent_page_id l"
  "lf_max_size (snd (Leaf_RemoveAndDeleteRecord key l)) = lf_max_size l"
  "lf_next_page_id (snd (Leaf_RemoveAndDeleteRecord key l)) = lf_next_page_id l"
  by (simp_all add: Leaf_RemoveAndDeleteRecord_def Let_def split_def)

text \<open>The leaf the descent of Remove reaches, on a well-formed tree, and the
  leaf's entry for the key.\<close>

lemma BT_Remove_found:
  assumes "bt_wf t h kvs" "bt_find_leaf (bt_store t) key (root_page_id t) = Some (Some q)"
    "bt_store t q = Some (LeafNode l)" "Leaf_Lookup key l \<noteq> None"
  shows "BT_Remove key t =
           (case BT_CoalesceOrRedistribute q (bt_put q (LeafNode (snd (Leaf_RemoveAndDeleteRecord key l))) t) of
              None \<Rightarrow> None
            | Some (True, t2) \<Rightarrow> Some (bt_delete (lf_page_id l) t2)
            | Some (False, t2) \<Rightarrow> Some t2)"
  using assms bt_wf_not_empty[OF assms(1)] by (auto simp add: BT_Remove_def get_leaf_def)



text \<open>Unfolding rules of the descent and of \<open>CoalesceOrRedistribute\<close>, guarded by
  the page the store holds, so that \<open>simp\<close> unfolds them on concrete stores
  without looping.\<close>

lemma bt_find_leaf_leaf: "st p = Some (LeafNode l) \<Longrightarrow> bt_find_leaf st key p = Some (Some p)"
  by (subst bt_find_leaf.simps) simp

lemma bt_find_leaf_internal:
  "st p = Some (InternalNode n) \<Longrightarrow> bt_find_leaf st key p = bt_find_leaf st key (Int_Lookup key n)"
  by (subst bt_find_leaf.simps) simp

lemma BT_CoalesceOrRedistribute_root:
  "bt_store t pid = Some node \<Longrightarrow> node_parent node = INVALID_PAGE_ID \<Longrightarrow> node_page_id node = root_page_id t \<Longrightarrow>
   BT_CoalesceOrRedistribute pid t = BT_AdjustRoot pid t"
  by (subst BT_CoalesceOrRedistribute.simps) simp

lemma BT_CoalesceOrRedistribute_step:
  "bt_store t pid = Some node \<Longrightarrow> node_parent node \<noteq> INVALID_PAGE_ID \<Longrightarrow>
   BT_CoalesceOrRedistribute pid t =
     (case cor_step pid node t of
        None \<Rightarrow> None
      | Some (t1, parent_id, recurse, post) \<Rightarrow>
          (if recurse then do { (flag, t2) \<leftarrow> BT_CoalesceOrRedistribute parent_id t1;
                                cor_finish post parent_id flag t2 }
           else cor_finish post parent_id False t1))"
  by (subst BT_CoalesceOrRedistribute.simps) simp

declare Int_Lookup_takeWhile [simp]

lemmas bt_unfold = bt_find_leaf_leaf bt_find_leaf_internal BT_CoalesceOrRedistribute_root

section \<open>Properties of Remove\<close>

text \<open>Remove of a key that a well-formed tree does not hold returns at once
  and leaves the tree unchanged (the leaf's Lookup fails).\<close>

theorem BT_Remove_absent:
  assumes "bt_wf t h kvs" and "map_of kvs key = None"
  shows "BT_Remove key t = Some t"
proof -
  obtain q l lo' hi' where f: "bt_find_leaf (bt_store t) key (root_page_id t) = Some (Some q)"
    "bt_store t q = Some (LeafNode l)" "map_of (lf_array l) key = map_of kvs key"
    using bt_find_leaf_content[of h "bt_store t" "root_page_id t" INVALID_PAGE_ID None None kvs key]
          assms(1) by (auto simp: bt_wf_def in_range_def)
  then show ?thesis using assms bt_wf_not_empty[OF assms(1)]
    by (simp add: BT_Remove_def get_leaf_def Leaf_Lookup_map_of)
qed

lemma BT_Remove_absent_witness:
  "BT_Remove (2::int)
     \<lparr>index_id = 0, root_page_id = 2, leaf_max_size = 4, internal_max_size = 4,
      bt_store = [2 \<mapsto> LeafNode \<lparr>lf_page_id = 2, lf_parent_page_id = -1, lf_max_size = 4, lf_next_page_id = -1,
                                 lf_array = [(1, 10::int), (3, 30)]\<rparr>],
      index_roots = [0 \<mapsto> 2], bt_next_page_id = 3\<rparr> =
   Some \<lparr>index_id = 0, root_page_id = 2, leaf_max_size = 4, internal_max_size = 4,
      bt_store = [2 \<mapsto> LeafNode \<lparr>lf_page_id = 2, lf_parent_page_id = -1, lf_max_size = 4, lf_next_page_id = -1,
                                 lf_array = [(1, 10::int), (3, 30)]\<rparr>],
      index_roots = [0 \<mapsto> 2], bt_next_page_id = 3\<rparr>"
  by (rule BT_Remove_absent[of _ 0 "[(1, 10), (3, 30)]"])
     (simp_all add: bt_wf_def in_range_def leaf_sorted_def INVALID_PAGE_ID_def)



text \<open>Remove on a well-formed tree that is a single leaf: an absent key
  leaves it unchanged; otherwise the leaf loses exactly the key's entry and stays
  a well-formed root leaf, unless that was its last entry: then \<open>AdjustRoot\<close>
  empties the tree, the leaf page is deleted and the roots page is updated
  with \<open>INVALID_PAGE_ID\<close>.\<close>

theorem BT_Remove_root_leaf:
  assumes wf: "bt_wf t 0 kvs"
  shows "\<exists>t'. BT_Remove key t = Some t' \<and>
           (map_of kvs key = None \<longrightarrow> t' = t) \<and>
           (map_of kvs key \<noteq> None \<longrightarrow>
              (if filter (\<lambda>kv. fst kv \<noteq> key) kvs = []
               then BT_IsEmpty t' \<and> bt_store t' (root_page_id t) = None \<and>
                    index_roots t' = Roots_Update (index_id t) INVALID_PAGE_ID (index_roots t)
               else bt_wf t' 0 (filter (\<lambda>kv. fst kv \<noteq> key) kvs)))"
proof -
  obtain l where l: "bt_store t (root_page_id t) = Some (LeafNode l)" "root_page_id t \<noteq> INVALID_PAGE_ID"
    "lf_page_id l = root_page_id t" "lf_parent_page_id l = INVALID_PAGE_ID" "leaf_sorted l" "kvs = lf_array l"
    using bt_content_0D[OF wf[unfolded bt_wf_def]] by blast
  have find: "bt_find_leaf (bt_store t) key (root_page_id t) = Some (Some (root_page_id t))"
    using l(1) by (rule bt_find_leaf_leaf)
  show ?thesis
  proof (cases "map_of kvs key = None")
    case True
    then show ?thesis using BT_Remove_absent[OF wf] by simp
  next
    case False
    define l' where "l' = snd (Leaf_RemoveAndDeleteRecord key l)"
    have arr: "lf_array l' = filter (\<lambda>kv. fst kv \<noteq> key) kvs"
      using Leaf_RemoveAndDeleteRecord_filter[OF leaf_sorted_distinct[OF l(5)]] l(6) by (simp add: l'_def)
    have rem: "BT_Remove key t =
           (case BT_AdjustRoot (root_page_id t) (bt_put (root_page_id t) (LeafNode l') t) of
              None \<Rightarrow> None
            | Some (True, t2) \<Rightarrow> Some (bt_delete (lf_page_id l) t2)
            | Some (False, t2) \<Rightarrow> Some t2)"
      using BT_Remove_found[OF wf find l(1)] False l(3,4,6)
      by (simp add: Leaf_Lookup_map_of BT_CoalesceOrRedistribute_root bt_put_def node_defs l'_def)
    show ?thesis
    proof (cases "filter (\<lambda>kv. fst kv \<noteq> key) kvs = []")
      case True
      then show ?thesis using rem arr False l(3)
        by (auto simp add: BT_AdjustRoot_def bt_put_def Leaf_GetSize_def bt_delete_def BT_IsEmpty_def
                           UpdateRootPageId_def)
    next
      case nil: False
      have "bt_wf (bt_put (root_page_id t) (LeafNode l') t) 0 (filter (\<lambda>kv. fst kv \<noteq> key) kvs)"
        using l arr leaf_sorted_filter[OF l(5)]
        by (simp add: bt_wf_def bt_put_def l'_def leaf_sorted_def in_range_def)
      then show ?thesis using rem arr False nil
        by (auto simp add: BT_AdjustRoot_def bt_put_def Leaf_GetSize_def)
    qed
  qed
qed

lemma BT_Remove_root_leaf_witness:
  "BT_Remove (3::int)
     \<lparr>index_id = 0, root_page_id = 2, leaf_max_size = 4, internal_max_size = 4,
      bt_store = [2 \<mapsto> LeafNode \<lparr>lf_page_id = 2, lf_parent_page_id = -1, lf_max_size = 4, lf_next_page_id = -1,
                                 lf_array = [(1, 10::int), (3, 30)]\<rparr>],
      index_roots = [0 \<mapsto> 2], bt_next_page_id = 3\<rparr> \<noteq> None"
proof -
  define t :: "(int, int) bplus_tree" where "t =
     \<lparr>index_id = 0, root_page_id = 2, leaf_max_size = 4, internal_max_size = 4,
      bt_store = [2 \<mapsto> LeafNode \<lparr>lf_page_id = 2, lf_parent_page_id = -1, lf_max_size = 4, lf_next_page_id = -1,
                                 lf_array = [(1, 10::int), (3, 30)]\<rparr>],
      index_roots = [0 \<mapsto> 2], bt_next_page_id = 3\<rparr>"
  have "bt_wf t 0 [(1, 10), (3, 30)]"
    by (simp add: t_def bt_wf_def in_range_def leaf_sorted_def INVALID_PAGE_ID_def)
  from BT_Remove_root_leaf[OF this, of 3] show ?thesis by (auto simp: t_def)
qed



section \<open>Redistribute\<close>

lemma leaf_redistribute_loop_right:
  "Leaf_GetSize node \<le> Leaf_GetSize sib \<Longrightarrow>
   \<exists>s' n'. leaf_redistribute_loop sib node 0 = Some (s', n') \<and>
     lf_array n' @ lf_array s' = lf_array node @ lf_array sib \<and>
     Leaf_GetSize n' \<le> Leaf_GetSize s' \<and> Leaf_GetSize s' \<le> Leaf_GetSize n' + 1"
proof (induction "Leaf_GetSize sib - Leaf_GetSize node" arbitrary: sib node rule: less_induct)
  case less
  show ?case
  proof (cases "1 < \<bar>int (Leaf_GetSize node) - int (Leaf_GetSize sib)\<bar>")
    case True
    then obtain x xs where sib: "lf_array sib = x # xs"
      using less.prems by (cases "lf_array sib") (auto simp: Leaf_GetSize_def)
    let ?s1 = "sib\<lparr>lf_array := xs\<rparr>" and ?n1 = "node\<lparr>lf_array := lf_array node @ [x]\<rparr>"
    have "Leaf_GetSize sib - Leaf_GetSize node > Leaf_GetSize ?s1 - Leaf_GetSize ?n1"
         "Leaf_GetSize ?n1 \<le> Leaf_GetSize ?s1"
      using True less.prems sib by (auto simp: Leaf_GetSize_def)
    from less.hyps[OF this] obtain s' n' where
      "leaf_redistribute_loop ?s1 ?n1 0 = Some (s', n')" "lf_array n' @ lf_array s' = lf_array ?n1 @ lf_array ?s1"
      "Leaf_GetSize n' \<le> Leaf_GetSize s'" "Leaf_GetSize s' \<le> Leaf_GetSize n' + 1" by blast
    then show ?thesis using True sib
      by (subst leaf_redistribute_loop.simps) (simp add: Leaf_MoveFirstToEndOf_def Leaf_CopyLastFrom_def)
  next
    case False
    then show ?thesis using less.prems by (subst leaf_redistribute_loop.simps) auto
  qed
qed

lemma leaf_redistribute_loop_left:
  "Leaf_GetSize node \<le> Leaf_GetSize sib \<Longrightarrow>
   \<exists>s' n'. leaf_redistribute_loop sib node 1 = Some (s', n') \<and>
     lf_array s' @ lf_array n' = lf_array sib @ lf_array node \<and>
     Leaf_GetSize n' \<le> Leaf_GetSize s' \<and> Leaf_GetSize s' \<le> Leaf_GetSize n' + 1"
proof (induction "Leaf_GetSize sib - Leaf_GetSize node" arbitrary: sib node rule: less_induct)
  case less
  show ?case
  proof (cases "1 < \<bar>int (Leaf_GetSize node) - int (Leaf_GetSize sib)\<bar>")
    case True
    then obtain xs x where sib: "lf_array sib = xs @ [x]"
      using less.prems by (cases "lf_array sib" rule: rev_cases) (auto simp: Leaf_GetSize_def)
    let ?s1 = "sib\<lparr>lf_array := xs\<rparr>" and ?n1 = "node\<lparr>lf_array := x # lf_array node\<rparr>"
    have "Leaf_GetSize sib - Leaf_GetSize node > Leaf_GetSize ?s1 - Leaf_GetSize ?n1"
         "Leaf_GetSize ?n1 \<le> Leaf_GetSize ?s1"
      using True less.prems sib by (auto simp: Leaf_GetSize_def)
    from less.hyps[OF this] obtain s' n' where
      "leaf_redistribute_loop ?s1 ?n1 1 = Some (s', n')" "lf_array s' @ lf_array n' = lf_array ?s1 @ lf_array ?n1"
      "Leaf_GetSize n' \<le> Leaf_GetSize s'" "Leaf_GetSize s' \<le> Leaf_GetSize n' + 1" by blast
    then show ?thesis using True sib
      by (subst leaf_redistribute_loop.simps) (simp add: Leaf_MoveLastToFrontOf_def Leaf_CopyFirstFrom_def)
  next
    case False
    then show ?thesis using less.prems by (subst leaf_redistribute_loop.simps) auto
  qed
qed

text \<open>C17: The leaf loop of \<open>Redistribute\<close> terminates whenever the sibling is
  at least as large as the node (as \<open>CoalesceOrRedistribute\<close> ensures:
  the node is below its minimum size and the pair's average is not): it leaves
  the pair's entries in key order across the two pages, sibling on the right for
  \<open>index = 0\<close> and on the left for \<open>index = 1\<close>, with sizes that differ by at
  most one, the sibling keeping the extra entry.\<close>

theorem leaf_redistribute_loop_balance:
  assumes "Leaf_GetSize node \<le> Leaf_GetSize sib"
  shows "(\<exists>s' n'. leaf_redistribute_loop sib node 0 = Some (s', n') \<and>
            lf_array n' @ lf_array s' = lf_array node @ lf_array sib \<and>
            Leaf_GetSize n' \<le> Leaf_GetSize s' \<and> Leaf_GetSize s' \<le> Leaf_GetSize n' + 1) \<and>
         (\<exists>s' n'. leaf_redistribute_loop sib node 1 = Some (s', n') \<and>
            lf_array s' @ lf_array n' = lf_array sib @ lf_array node \<and>
            Leaf_GetSize n' \<le> Leaf_GetSize s' \<and> Leaf_GetSize s' \<le> Leaf_GetSize n' + 1)"
  using leaf_redistribute_loop_right[OF assms] leaf_redistribute_loop_left[OF assms] by blast

lemma leaf_redistribute_loop_balance_witness:
  "leaf_redistribute_loop
     \<lparr>lf_page_id = 3, lf_parent_page_id = 1, lf_max_size = 4, lf_next_page_id = -1,
      lf_array = [(5::int, 50::int), (6, 60), (7, 70), (8, 80)]\<rparr>
     \<lparr>lf_page_id = 2, lf_parent_page_id = 1, lf_max_size = 4, lf_next_page_id = 3, lf_array = [(1, 10)]\<rparr> 0 \<noteq> None"
  using leaf_redistribute_loop_balance
          [of "\<lparr>lf_page_id = 2, lf_parent_page_id = 1, lf_max_size = 4, lf_next_page_id = 3, lf_array = [(1::int, 10::int)]\<rparr>"
              "\<lparr>lf_page_id = 3, lf_parent_page_id = 1, lf_max_size = 4, lf_next_page_id = -1,
                lf_array = [(5::int, 50::int), (6, 60), (7, 70), (8, 80)]\<rparr>"]
  by (auto simp: Leaf_GetSize_def)



section \<open>Remove under a single-child parent\<close>

lemma length_filter_key_less:
  "map_of xs key \<noteq> None \<Longrightarrow> length (filter (\<lambda>x. fst x \<noteq> key) xs) < length xs"
  by (auto intro: length_filter_less dest: map_of_SomeD)

text \<open>C18: With an internal page of a single child, \<open>CoalesceOrRedistribute\<close> of
  that child finds no sibling on either side and reaches \<open>assert(0)\<close>: Remove
  of a key whose leaf then falls below its minimum size aborts.  The code's own
  size bound does not exclude such a parent: for \<open>internal_max_size \<le> 3\<close>,
  \<open>GetMinSize() = max_size / 2 \<le> 1\<close>, and removing keys in order from a tree
  built with \<open>leaf_max_size = 2\<close>, \<open>internal_max_size = 3\<close> reaches one.\<close>

theorem BT_Remove_single_child_abort:
  assumes "\<not> BT_IsEmpty t"
    and "bt_find_leaf (bt_store t) key (root_page_id t) = Some (Some q)"
    and leaf: "bt_store t q = Some (LeafNode l)" "lf_page_id l = q" "leaf_sorted l"
    and "Leaf_Lookup key l \<noteq> None" and "Leaf_GetSize l \<le> lf_max_size l div 2"
    and par: "lf_parent_page_id l \<noteq> INVALID_PAGE_ID"
      "bt_store t (lf_parent_page_id l) = Some (InternalNode p)" "ip_array p = [(first_key, q)]"
  shows "BT_Remove key t = None"
proof -
  define l' where "l' = snd (Leaf_RemoveAndDeleteRecord key l)"
  define t1 where "t1 = bt_put q (LeafNode l') t"
  have small: "Leaf_GetSize l' < lf_max_size l div 2"
    using Leaf_RemoveAndDeleteRecord_filter[OF leaf_sorted_distinct[OF leaf(3)], of key]
          length_filter_key_less[of "lf_array l" key] assms(6,7)
    by (simp add: l'_def Leaf_GetSize_def Leaf_Lookup_map_of)
  have pq: "lf_parent_page_id l \<noteq> q" using leaf(1) par(2) by auto
  have "cor_step q (LeafNode l') t1 = None"
    using small par pq leaf(2)
    by (simp add: cor_step_def t1_def bt_put_def get_internal_def node_defs l'_def Int_ValueIndex_takeWhile
                  Int_GetSize_def Let_def)
  then have "BT_CoalesceOrRedistribute q t1 = None"
    using par(1) by (simp add: BT_CoalesceOrRedistribute_step t1_def bt_put_def node_defs l'_def)
  then show ?thesis
    using assms(1,2,6) leaf(1) by (auto simp: BT_Remove_def get_leaf_def t1_def l'_def)
qed



lemma BT_Remove_single_child_abort_witness:
  "bt_wf \<lparr>index_id = 0, root_page_id = 1, leaf_max_size = 2, internal_max_size = 3,
      bt_store = [1 \<mapsto> InternalNode \<lparr>ip_page_id = 1, ip_parent_page_id = -1, ip_max_size = 3, ip_array = [(0, 2), (5, 3)]\<rparr>,
                  2 \<mapsto> InternalNode \<lparr>ip_page_id = 2, ip_parent_page_id = 1, ip_max_size = 3, ip_array = [(0, 4)]\<rparr>,
                  3 \<mapsto> InternalNode \<lparr>ip_page_id = 3, ip_parent_page_id = 1, ip_max_size = 3, ip_array = [(5, 5)]\<rparr>,
                  4 \<mapsto> LeafNode \<lparr>lf_page_id = 4, lf_parent_page_id = 2, lf_max_size = 2, lf_next_page_id = 5,
                                 lf_array = [(1::int, 10::int)]\<rparr>,
                  5 \<mapsto> LeafNode \<lparr>lf_page_id = 5, lf_parent_page_id = 3, lf_max_size = 2, lf_next_page_id = -1,
                                 lf_array = [(5, 50), (6, 60)]\<rparr>],
      index_roots = [0 \<mapsto> 1], bt_next_page_id = 6\<rparr> 2 [(1, 10), (5, 50), (6, 60)] \<and>
   BT_Remove 1 \<lparr>index_id = 0, root_page_id = 1, leaf_max_size = 2, internal_max_size = 3,
      bt_store = [1 \<mapsto> InternalNode \<lparr>ip_page_id = 1, ip_parent_page_id = -1, ip_max_size = 3, ip_array = [(0, 2), (5, 3)]\<rparr>,
                  2 \<mapsto> InternalNode \<lparr>ip_page_id = 2, ip_parent_page_id = 1, ip_max_size = 3, ip_array = [(0, 4)]\<rparr>,
                  3 \<mapsto> InternalNode \<lparr>ip_page_id = 3, ip_parent_page_id = 1, ip_max_size = 3, ip_array = [(5, 5)]\<rparr>,
                  4 \<mapsto> LeafNode \<lparr>lf_page_id = 4, lf_parent_page_id = 2, lf_max_size = 2, lf_next_page_id = 5,
                                 lf_array = [(1::int, 10::int)]\<rparr>,
                  5 \<mapsto> LeafNode \<lparr>lf_page_id = 5, lf_parent_page_id = 3, lf_max_size = 2, lf_next_page_id = -1,
                                 lf_array = [(5, 50), (6, 60)]\<rparr>],
      index_roots = [0 \<mapsto> 1], bt_next_page_id = 6\<rparr> = None"
proof -
  define t :: "(int, int) bplus_tree" where "t =
     \<lparr>index_id = 0, root_page_id = 1, leaf_max_size = 2, internal_max_size = 3,
      bt_store = [1 \<mapsto> InternalNode \<lparr>ip_page_id = 1, ip_parent_page_id = -1, ip_max_size = 3, ip_array = [(0, 2), (5, 3)]\<rparr>,
                  2 \<mapsto> InternalNode \<lparr>ip_page_id = 2, ip_parent_page_id = 1, ip_max_size = 3, ip_array = [(0, 4)]\<rparr>,
                  3 \<mapsto> InternalNode \<lparr>ip_page_id = 3, ip_parent_page_id = 1, ip_max_size = 3, ip_array = [(5, 5)]\<rparr>,
                  4 \<mapsto> LeafNode \<lparr>lf_page_id = 4, lf_parent_page_id = 2, lf_max_size = 2, lf_next_page_id = 5,
                                 lf_array = [(1::int, 10::int)]\<rparr>,
                  5 \<mapsto> LeafNode \<lparr>lf_page_id = 5, lf_parent_page_id = 3, lf_max_size = 2, lf_next_page_id = -1,
                                 lf_array = [(5, 50), (6, 60)]\<rparr>],
      index_roots = [0 \<mapsto> 1], bt_next_page_id = 6\<rparr>"
  have wf: "bt_wf t 2 [(1, 10), (5, 50), (6, 60)]"
    by (simp add: t_def bt_wf_def numeral_2_eq_2 child_bounds_def in_range_def leaf_sorted_def INVALID_PAGE_ID_def)
  have "BT_Remove 1 t = None"
  proof (rule BT_Remove_single_child_abort[where q = 4 and p = "\<lparr>ip_page_id = 2, ip_parent_page_id = 1,
           ip_max_size = 3, ip_array = [(0, 4)]\<rparr>" and first_key = 0 and l = "\<lparr>lf_page_id = 4,
           lf_parent_page_id = 2, lf_max_size = 2, lf_next_page_id = 5, lf_array = [(1::int, 10::int)]\<rparr>"])
    show "bt_find_leaf (bt_store t) 1 (root_page_id t) = Some (Some 4)"
      by (simp add: t_def bt_unfold)
  qed (simp_all add: t_def BT_IsEmpty_def INVALID_PAGE_ID_def leaf_sorted_def Leaf_Lookup_def Leaf_GetSize_def)
  with wf show ?thesis by (simp add: t_def)
qed

end
