(* ===== verification/BPlus_Iterator.thy ===== *)
theory BPlus_Iterator
  imports BPlus_Tree "HOL-Library.Monad_Syntax"
begin

text \<open>
  The index iterator of \<^verbatim>\<open>src/src/index/index_iterator.cpp\<close> and the tree's
  \<open>Begin()\<close>, \<open>Begin(key)\<close> and \<open>End()\<close> of \<^verbatim>\<open>src/src/index/b_plus_tree.cpp\<close>.
  The iterator holds a page id and a copy of the current pair; \<open>operator++\<close>
  finds the pair again in its leaf by \<open>KeyIndex\<close>, steps past it, and at the
  end of the leaf follows \<open>next_page_id\<close>.  \<open>End()\<close> is \<open>++\<close> applied to the
  last pair of the rightmost leaf, so it is the page id \<open>INVALID_PAGE_ID\<close> with
  that pair.  A dereference of a page the pool cannot fetch, and of an
  internal page read as a leaf, is \<open>None\<close>.  The well-formedness of theory
  BPlus_Tree does not speak of the sibling links, so the walk of the iterator is
  stated over an explicit chain of linked leaves (\<open>leaf_chain\<close>).
\<close>

record ('k, 'v) index_iterator =
  it_page_id :: page_id
  it_value :: "'k \<times> 'v"

definition IndexIterator :: "('k, 'v) page_store \<Rightarrow> page_id \<Rightarrow> nat \<Rightarrow> ('k, 'v) index_iterator option" where
  "IndexIterator st page_id index =
     map_option (\<lambda>node. \<lparr>it_page_id = page_id, it_value = Leaf_GetItem node index\<rparr>) (get_leaf st page_id)"

definition It_Deref :: "('k, 'v) index_iterator \<Rightarrow> 'k \<times> 'v" where
  "It_Deref it = it_value it"

definition It_Inc :: "('k::linorder, 'v) page_store \<Rightarrow> ('k, 'v) index_iterator \<Rightarrow> ('k, 'v) index_iterator option" where
  "It_Inc st it =
     do { node \<leftarrow> get_leaf st (it_page_id it);
          let index0 = Leaf_KeyIndex (fst (it_value it)) node;
          let index = (if fst (it_value it) = Leaf_KeyAt node index0 then index0 + 1 else index0);
          if index < Leaf_GetSize node then Some (it\<lparr>it_value := Leaf_GetItem node index\<rparr>)
          else
            (let next_id = lf_next_page_id node;
                 it1 = it\<lparr>it_page_id := next_id\<rparr>
             in if next_id = INVALID_PAGE_ID then Some it1
                else if st next_id = None then Some it1
                else do { node2 \<leftarrow> get_leaf st next_id; Some (it1\<lparr>it_value := Leaf_GetItem node2 0\<rparr>) }) }"

definition It_Eq :: "('k, 'v) index_iterator \<Rightarrow> ('k, 'v) index_iterator \<Rightarrow> bool" where
  "It_Eq it itr \<longleftrightarrow> it_page_id it = it_page_id itr \<and> fst (it_value it) = fst (it_value itr) \<and>
                     snd (it_value it) = snd (it_value itr)"

definition It_Neq :: "('k, 'v) index_iterator \<Rightarrow> ('k, 'v) index_iterator \<Rightarrow> bool" where
  "It_Neq it itr \<longleftrightarrow> \<not> It_Eq it itr"

section \<open>Begin and End\<close>

partial_function (option) bt_begin_loop ::
  "('k, 'v) page_store \<Rightarrow> page_id \<Rightarrow> ('k, 'v) index_iterator option" where
  "bt_begin_loop st root =
     (case st root of
        None \<Rightarrow> None
      | Some (LeafNode l) \<Rightarrow> IndexIterator st root 0
      | Some (InternalNode n) \<Rightarrow> bt_begin_loop st (Int_ValueAt n 0))"

definition BT_Begin :: "('k, 'v) bplus_tree \<Rightarrow> ('k, 'v) index_iterator option" where
  "BT_Begin t = bt_begin_loop (bt_store t) (root_page_id t)"

partial_function (option) bt_begin_key_loop ::
  "('k::linorder, 'v) page_store \<Rightarrow> 'k \<Rightarrow> page_id \<Rightarrow> ('k, 'v) index_iterator option" where
  "bt_begin_key_loop st key root =
     (case st root of
        None \<Rightarrow> None
      | Some (LeafNode l) \<Rightarrow> IndexIterator st root (Leaf_KeyIndex key l)
      | Some (InternalNode n) \<Rightarrow> bt_begin_key_loop st key (Int_Lookup key n))"

definition BT_Begin_key :: "'k::linorder \<Rightarrow> ('k, 'v) bplus_tree \<Rightarrow> ('k, 'v) index_iterator option" where
  "BT_Begin_key key t = bt_begin_key_loop (bt_store t) key (root_page_id t)"

text \<open>\<open>End()\<close> builds the iterator at index \<open>GetSize() - 1\<close>; on an empty leaf
  that is \<open>-1\<close>, and \<open>GetItem(-1)\<close> reads before the array: \<open>None\<close>.\<close>

partial_function (option) bt_end_loop ::
  "('k::linorder, 'v) page_store \<Rightarrow> page_id \<Rightarrow> ('k, 'v) index_iterator option" where
  "bt_end_loop st root =
     (case st root of
        None \<Rightarrow> None
      | Some (LeafNode l) \<Rightarrow>
          (if Leaf_GetSize l = 0 then None
           else do { it \<leftarrow> IndexIterator st root (Leaf_GetSize l - 1); It_Inc st it })
      | Some (InternalNode n) \<Rightarrow> bt_end_loop st (Int_ValueAt n (Int_GetSize n - 1)))"

definition BT_End :: "('k::linorder, 'v) bplus_tree \<Rightarrow> ('k, 'v) index_iterator option" where
  "BT_End t = bt_end_loop (bt_store t) (root_page_id t)"

declare bt_begin_loop.simps [code] bt_begin_key_loop.simps [code] bt_end_loop.simps [code]

section \<open>Chains of leaves\<close>

text \<open>The pages \<open>ps\<close> are non-empty, strictly sorted leaves, each linked to
  the next by \<open>next_page_id\<close> and the last to \<open>INVALID_PAGE_ID\<close>.  The
  iterator positions along the chain are its pairs, each with its page id.\<close>

fun leaf_chain :: "('k::linorder, 'v) page_store \<Rightarrow> page_id list \<Rightarrow> bool" where
  "leaf_chain st [] = False"
| "leaf_chain st [p] =
     (case st p of
        Some (LeafNode l) \<Rightarrow> p \<noteq> INVALID_PAGE_ID \<and> leaf_sorted l \<and> lf_array l \<noteq> [] \<and>
                             lf_next_page_id l = INVALID_PAGE_ID
      | _ \<Rightarrow> False)"
| "leaf_chain st (p # q # ps) =
     (case st p of
        Some (LeafNode l) \<Rightarrow> p \<noteq> INVALID_PAGE_ID \<and> leaf_sorted l \<and> lf_array l \<noteq> [] \<and>
                             lf_next_page_id l = q \<and> leaf_chain st (q # ps)
      | _ \<Rightarrow> False)"

definition leaf_positions :: "('k, 'v) page_store \<Rightarrow> page_id \<Rightarrow> ('k, 'v) index_iterator list" where
  "leaf_positions st p =
     (case st p of
        Some (LeafNode l) \<Rightarrow> map (\<lambda>e. \<lparr>it_page_id = p, it_value = e\<rparr>) (lf_array l)
      | _ \<Rightarrow> [])"

definition chain_positions :: "('k, 'v) page_store \<Rightarrow> page_id list \<Rightarrow> ('k, 'v) index_iterator list" where
  "chain_positions st ps = concat (map (leaf_positions st) ps)"

text \<open>\<open>n\<close> increments, as a loop \<open>for (...; it != end; ++it)\<close> performs them.\<close>

fun it_advance :: "('k::linorder, 'v) page_store \<Rightarrow> nat \<Rightarrow> ('k, 'v) index_iterator \<Rightarrow> ('k, 'v) index_iterator option" where
  "it_advance st 0 it = Some it"
| "it_advance st (Suc n) it = do { it1 \<leftarrow> It_Inc st it; it_advance st n it1 }"

section \<open>Increment inside a leaf and across a link\<close>

lemma key_index_from_nth:
  "sorted_wrt (<) (map fst xs) \<Longrightarrow> i < length xs \<Longrightarrow> key_index_from (fst (xs ! i)) xs = i"
proof (induction xs arbitrary: i)
  case Nil
  then show ?case by simp
next
  case (Cons x xs)
  show ?case
  proof (cases i)
    case 0
    then show ?thesis by simp
  next
    case (Suc j)
    then have "fst x < fst (xs ! j)" using Cons.prems by (simp add: nth_mem)
    then have "\<not> fst (xs ! j) \<le> fst x" by simp
    then show ?thesis using Cons.IH[of j] Cons.prems Suc by simp
  qed
qed

lemma It_Inc_inside:
  assumes "st p = Some (LeafNode l)" "leaf_sorted l" "i + 1 < length (lf_array l)"
  shows "It_Inc st \<lparr>it_page_id = p, it_value = lf_array l ! i\<rparr> =
           Some \<lparr>it_page_id = p, it_value = lf_array l ! (i + 1)\<rparr>"
  using assms key_index_from_nth[of "lf_array l" i]
  by (simp add: It_Inc_def get_leaf_def leaf_defs leaf_sorted_def)

lemma It_Inc_last:
  assumes "st p = Some (LeafNode l)" "leaf_sorted l" "i + 1 = length (lf_array l)"
  shows "It_Inc st \<lparr>it_page_id = p, it_value = lf_array l ! i\<rparr> =
           (if lf_next_page_id l = INVALID_PAGE_ID \<or> st (lf_next_page_id l) = None
            then Some \<lparr>it_page_id = lf_next_page_id l, it_value = lf_array l ! i\<rparr>
            else map_option (\<lambda>node2. \<lparr>it_page_id = lf_next_page_id l, it_value = Leaf_GetItem node2 0\<rparr>)
                   (get_leaf st (lf_next_page_id l)))"
  using assms key_index_from_nth[of "lf_array l" i]
  by (auto simp: It_Inc_def get_leaf_def leaf_defs leaf_sorted_def Let_def split: option.splits bt_node.splits)


section \<open>Walking a chain of leaves\<close>

lemma leaf_chain_ConsD:
  "leaf_chain st (p # ps) \<Longrightarrow>
   \<exists>l. st p = Some (LeafNode l) \<and> p \<noteq> INVALID_PAGE_ID \<and> leaf_sorted l \<and> lf_array l \<noteq> [] \<and>
       leaf_positions st p = map (\<lambda>e. \<lparr>it_page_id = p, it_value = e\<rparr>) (lf_array l) \<and>
       (ps = [] \<longrightarrow> lf_next_page_id l = INVALID_PAGE_ID) \<and>
       (ps \<noteq> [] \<longrightarrow> lf_next_page_id l = hd ps \<and> leaf_chain st ps)"
  by (cases ps) (auto simp: leaf_positions_def split: option.splits bt_node.splits)

lemma chain_positions_Nil [simp]: "chain_positions st [] = []"
  by (simp add: chain_positions_def)

lemma chain_positions_Cons [simp]: "chain_positions st (p # ps) = leaf_positions st p @ chain_positions st ps"
  by (simp add: chain_positions_def)

lemma chain_positions_ne: "leaf_chain st ps \<Longrightarrow> chain_positions st ps \<noteq> []"
  by (cases ps) (auto dest: leaf_chain_ConsD)

lemma chain_positions_valid:
  "leaf_chain st ps \<Longrightarrow> i < length (chain_positions st ps) \<Longrightarrow> it_page_id (chain_positions st ps ! i) \<noteq> INVALID_PAGE_ID"
proof (induction ps arbitrary: i)
  case (Cons p ps)
  obtain l where l: "st p = Some (LeafNode l)" "p \<noteq> INVALID_PAGE_ID" "leaf_sorted l" "lf_array l \<noteq> []"
    "leaf_positions st p = map (\<lambda>e. \<lparr>it_page_id = p, it_value = e\<rparr>) (lf_array l)"
    "ps = [] \<longrightarrow> lf_next_page_id l = INVALID_PAGE_ID" "ps \<noteq> [] \<longrightarrow> lf_next_page_id l = hd ps \<and> leaf_chain st ps"
    using leaf_chain_ConsD[OF Cons.prems(1)] by blast
  show ?case
  proof (cases "i < length (lf_array l)")
    case True
    then show ?thesis using l by (simp add: nth_append)
  next
    case False
    then show ?thesis using l Cons.IH[of "i - length (lf_array l)"] Cons.prems(2)
      by (cases "ps = []") (auto simp: nth_append)
  qed
qed simp

text \<open>One increment moves to the next position of the chain; from the last one
  it moves to \<open>INVALID_PAGE_ID\<close>, keeping the pair.\<close>

lemma chain_step:
  "leaf_chain st ps \<Longrightarrow> i + 1 < length (chain_positions st ps) \<Longrightarrow>
   It_Inc st (chain_positions st ps ! i) = Some (chain_positions st ps ! (i + 1))"
proof (induction ps arbitrary: i)
  case (Cons p ps)
  obtain l where l: "st p = Some (LeafNode l)" "leaf_sorted l" "lf_array l \<noteq> []"
    "leaf_positions st p = map (\<lambda>e. \<lparr>it_page_id = p, it_value = e\<rparr>) (lf_array l)"
    "ps = [] \<longrightarrow> lf_next_page_id l = INVALID_PAGE_ID" "ps \<noteq> [] \<longrightarrow> lf_next_page_id l = hd ps \<and> leaf_chain st ps"
    using leaf_chain_ConsD[OF Cons.prems(1)] by blast
  let ?n = "length (lf_array l)"
  consider (inside) "i + 1 < ?n" | (last) "i + 1 = ?n" | (later) "?n < i + 1" by linarith
  then show ?case
  proof cases
    case inside
    then show ?thesis using It_Inc_inside[of st p l i] l(1,2,4) by (simp add: nth_append)
  next
    case last
    then have ps: "ps \<noteq> []" using Cons.prems(2) l(4,5) by auto
    then obtain q qs where q: "ps = q # qs" by (cases ps) auto
    obtain lq where lq: "st q = Some (LeafNode lq)" "q \<noteq> INVALID_PAGE_ID" "lf_array lq \<noteq> []"
      "leaf_positions st q = map (\<lambda>e. \<lparr>it_page_id = q, it_value = e\<rparr>) (lf_array lq)"
      using leaf_chain_ConsD[of st q qs] l(6) ps q by auto
    show ?thesis using It_Inc_last[of st p l i] l(1,2,4,6) lq q last
      by (simp add: nth_append get_leaf_def Leaf_GetItem_def hd_conv_nth)
  next
    case later
    then have ps: "ps \<noteq> []" using Cons.prems(2) l(4,5) by auto
    show ?thesis using Cons.IH[of "i - ?n"] Cons.prems(2) l(4,6) ps later
      by (simp add: nth_append Suc_diff_le)
  qed
qed simp

lemma chain_step_last:
  "leaf_chain st ps \<Longrightarrow>
   It_Inc st (last (chain_positions st ps)) =
     Some \<lparr>it_page_id = INVALID_PAGE_ID, it_value = it_value (last (chain_positions st ps))\<rparr>"
proof (induction ps)
  case (Cons p ps)
  obtain l where l: "st p = Some (LeafNode l)" "leaf_sorted l" "lf_array l \<noteq> []"
    "leaf_positions st p = map (\<lambda>e. \<lparr>it_page_id = p, it_value = e\<rparr>) (lf_array l)"
    "ps = [] \<longrightarrow> lf_next_page_id l = INVALID_PAGE_ID" "ps \<noteq> [] \<longrightarrow> lf_next_page_id l = hd ps \<and> leaf_chain st ps"
    using leaf_chain_ConsD[OF Cons.prems(1)] by blast
  show ?case
  proof (cases "ps = []")
    case True
    have "last (lf_array l) = lf_array l ! (length (lf_array l) - 1)" using l(3) by (simp add: last_conv_nth)
    then show ?thesis using It_Inc_last[of st p l "length (lf_array l) - 1"] l True
      by (simp add: last_map)
  next
    case False
    then show ?thesis using Cons.IH l(6) chain_positions_ne[of st ps] by simp
  qed
qed simp

lemma it_advance_nth:
  "leaf_chain st ps \<Longrightarrow> j + n < length (chain_positions st ps) \<Longrightarrow>
   it_advance st n (chain_positions st ps ! j) = Some (chain_positions st ps ! (j + n))"
  by (induction n arbitrary: j) (simp_all add: chain_step)

lemma it_advance_add: "it_advance st (m + n) it = do { it1 \<leftarrow> it_advance st m it; it_advance st n it1 }"
  by (induction m arbitrary: it) (simp_all add: Option.bind_assoc cong: Option.bind_cong)

text \<open>Walking a chain of linked, sorted, non-empty leaves from its first
  pair, the i-th increment of the iterator is at the chain's i-th pair, each of
  these positions differs from any iterator with page \<open>INVALID_PAGE_ID\<close>, and
  after as many increments as there are pairs the iterator is at
  \<open>INVALID_PAGE_ID\<close> with the last pair, which is what \<open>End()\<close> yields: a loop
  \<open>for (it = Begin(); it != End(); ++it)\<close> visits every pair once, in order,
  and stops.\<close>

theorem It_walk_chain:
  assumes "leaf_chain st ps"
  shows "(\<forall>i < length (chain_positions st ps).
            it_advance st i (hd (chain_positions st ps)) = Some (chain_positions st ps ! i) \<and>
            It_Neq (chain_positions st ps ! i) \<lparr>it_page_id = INVALID_PAGE_ID, it_value = v\<rparr>) \<and>
         it_advance st (length (chain_positions st ps)) (hd (chain_positions st ps)) =
           Some \<lparr>it_page_id = INVALID_PAGE_ID, it_value = it_value (last (chain_positions st ps))\<rparr>"
proof -
  let ?its = "chain_positions st ps"
  have ne: "?its \<noteq> []" using chain_positions_ne[OF assms] .
  have walk: "it_advance st i (hd ?its) = Some (?its ! i)" if "i < length ?its" for i
    using it_advance_nth[OF assms, of 0 i] that ne by (simp add: hd_conv_nth)
  have "it_advance st (length ?its) (hd ?its) = it_advance st ((length ?its - 1) + 1) (hd ?its)"
    using ne by simp
  also have "\<dots> = It_Inc st (last ?its)"
    unfolding it_advance_add using walk[of "length ?its - 1"] ne
    by (simp add: last_conv_nth cong: Option.bind_cong)
  finally have "it_advance st (length ?its) (hd ?its) = It_Inc st (last ?its)" .
  then show ?thesis
    using walk chain_step_last[OF assms] chain_positions_valid[OF assms] by (simp add: It_Neq_def It_Eq_def)
qed


lemma It_walk_chain_witness:
  "it_advance [2 \<mapsto> LeafNode \<lparr>lf_page_id = 2, lf_parent_page_id = 1, lf_max_size = 4, lf_next_page_id = 3,
                              lf_array = [(1::int, 10::int), (3, 30)]\<rparr>,
               3 \<mapsto> LeafNode \<lparr>lf_page_id = 3, lf_parent_page_id = 1, lf_max_size = 4, lf_next_page_id = -1,
                              lf_array = [(5, 50)]\<rparr>] 3
     \<lparr>it_page_id = 2, it_value = (1, 10)\<rparr> = Some \<lparr>it_page_id = -1, it_value = (5, 50)\<rparr>"
proof -
  define st :: "(int, int) page_store" where "st =
     [2 \<mapsto> LeafNode \<lparr>lf_page_id = 2, lf_parent_page_id = 1, lf_max_size = 4, lf_next_page_id = 3,
                     lf_array = [(1, 10), (3, 30)]\<rparr>,
      3 \<mapsto> LeafNode \<lparr>lf_page_id = 3, lf_parent_page_id = 1, lf_max_size = 4, lf_next_page_id = -1,
                     lf_array = [(5, 50)]\<rparr>]"
  have "leaf_chain st [2, 3]" by (simp add: st_def leaf_sorted_def INVALID_PAGE_ID_def)
  from It_walk_chain[OF this, of undefined] show ?thesis
    by (simp add: st_def leaf_positions_def INVALID_PAGE_ID_def numeral_3_eq_3)
qed

section \<open>Begin(key)\<close>

lemma bt_begin_key_loop_content:
  "bt_content h st p par lo hi = Some kvs \<Longrightarrow> in_range lo hi key \<Longrightarrow>
   \<exists>q l. st q = Some (LeafNode l) \<and> leaf_sorted l \<and> map_of (lf_array l) key = map_of kvs key \<and>
         bt_begin_key_loop st key p = IndexIterator st q (Leaf_KeyIndex key l)"
proof (induction h arbitrary: p par lo hi kvs)
  case 0
  obtain l where "st p = Some (LeafNode l)" "leaf_sorted l" "kvs = lf_array l"
    using bt_content_0D[OF "0.prems"(1)] by blast
  then show ?case by (intro exI[of _ p] exI[of _ l]) (simp add: bt_begin_key_loop.simps)
next
  case (Suc h)
  then obtain n lo' hi' kvs' where "st p = Some (InternalNode n)"
    "bt_content h st (Int_Lookup key n) p lo' hi' = Some kvs'" "in_range lo' hi' key"
    "map_of kvs' key = map_of kvs key"
    using bt_content_descend by metis
  then show ?case using Suc.IH[of "Int_Lookup key n" p lo' hi' kvs'] by (auto simp: bt_begin_key_loop.simps)
qed

lemma key_index_from_found:
  "sorted_wrt (<) (map fst xs) \<Longrightarrow> map_of xs key = Some v \<Longrightarrow> xs ! key_index_from key xs = (key, v)"
proof -
  assume s: "sorted_wrt (<) (map fst xs)" and m: "map_of xs key = Some v"
  then obtain i where i: "i < length xs" "xs ! i = (key, v)"
    using map_of_SomeD[OF m] by (auto simp: in_set_conv_nth)
  then show ?thesis using key_index_from_nth[OF s i(1)] by simp
qed

text \<open>On a well-formed tree, \<open>Begin(key)\<close> descends to the leaf whose key
  range holds the key, and when the tree stores the key the iterator it returns
  is at the key's pair.\<close>

theorem BT_Begin_key_found:
  assumes "bt_wf t h kvs" and "map_of kvs key = Some v"
  shows "\<exists>it. BT_Begin_key key t = Some it \<and> It_Deref it = (key, v)"
proof -
  obtain q l where l: "bt_store t q = Some (LeafNode l)" "leaf_sorted l" "map_of (lf_array l) key = Some v"
    "bt_begin_key_loop (bt_store t) key (root_page_id t) = IndexIterator (bt_store t) q (Leaf_KeyIndex key l)"
    using bt_begin_key_loop_content[of h "bt_store t" "root_page_id t" INVALID_PAGE_ID None None kvs key]
          assms by (auto simp: bt_wf_def in_range_def)
  then show ?thesis
    using key_index_from_found[of "lf_array l" key v]
    by (simp add: BT_Begin_key_def IndexIterator_def get_leaf_def It_Deref_def Leaf_GetItem_def
                  Leaf_KeyIndex_def leaf_sorted_def)
qed

lemma BT_Begin_key_found_witness:
  "BT_Begin_key (3::int)
     \<lparr>index_id = 0, root_page_id = 1, leaf_max_size = 4, internal_max_size = 4,
      bt_store = [1 \<mapsto> InternalNode \<lparr>ip_page_id = 1, ip_parent_page_id = -1, ip_max_size = 4,
                                     ip_array = [(0, 2), (5, 3)]\<rparr>,
                  2 \<mapsto> LeafNode \<lparr>lf_page_id = 2, lf_parent_page_id = 1, lf_max_size = 4, lf_next_page_id = 3,
                                 lf_array = [(1, 10::int), (3, 30)]\<rparr>,
                  3 \<mapsto> LeafNode \<lparr>lf_page_id = 3, lf_parent_page_id = 1, lf_max_size = 4, lf_next_page_id = -1,
                                 lf_array = [(5, 50), (7, 70)]\<rparr>],
      index_roots = [0 \<mapsto> 1], bt_next_page_id = 4\<rparr> \<noteq> None"
proof -
  define t :: "(int, int) bplus_tree" where "t =
     \<lparr>index_id = 0, root_page_id = 1, leaf_max_size = 4, internal_max_size = 4,
      bt_store = [1 \<mapsto> InternalNode \<lparr>ip_page_id = 1, ip_parent_page_id = -1, ip_max_size = 4,
                                     ip_array = [(0, 2), (5, 3)]\<rparr>,
                  2 \<mapsto> LeafNode \<lparr>lf_page_id = 2, lf_parent_page_id = 1, lf_max_size = 4, lf_next_page_id = 3,
                                 lf_array = [(1, 10::int), (3, 30)]\<rparr>,
                  3 \<mapsto> LeafNode \<lparr>lf_page_id = 3, lf_parent_page_id = 1, lf_max_size = 4, lf_next_page_id = -1,
                                 lf_array = [(5, 50), (7, 70)]\<rparr>],
      index_roots = [0 \<mapsto> 1], bt_next_page_id = 4\<rparr>"
  have "bt_wf t 1 [(1, 10), (3, 30), (5, 50), (7, 70)]"
    by (simp add: t_def bt_wf_def child_bounds_def in_range_def leaf_sorted_def INVALID_PAGE_ID_def)
  from BT_Begin_key_found[OF this, of 3 30] show ?thesis by (auto simp: t_def)
qed

end
