(* ===== verification/Record_Layer.thy ===== *)
theory Record_Layer
  imports Prelude "HOL-Library.Monad_Syntax"
begin

text \<open>
  The record layer of \<^verbatim>\<open>src/src/record\<close>: columns (\<^verbatim>\<open>column.cpp\<close>), schemas
  (\<^verbatim>\<open>schema.cpp\<close>) and rows (\<^verbatim>\<open>row.cpp\<close>) with their serialisation to a
  byte buffer.  A buffer is a byte list; \<open>MACH_WRITE_TO(T, ...)\<close> appends the
  little-endian image of \<open>sizeof(T)\<close> bytes (\<open>uint32_t\<close>, the \<open>TypeId\<close> enum:
  4; \<open>size_t\<close>: 8; \<open>bool\<close>: 1), and \<open>MACH_READ_FROM\<close> reads it back from an
  offset.  The type ids, the magic numbers and the \<open>Field\<close> class live in
  headers and sources outside src: the type ids follow the spec, the magic
  numbers are fixed constants (no theorem depends on their values) and fields
  are used through an interface record (\<open>field_iface\<close>) whose round trip is a
  hypothesis of the row round trip.  \<open>Column::DeserializeFrom\<close> copies the
  name into a fresh \<open>char[str_len]\<close> and builds a \<open>std::string\<close> from it,
  which reads up to the first zero byte, past the copy into the heap; the heap
  bytes after the copy are a parameter \<open>junk\<close>.  Undefined behaviour
  (an out-of-range enum value, an uninitialised pointer) is \<open>None\<close>.
\<close>

section \<open>Buffers\<close>

definition MACH_READ_FROM :: "nat \<Rightarrow> byte list \<Rightarrow> nat \<Rightarrow> 'a::len word" where
  "MACH_READ_FROM n buf off = le_word (take n (drop off buf))"

definition write_bool :: "bool \<Rightarrow> byte list" where
  "write_bool b = [if b then 1 else 0]"

section \<open>Columns\<close>

datatype TypeId = kTypeInvalid | kTypeInt | kTypeFloat | kTypeChar

definition TypeId_code :: "TypeId \<Rightarrow> 32 word" where
  "TypeId_code t = (case t of kTypeInvalid \<Rightarrow> 0 | kTypeInt \<Rightarrow> 1 | kTypeFloat \<Rightarrow> 2 | kTypeChar \<Rightarrow> 3)"

definition TypeId_of_code :: "32 word \<Rightarrow> TypeId option" where
  "TypeId_of_code w =
     (if w = 0 then Some kTypeInvalid else if w = 1 then Some kTypeInt else if w = 2 then Some kTypeFloat
      else if w = 3 then Some kTypeChar else None)"

definition COLUMN_MAGIC_NUM :: "32 word" where "COLUMN_MAGIC_NUM = 210928"
definition SCHEMA_MAGIC_NUM :: "32 word" where "SCHEMA_MAGIC_NUM = 200715"
definition ROW_MAGIC_NUM :: "32 word" where "ROW_MAGIC_NUM = 200619"

record column =
  col_name :: "byte list"
  col_type :: TypeId
  col_len :: "32 word"
  col_table_ind :: "32 word"
  col_nullable :: bool
  col_unique :: bool

text \<open>The two constructors: fixed-size types (\<open>ASSERT\<close>s reject \<open>CHAR\<close> and
  unsupported types) and \<open>CHAR\<close> with an explicit length.\<close>

definition Column :: "byte list \<Rightarrow> TypeId \<Rightarrow> 32 word \<Rightarrow> bool \<Rightarrow> bool \<Rightarrow> column option" where
  "Column name type index nullable unique =
     (if type = kTypeChar then None
      else case type of
        kTypeInt \<Rightarrow> Some \<lparr>col_name = name, col_type = type, col_len = 4, col_table_ind = index,
                           col_nullable = nullable, col_unique = unique\<rparr>
      | kTypeFloat \<Rightarrow> Some \<lparr>col_name = name, col_type = type, col_len = 4, col_table_ind = index,
                             col_nullable = nullable, col_unique = unique\<rparr>
      | _ \<Rightarrow> None)"

definition Column_char :: "byte list \<Rightarrow> TypeId \<Rightarrow> 32 word \<Rightarrow> 32 word \<Rightarrow> bool \<Rightarrow> bool \<Rightarrow> column option" where
  "Column_char name type len index nullable unique =
     (if type \<noteq> kTypeChar then None
      else Some \<lparr>col_name = name, col_type = type, col_len = len, col_table_ind = index,
                 col_nullable = nullable, col_unique = unique\<rparr>)"

definition Column_SerializeTo :: "column \<Rightarrow> byte list" where
  "Column_SerializeTo c =
     le_bytes 4 COLUMN_MAGIC_NUM @ le_bytes 4 (col_len c) @ le_bytes 4 (col_table_ind c) @
     le_bytes 4 (TypeId_code (col_type c)) @ write_bool (col_nullable c) @ write_bool (col_unique c) @
     le_bytes 8 (of_nat (length (col_name c)) :: 64 word) @ col_name c"

definition Column_GetSerializedSize :: "column \<Rightarrow> nat" where
  "Column_GetSerializedSize c = 3 * 4 + 4 + 2 * 1 + 8 + length (col_name c)"

text \<open>The result is \<open>None\<close> on undefined behaviour, \<open>Some (0, None)\<close> when the
  magic number does not match (the output pointer is not assigned), and
  \<open>Some (offset, Some column)\<close> otherwise.\<close>

definition Column_DeserializeFrom :: "byte list \<Rightarrow> byte list \<Rightarrow> (nat \<times> column option) option" where
  "Column_DeserializeFrom buf junk =
     (let magic_num = (MACH_READ_FROM 4 buf 0 :: 32 word) in
      if magic_num = COLUMN_MAGIC_NUM then
        (let len = (MACH_READ_FROM 4 buf 4 :: 32 word);
             table_ind = (MACH_READ_FROM 4 buf 8 :: 32 word);
             nullable = (MACH_READ_FROM 1 buf 16 :: 8 word) \<noteq> 0;
             unique = (MACH_READ_FROM 1 buf 17 :: 8 word) \<noteq> 0;
             str_len = unat (MACH_READ_FROM 8 buf 18 :: 64 word);
             name1 = take str_len (drop 26 buf);
             name = takeWhile (\<lambda>b. b \<noteq> 0) (name1 @ junk);
             tot_offset = 26 + str_len
         in do { type \<leftarrow> TypeId_of_code (MACH_READ_FROM 4 buf 12);
                 column \<leftarrow> (if type = kTypeChar then Column_char name type len table_ind nullable unique
                            else Column name type table_ind nullable unique);
                 Some (tot_offset, Some column) })
      else Some (0, None))"

text \<open>A column as the constructors make it: \<open>CHAR\<close> with any length, or a
  4-byte \<open>INT\<close> or \<open>FLOAT\<close>.\<close>

definition column_ok :: "column \<Rightarrow> bool" where
  "column_ok c \<longleftrightarrow> col_type c = kTypeChar \<or> (col_type c \<in> {kTypeInt, kTypeFloat} \<and> col_len c = 4)"

section \<open>Schemas\<close>

record schema =
  sch_columns :: "column list"

definition Schema_SerializeTo :: "schema \<Rightarrow> byte list" where
  "Schema_SerializeTo sch =
     le_bytes 4 SCHEMA_MAGIC_NUM @ le_bytes 8 (of_nat (length (sch_columns sch)) :: 64 word) @
     concat (map Column_SerializeTo (sch_columns sch))"

definition Schema_GetSerializedSize :: "schema \<Rightarrow> nat" where
  "Schema_GetSerializedSize sch = 4 + 8 + sum_list (map Column_GetSerializedSize (sch_columns sch))"

text \<open>The loop of \<open>Schema::DeserializeFrom\<close>: each column is read at the running
  offset, with its own heap bytes \<open>junks i\<close> after the name copy, and the
  pointer \<open>tmp\<close> is pushed whether or not it was assigned: after a failed read
  it still holds the previous column (or is uninitialised: \<open>None\<close>).\<close>

fun schema_des_loop ::
  "nat \<Rightarrow> byte list \<Rightarrow> (nat \<Rightarrow> byte list) \<Rightarrow> nat \<Rightarrow> nat \<Rightarrow> column option \<Rightarrow> (nat \<times> column list) option" where
  "schema_des_loop 0 buf junks i tot_offset tmp = Some (tot_offset, [])"
| "schema_des_loop (Suc k) buf junks i tot_offset tmp =
     do { (n, c) \<leftarrow> Column_DeserializeFrom (drop tot_offset buf) (junks i);
          let tmp1 = (case c of Some col \<Rightarrow> Some col | None \<Rightarrow> tmp);
          col \<leftarrow> tmp1;
          (off, cols) \<leftarrow> schema_des_loop k buf junks (i + 1) (tot_offset + n) tmp1;
          Some (off, col # cols) }"

definition Schema_DeserializeFrom :: "byte list \<Rightarrow> (nat \<Rightarrow> byte list) \<Rightarrow> (nat \<times> schema option) option" where
  "Schema_DeserializeFrom buf junks =
     (let magic_num = (MACH_READ_FROM 4 buf 0 :: 32 word) in
      if magic_num = SCHEMA_MAGIC_NUM then
        do { (off, columns) \<leftarrow> schema_des_loop (unat (MACH_READ_FROM 8 buf 4 :: 64 word)) buf junks 0 12 None;
             Some (off, Some \<lparr>sch_columns = columns\<rparr>) }
      else Some (0, None))"

text \<open>A schema the format can carry: well-formed columns whose names have no
  zero byte, and lengths that fit the 8-byte counters.\<close>

definition schema_ok :: "schema \<Rightarrow> bool" where
  "schema_ok sch \<longleftrightarrow>
     (\<forall>c \<in> set (sch_columns sch). column_ok c \<and> 0 \<notin> set (col_name c) \<and> length (col_name c) < 2 ^ 64) \<and>
     length (sch_columns sch) < 2 ^ 64"

section \<open>Rows\<close>

text \<open>\<open>Field\<close> (\<^verbatim>\<open>field.h\<close>, \<^verbatim>\<open>types.cpp\<close>, not under src) as the row uses it.\<close>

record 'f field_iface =
  fld_SerializeTo :: "'f \<Rightarrow> byte list"
  fld_GetSerializedSize :: "'f \<Rightarrow> nat"
  fld_IsNull :: "'f \<Rightarrow> bool"
  fld_DeserializeFrom :: "byte list \<Rightarrow> TypeId \<Rightarrow> bool \<Rightarrow> (nat \<times> 'f) option"

record row_id =
  rid_page_id :: page_id
  rid_slot :: "32 word"

definition RowId_SerializeTo :: "row_id \<Rightarrow> byte list" where
  "RowId_SerializeTo rid = le_bytes 4 (word_of_int (rid_page_id rid) :: 32 word) @ le_bytes 4 (rid_slot rid)"

record 'f row =
  row_rid :: row_id
  row_fields :: "'f list"

text \<open>The null bitmap: \<open>size / 8 + 1\<close> zeroed bytes, and for each field that is
  not null, \<open>bitmap[i / 8] += 1 << (i % 8)\<close> in 8-bit arithmetic.\<close>

definition row_null_bitmap :: "('f \<Rightarrow> bool) \<Rightarrow> 'f list \<Rightarrow> byte list" where
  "row_null_bitmap is_null fs =
     fold (\<lambda>i bitmap. if \<not> is_null (fs ! i) then bitmap[i div 8 := bitmap ! (i div 8) + push_bit (i mod 8) 1]
                      else bitmap)
          [0..<length fs] (replicate (length fs div 8 + 1) 0)"

definition Row_SerializeTo :: "'f field_iface \<Rightarrow> 'f row \<Rightarrow> byte list" where
  "Row_SerializeTo fi r =
     le_bytes 4 ROW_MAGIC_NUM @ le_bytes 8 (of_nat (length (row_fields r)) :: 64 word) @
     RowId_SerializeTo (row_rid r) @ row_null_bitmap (fld_IsNull fi) (row_fields r) @
     concat (map (fld_SerializeTo fi) (row_fields r))"

definition Row_GetSerializedSize :: "'f field_iface \<Rightarrow> 'f row \<Rightarrow> nat" where
  "Row_GetSerializedSize fi r =
     4 + 8 + 8 + (length (row_fields r) div 8 + 1) + sum_list (map (fld_GetSerializedSize fi) (row_fields r))"

text \<open>The field loop of \<open>Row::DeserializeFrom\<close>: field \<open>i\<close> is null when its bit
  is clear, and is read with the type of the schema's column \<open>i\<close> (a column the
  schema does not have is undefined behaviour).\<close>

fun row_des_loop ::
  "'f field_iface \<Rightarrow> byte list \<Rightarrow> column list \<Rightarrow> byte list \<Rightarrow> nat \<Rightarrow> nat \<Rightarrow> nat \<Rightarrow> (nat \<times> 'f list) option" where
  "row_des_loop fi buf cols bitmap i 0 tot_offset = Some (tot_offset, [])"
| "row_des_loop fi buf cols bitmap i (Suc k) tot_offset =
     (if length cols \<le> i then None
      else do { let is_null = (bitmap ! (i div 8) AND push_bit (i mod 8) 1 = 0);
                (n, f) \<leftarrow> fld_DeserializeFrom fi (drop tot_offset buf) (col_type (cols ! i)) is_null;
                (off, fs) \<leftarrow> row_des_loop fi buf cols bitmap (i + 1) k (tot_offset + n);
                Some (off, f # fs) })"

text \<open>The method overwrites the row it is called on; on a wrong magic number it
  returns 0 and leaves the row as it was.\<close>

definition Row_DeserializeFrom :: "'f field_iface \<Rightarrow> byte list \<Rightarrow> schema \<Rightarrow> 'f row \<Rightarrow> (nat \<times> 'f row) option" where
  "Row_DeserializeFrom fi buf sch r =
     (let magic_num = (MACH_READ_FROM 4 buf 0 :: 32 word) in
      if magic_num = ROW_MAGIC_NUM then
        (let size_of_fields = unat (MACH_READ_FROM 8 buf 4 :: 64 word);
             row_id = \<lparr>rid_page_id = sint (MACH_READ_FROM 4 buf 12 :: 32 word),
                       rid_slot = MACH_READ_FROM 4 buf 16\<rparr>;
             size_of_bitmap = size_of_fields div 8 + 1;
             bitmap = map (\<lambda>i. MACH_READ_FROM 1 buf (20 + i)) [0..<size_of_bitmap]
         in do { (off, fields) \<leftarrow> row_des_loop fi buf (sch_columns sch) bitmap 0 size_of_fields (20 + size_of_bitmap);
                 Some (off, r\<lparr>row_rid := row_id, row_fields := fields\<rparr>) })
      else Some (0, r))"

section \<open>Reading back what was written\<close>

text \<open>An \<open>INT\<close> field as a 32-bit value or null, null serialised as nothing.\<close>

definition int_field :: "int option field_iface" where
  "int_field =
     \<lparr>fld_SerializeTo = (\<lambda>f. case f of None \<Rightarrow> [] | Some x \<Rightarrow> le_bytes 4 (word_of_int x :: 32 word)),
      fld_GetSerializedSize = (\<lambda>f. case f of None \<Rightarrow> 0 | Some x \<Rightarrow> 4),
      fld_IsNull = (\<lambda>f. f = None),
      fld_DeserializeFrom = (\<lambda>buf type is_null.
         if is_null then Some (0, None) else Some (4, Some (sint (le_word (take 4 buf) :: 32 word))))\<rparr>"

lemma MACH_READ_FROM_append:
  "length xs = off \<Longrightarrow> LENGTH('a) \<le> 8 * n \<Longrightarrow>
   (MACH_READ_FROM n (xs @ le_bytes n (w :: 'a::len word) @ ys) off :: 'a word) = w"
  by (simp add: MACH_READ_FROM_def)

lemma TypeId_of_code_code [simp]: "TypeId_of_code (TypeId_code t) = Some t"
  by (cases t) (simp_all add: TypeId_of_code_def TypeId_code_def)


lemma le_word_bool [simp]: "((le_word (write_bool b)) :: 8 word) = (if b then 1 else 0)"
  by (simp add: write_bool_def le_word_def)

lemma length_write_bool [simp]: "length (write_bool b) = 1"
  by (simp add: write_bool_def)

lemma unat_of_nat_64 [simp]: "n < 2 ^ 64 \<Longrightarrow> unat (of_nat n :: 64 word) = n"
  by (simp add: unat_of_nat)

lemma takeWhile_nonzero_append:
  "0 \<notin> set xs \<Longrightarrow> takeWhile (\<lambda>b. b \<noteq> 0) (xs @ junk) = xs @ takeWhile (\<lambda>b. b \<noteq> (0::byte)) junk"
  by (rule takeWhile_append2) auto

lemmas buffer_simps = MACH_READ_FROM_def drop_append take_append

lemma length_Column_SerializeTo [simp]: "length (Column_SerializeTo c) = Column_GetSerializedSize c"
  by (simp add: Column_SerializeTo_def Column_GetSerializedSize_def)

lemma Column_DeserializeFrom_SerializeTo:
  assumes "column_ok c" "0 \<notin> set (col_name c)" "length (col_name c) < 2 ^ 64"
  shows "Column_DeserializeFrom (Column_SerializeTo c @ rest) junk =
           Some (Column_GetSerializedSize c,
                 Some (c\<lparr>col_name := col_name c @ takeWhile (\<lambda>b. b \<noteq> 0) junk\<rparr>))"
  using assms
  by (cases c) (auto simp: Column_DeserializeFrom_def Column_SerializeTo_def Column_GetSerializedSize_def
                           buffer_simps takeWhile_nonzero_append column_ok_def Column_def Column_char_def
                           split: TypeId.splits)

section \<open>Properties of columns\<close>

text \<open>Deserialising a serialised column (of a kind the constructors make,
  with a name without zero bytes) consumes exactly \<open>GetSerializedSize()\<close>
  bytes and gives back the column, except for its name: the name is read from
  a copy without terminating zero, so it gets every non-zero byte the heap
  holds after the copy (\<open>junk\<close>).  The round trip holds exactly when that
  byte is zero.\<close>

theorem Column_roundtrip:
  assumes "column_ok c" "0 \<notin> set (col_name c)" "length (col_name c) < 2 ^ 64"
  shows "Column_DeserializeFrom (Column_SerializeTo c @ rest) junk =
           Some (Column_GetSerializedSize c,
                 Some (c\<lparr>col_name := col_name c @ takeWhile (\<lambda>b. b \<noteq> 0) junk\<rparr>)) \<and>
         length (Column_SerializeTo c) = Column_GetSerializedSize c"
  using Column_DeserializeFrom_SerializeTo[OF assms] by simp

lemma Column_roundtrip_witness:
  "Column_DeserializeFrom
     (Column_SerializeTo \<lparr>col_name = [97, 98], col_type = kTypeInt, col_len = 4, col_table_ind = 0,
                          col_nullable = False, col_unique = True\<rparr>) [0] =
   Some (28, Some \<lparr>col_name = [97, 98], col_type = kTypeInt, col_len = 4, col_table_ind = 0,
                   col_nullable = False, col_unique = True\<rparr>) \<and>
   Column_DeserializeFrom
     (Column_SerializeTo \<lparr>col_name = [97, 98], col_type = kTypeInt, col_len = 4, col_table_ind = 0,
                          col_nullable = False, col_unique = True\<rparr>) [99, 0] =
   Some (28, Some \<lparr>col_name = [97, 98, 99], col_type = kTypeInt, col_len = 4, col_table_ind = 0,
                   col_nullable = False, col_unique = True\<rparr>)"
  using Column_roundtrip[of "\<lparr>col_name = [97, 98], col_type = kTypeInt, col_len = 4, col_table_ind = 0,
                              col_nullable = False, col_unique = True\<rparr>" "[]" "[0]"]
        Column_roundtrip[of "\<lparr>col_name = [97, 98], col_type = kTypeInt, col_len = 4, col_table_ind = 0,
                              col_nullable = False, col_unique = True\<rparr>" "[]" "[99, 0]"]
  by (simp add: column_ok_def Column_GetSerializedSize_def)


section \<open>Properties of schemas\<close>

lemma schema_des_loop_SerializeTo:
  assumes "\<forall>c \<in> set cols. column_ok c \<and> 0 \<notin> set (col_name c) \<and> length (col_name c) < 2 ^ 64"
    and "\<forall>j < length cols. takeWhile (\<lambda>b. b \<noteq> 0) (junks (i + j)) = []"
  shows "schema_des_loop (length cols) (xs @ concat (map Column_SerializeTo cols) @ rest) junks i (length xs) tmp =
           Some (length xs + sum_list (map Column_GetSerializedSize cols), cols)"
  using assms
proof (induction cols arbitrary: xs i tmp)
  case Nil
  then show ?case by simp
next
  case (Cons c cols)
  have "takeWhile (\<lambda>b. b \<noteq> 0) (junks i) = []" using Cons.prems(2) by (metis add_0_right length_Cons zero_less_Suc)
  then have d: "Column_DeserializeFrom (drop (length xs) (xs @ concat (map Column_SerializeTo (c # cols)) @ rest)) (junks i) =
              Some (Column_GetSerializedSize c, Some c)"
    using Column_DeserializeFrom_SerializeTo[of c "concat (map Column_SerializeTo cols) @ rest" "junks i"] Cons.prems(1)
    by simp
  have j: "\<forall>j < length cols. takeWhile (\<lambda>b. b \<noteq> 0) (junks (i + 1 + j)) = []"
  proof (intro allI impI)
    fix j assume "j < length cols"
    then show "takeWhile (\<lambda>b. b \<noteq> 0) (junks (i + 1 + j)) = []" using Cons.prems(2)[rule_format, of "Suc j"] by simp
  qed
  have ih: "schema_des_loop (length cols) ((xs @ Column_SerializeTo c) @ concat (map Column_SerializeTo cols) @ rest)
              junks (i + 1) (length (xs @ Column_SerializeTo c)) (Some c) =
            Some (length (xs @ Column_SerializeTo c) + sum_list (map Column_GetSerializedSize cols), cols)"
    using Cons.IH[where xs = "xs @ Column_SerializeTo c" and i = "i + 1" and tmp = "Some c"] Cons.prems(1) j
    by (auto simp: add.assoc)
  show ?case using d ih by (simp add: add.assoc)
qed

lemma Schema_DeserializeFrom_SerializeTo:
  assumes ok: "schema_ok sch"
    and "\<forall>j < length (sch_columns sch). takeWhile (\<lambda>b. b \<noteq> 0) (junks j) = []"
  shows "Schema_DeserializeFrom (Schema_SerializeTo sch @ rest) junks = Some (Schema_GetSerializedSize sch, Some sch) \<and>
         length (Schema_SerializeTo sch) = Schema_GetSerializedSize sch"
proof -
  let ?hd = "le_bytes 4 SCHEMA_MAGIC_NUM @ le_bytes 8 (of_nat (length (sch_columns sch)) :: 64 word)"
  have "schema_des_loop (length (sch_columns sch)) (?hd @ concat (map Column_SerializeTo (sch_columns sch)) @ rest)
          junks 0 (length ?hd) None =
        Some (length ?hd + sum_list (map Column_GetSerializedSize (sch_columns sch)), sch_columns sch)"
    using schema_des_loop_SerializeTo[of "sch_columns sch" junks 0 ?hd rest None] ok assms(2)
    by (simp add: schema_ok_def)
  then show ?thesis using ok
    by (cases sch) (simp add: Schema_DeserializeFrom_def Schema_SerializeTo_def Schema_GetSerializedSize_def
                              buffer_simps length_concat comp_def schema_ok_def)
qed

text \<open>A schema of well-formed columns round-trips through its
  serialisation, consuming \<open>GetSerializedSize()\<close> bytes, when the heap byte
  after each name copy is zero (see C29).\<close>

theorem Schema_roundtrip:
  assumes "\<forall>c \<in> set (sch_columns sch). column_ok c \<and> 0 \<notin> set (col_name c) \<and> length (col_name c) < 2 ^ 64"
    and "length (sch_columns sch) < 2 ^ 64"
    and "\<forall>j < length (sch_columns sch). takeWhile (\<lambda>b. b \<noteq> 0) (junks j) = []"
  shows "Schema_DeserializeFrom (Schema_SerializeTo sch @ rest) junks = Some (Schema_GetSerializedSize sch, Some sch) \<and>
         length (Schema_SerializeTo sch) = Schema_GetSerializedSize sch"
  using Schema_DeserializeFrom_SerializeTo[of sch junks rest] assms by (simp add: schema_ok_def)


lemma Schema_roundtrip_witness:
  "Schema_DeserializeFrom
     (Schema_SerializeTo \<lparr>sch_columns = [\<lparr>col_name = [97], col_type = kTypeChar, col_len = 8, col_table_ind = 0,
                                            col_nullable = True, col_unique = False\<rparr>]\<rparr>) (\<lambda>i. [0]) =
   Some (39, Some \<lparr>sch_columns = [\<lparr>col_name = [97], col_type = kTypeChar, col_len = 8, col_table_ind = 0,
                                   col_nullable = True, col_unique = False\<rparr>]\<rparr>)"
  using Schema_roundtrip[of "\<lparr>sch_columns = [\<lparr>col_name = [97], col_type = kTypeChar, col_len = 8, col_table_ind = 0,
                                              col_nullable = True, col_unique = False\<rparr>]\<rparr>" "\<lambda>i. [0]" "[]"]
  by (simp add: column_ok_def Schema_GetSerializedSize_def Column_GetSerializedSize_def)

section \<open>The null bitmap\<close>

lemma row_null_bitmap_loop:
  assumes "m \<le> length fs"
  shows "length (fold (\<lambda>i bitmap. if \<not> is_null (fs ! i) then bitmap[i div 8 := bitmap ! (i div 8) + push_bit (i mod 8) (1::byte)]
                                  else bitmap) [0..<m] (replicate (length fs div 8 + 1) 0)) = length fs div 8 + 1 \<and>
         (\<forall>i < length fs. bit (fold (\<lambda>i bitmap. if \<not> is_null (fs ! i) then bitmap[i div 8 := bitmap ! (i div 8) + push_bit (i mod 8) (1::byte)]
                                                 else bitmap) [0..<m] (replicate (length fs div 8 + 1) 0) ! (i div 8)) (i mod 8)
                            \<longleftrightarrow> i < m \<and> \<not> is_null (fs ! i))"
  using assms
proof (induction m)
  case 0
  have "i div 8 < length fs div 8 + 1" if "i < length fs" for i
    using div_le_mono[of i "length fs" 8] that by simp
  then show ?case by (simp add: nth_replicate del: replicate.simps)
next
  case (Suc m)
  let ?f = "\<lambda>i bitmap. if \<not> is_null (fs ! i) then bitmap[i div 8 := bitmap ! (i div 8) + push_bit (i mod 8) (1::byte)]
                       else bitmap"
  let ?bm = "fold ?f [0..<m] (replicate (length fs div 8 + 1) 0)"
  have IH: "length ?bm = length fs div 8 + 1"
    "\<And>i. i < length fs \<Longrightarrow> bit (?bm ! (i div 8)) (i mod 8) \<longleftrightarrow> i < m \<and> \<not> is_null (fs ! i)"
    using Suc by auto
  have m: "m div 8 < length ?bm" using Suc.prems IH(1) by (simp add: div_le_mono le_imp_less_Suc)
  have clear: "?bm ! (m div 8) AND push_bit (m mod 8) 1 = 0"
  proof (rule bit_word_eqI)
    fix n assume "n < LENGTH(8)"
    have "bit (?bm ! (m div 8)) n \<Longrightarrow> n \<noteq> m mod 8"
    proof
      assume b: "bit (?bm ! (m div 8)) n" and n: "n = m mod 8"
      have "(8 * (m div 8) + n) div 8 = m div 8" "(8 * (m div 8) + n) mod 8 = n" using n by simp_all
      moreover have "8 * (m div 8) + n = m" using n by simp
      ultimately show False using IH(2)[of m] b Suc.prems by simp
    qed
    then show "bit (?bm ! (m div 8) AND push_bit (m mod 8) 1) n = bit 0 n" by (auto simp: bit_simps)
  qed
  show ?case
  proof (intro conjI allI impI)
    show "length (fold ?f [0..<Suc m] (replicate (length fs div 8 + 1) 0)) = length fs div 8 + 1"
      using IH(1) by simp
  next
    fix i assume i: "i < length fs"
    show "bit (fold ?f [0..<Suc m] (replicate (length fs div 8 + 1) 0) ! (i div 8)) (i mod 8) \<longleftrightarrow>
          i < Suc m \<and> \<not> is_null (fs ! i)"
    proof (cases "i div 8 = m div 8")
      case True
      have im: "i = m \<longleftrightarrow> i mod 8 = m mod 8" using True by (metis div_mod_decomp)
      show ?thesis
      proof (cases "is_null (fs ! m)")
        case True
        then show ?thesis using IH(2)[OF i] by (auto simp: less_Suc_eq)
      next
        case nn: False
        have or: "?bm ! (m div 8) + push_bit (m mod 8) 1 = ?bm ! (m div 8) OR push_bit (m mod 8) 1"
          by (rule disjunctive_add_eq_or[OF clear])
        have "fold ?f [0..<Suc m] (replicate (length fs div 8 + 1) 0) ! (i div 8) =
              ?bm ! (m div 8) OR push_bit (m mod 8) 1"
          using nn m True or by simp
        moreover have "bit (?bm ! (m div 8) OR push_bit (m mod 8) 1) (i mod 8) \<longleftrightarrow>
                       bit (?bm ! (i div 8)) (i mod 8) \<or> i mod 8 = m mod 8"
          using True by (auto simp: bit_or_iff bit_push_bit_iff bit_1_iff bit_exp_iff)
        ultimately show ?thesis using IH(2)[OF i] im nn by (auto simp: less_Suc_eq)
      qed
    next
      case False
      then have "i \<noteq> m" by auto
      then show ?thesis using IH i m False by (auto simp: nth_list_update)
    qed
  qed
qed

lemma row_null_bitmap:
  "length (row_null_bitmap is_null fs) = length fs div 8 + 1"
  "i < length fs \<Longrightarrow> (row_null_bitmap is_null fs ! (i div 8) AND push_bit (i mod 8) 1 = 0) \<longleftrightarrow> is_null (fs ! i)"
proof -
  note L = row_null_bitmap_loop[of "length fs" fs is_null, simplified]
  show "length (row_null_bitmap is_null fs) = length fs div 8 + 1" using L by (simp add: row_null_bitmap_def)
  assume i: "i < length fs"
  have "(row_null_bitmap is_null fs ! (i div 8) AND push_bit (i mod 8) 1 = 0) \<longleftrightarrow>
        \<not> bit (row_null_bitmap is_null fs ! (i div 8)) (i mod 8)"
    by (simp add: bit_iff_and_push_bit_not_eq_0)
  then show "(row_null_bitmap is_null fs ! (i div 8) AND push_bit (i mod 8) 1 = 0) \<longleftrightarrow> is_null (fs ! i)"
    using L i by (simp add: row_null_bitmap_def)
qed


section \<open>Properties of rows\<close>

lemma sint_word_of_int_32: "- (2 ^ 31) \<le> x \<Longrightarrow> x < 2 ^ 31 \<Longrightarrow> sint (word_of_int x :: 32 word) = x"
  by (simp add: sint_sbintrunc' signed_take_bit_int_eq_self)

lemma le_word_byte [simp]: "(le_word [b] :: 8 word) = b"
  by (simp add: le_word_def)

lemma read_bytes_back:
  "map (\<lambda>i. MACH_READ_FROM 1 (xs @ bm @ ys) (length xs + i) :: 8 word) [0..<length bm] = bm"
  by (rule nth_equalityI) (simp_all add: MACH_READ_FROM_def nth_append take_Suc_conv_app_nth)

text \<open>The field loop reads back the fields written after the bitmap, given that
  each field reads back with its column's type and its null flag.\<close>

lemma row_des_loop_SerializeTo:
  assumes "\<forall>f \<in> set fs. fld_GetSerializedSize fi f = length (fld_SerializeTo fi f)"
    and "\<forall>k < length fs. \<forall>rest. fld_DeserializeFrom fi (fld_SerializeTo fi (fs ! k) @ rest) (col_type (cols ! (i + k)))
                                    (fld_IsNull fi (fs ! k)) = Some (fld_GetSerializedSize fi (fs ! k), fs ! k)"
    and "i + length fs \<le> length cols"
    and "\<forall>k < length fs. (bitmap ! ((i + k) div 8) AND push_bit ((i + k) mod 8) 1 = 0) \<longleftrightarrow> fld_IsNull fi (fs ! k)"
  shows "row_des_loop fi (xs @ concat (map (fld_SerializeTo fi) fs) @ rest) cols bitmap i (length fs) (length xs) =
           Some (length xs + sum_list (map (fld_GetSerializedSize fi) fs), fs)"
  using assms
proof (induction fs arbitrary: xs i)
  case Nil
  then show ?case by simp
next
  case (Cons f fs)
  have shift: "\<forall>k < length fs. P (Suc k) \<Longrightarrow> \<forall>k < length fs. P (k + 1)" for P by simp
  have f: "fld_DeserializeFrom fi (fld_SerializeTo fi f @ concat (map (fld_SerializeTo fi) fs) @ rest)
             (col_type (cols ! i)) (bitmap ! (i div 8) AND push_bit (i mod 8) 1 = 0) =
           Some (length (fld_SerializeTo fi f), f)"
    using Cons.prems(1) Cons.prems(2)[rule_format, of 0] Cons.prems(4)[rule_format, of 0] by simp
  have ih: "row_des_loop fi ((xs @ fld_SerializeTo fi f) @ concat (map (fld_SerializeTo fi) fs) @ rest) cols bitmap
              (i + 1) (length fs) (length (xs @ fld_SerializeTo fi f)) =
            Some (length (xs @ fld_SerializeTo fi f) + sum_list (map (fld_GetSerializedSize fi) fs), fs)"
  proof (rule Cons.IH)
    show "\<forall>k < length fs. \<forall>rest. fld_DeserializeFrom fi (fld_SerializeTo fi (fs ! k) @ rest) (col_type (cols ! (i + 1 + k)))
             (fld_IsNull fi (fs ! k)) = Some (fld_GetSerializedSize fi (fs ! k), fs ! k)"
      using Cons.prems(2) by (auto dest: spec[of _ "Suc _"])
    show "\<forall>k < length fs. (bitmap ! ((i + 1 + k) div 8) AND push_bit ((i + 1 + k) mod 8) 1 = 0) \<longleftrightarrow> fld_IsNull fi (fs ! k)"
      using Cons.prems(4) by (auto dest: spec[of _ "Suc _"])
  qed (use Cons.prems in auto)
  show ?case using f ih Cons.prems(1,3) by (simp add: add.assoc)
qed

text \<open>C19: A row round-trips through its serialisation: given fields that read
  back with their schema column's type and null flag, a schema with a column for
  every field and a row id whose page id fits an \<open>int32_t\<close>,
  \<open>DeserializeFrom\<close> consumes \<open>GetSerializedSize()\<close> bytes and rebuilds the
  row, nulls included (the null bitmap it reads is the one written).  The bitmap
  takes \<open>size / 8 + 1\<close> bytes, one more than the spec's \<open>ceil(size / 8)\<close>
  when \<open>size\<close> is a multiple of 8.\<close>

theorem Row_roundtrip:
  assumes "\<forall>f \<in> set (row_fields r). fld_GetSerializedSize fi f = length (fld_SerializeTo fi f)"
    and "\<forall>k < length (row_fields r). \<forall>rest.
           fld_DeserializeFrom fi (fld_SerializeTo fi (row_fields r ! k) @ rest) (col_type (sch_columns sch ! k))
             (fld_IsNull fi (row_fields r ! k)) = Some (fld_GetSerializedSize fi (row_fields r ! k), row_fields r ! k)"
    and "length (row_fields r) \<le> length (sch_columns sch)" and "length (row_fields r) < 2 ^ 64"
    and "- (2 ^ 31) \<le> rid_page_id (row_rid r)" "rid_page_id (row_rid r) < 2 ^ 31"
  shows "Row_DeserializeFrom fi (Row_SerializeTo fi r @ rest) sch r0 = Some (Row_GetSerializedSize fi r, r) \<and>
         length (Row_SerializeTo fi r) = Row_GetSerializedSize fi r"
proof -
  let ?fs = "row_fields r"
  let ?bm = "row_null_bitmap (fld_IsNull fi) ?fs"
  let ?hd = "le_bytes 4 ROW_MAGIC_NUM @ le_bytes 8 (of_nat (length ?fs) :: 64 word) @ RowId_SerializeTo (row_rid r)"
  have len_hd: "length ?hd = 20" by (simp add: RowId_SerializeTo_def)
  have bm: "length ?bm = length ?fs div 8 + 1"
    "\<forall>k < length ?fs. (?bm ! ((0 + k) div 8) AND push_bit ((0 + k) mod 8) 1 = 0) \<longleftrightarrow> fld_IsNull fi (?fs ! k)"
    using row_null_bitmap[where is_null = "fld_IsNull fi" and fs = ?fs] by auto
  have loop: "row_des_loop fi ((?hd @ ?bm) @ concat (map (fld_SerializeTo fi) ?fs) @ rest) (sch_columns sch) ?bm 0
                (length ?fs) (length (?hd @ ?bm)) =
              Some (length (?hd @ ?bm) + sum_list (map (fld_GetSerializedSize fi) ?fs), ?fs)"
    using row_des_loop_SerializeTo[of ?fs fi "sch_columns sch" 0 ?bm "?hd @ ?bm" rest] assms(1-3) bm(2) by simp
  have rd: "map (\<lambda>i. MACH_READ_FROM 1 (?hd @ ?bm @ concat (map (fld_SerializeTo fi) ?fs) @ rest) (20 + i) :: 8 word)
              [0..<length ?fs div 8 + 1] = ?bm"
    using read_bytes_back[of ?hd ?bm "concat (map (fld_SerializeTo fi) ?fs) @ rest"] len_hd bm(1) by simp
  have sz: "length (Row_SerializeTo fi r) = Row_GetSerializedSize fi r"
    using assms(1) bm(1) by (simp add: Row_SerializeTo_def Row_GetSerializedSize_def RowId_SerializeTo_def
                                       length_concat comp_def cong: map_cong)
  show ?thesis
    using loop rd len_hd bm(1) assms(4-6) sz
    by (cases r, cases "row_rid r")
       (simp add: Row_DeserializeFrom_def Row_SerializeTo_def Row_GetSerializedSize_def RowId_SerializeTo_def
                  buffer_simps sint_word_of_int_32)
qed


lemma Row_roundtrip_witness:
  "Row_DeserializeFrom int_field
     (Row_SerializeTo int_field \<lparr>row_rid = \<lparr>rid_page_id = 3, rid_slot = 1\<rparr>, row_fields = [Some 5, None]\<rparr>)
     \<lparr>sch_columns = [\<lparr>col_name = [97], col_type = kTypeInt, col_len = 4, col_table_ind = 0, col_nullable = False, col_unique = False\<rparr>,
                     \<lparr>col_name = [98], col_type = kTypeInt, col_len = 4, col_table_ind = 1, col_nullable = True, col_unique = False\<rparr>]\<rparr>
     \<lparr>row_rid = \<lparr>rid_page_id = -1, rid_slot = 0\<rparr>, row_fields = []\<rparr> =
   Some (25, \<lparr>row_rid = \<lparr>rid_page_id = 3, rid_slot = 1\<rparr>, row_fields = [Some 5, None]\<rparr>)"
proof -
  define r :: "int option row" where "r = \<lparr>row_rid = \<lparr>rid_page_id = 3, rid_slot = 1\<rparr>, row_fields = [Some 5, None]\<rparr>"
  define sch where "sch =
     \<lparr>sch_columns = [\<lparr>col_name = [97], col_type = kTypeInt, col_len = 4, col_table_ind = 0, col_nullable = False, col_unique = False\<rparr>,
                     \<lparr>col_name = [98], col_type = kTypeInt, col_len = 4, col_table_ind = 1, col_nullable = True, col_unique = False\<rparr>]\<rparr>"
  have h1: "\<forall>f \<in> set (row_fields r). fld_GetSerializedSize int_field f = length (fld_SerializeTo int_field f)"
    by (simp add: r_def int_field_def)
  have h2: "\<forall>k < length (row_fields r). \<forall>rest.
           fld_DeserializeFrom int_field (fld_SerializeTo int_field (row_fields r ! k) @ rest) (col_type (sch_columns sch ! k))
             (fld_IsNull int_field (row_fields r ! k)) = Some (fld_GetSerializedSize int_field (row_fields r ! k), row_fields r ! k)"
    by (auto simp: r_def int_field_def less_Suc_eq sint_word_of_int_32)
  have h: "length (row_fields r) \<le> length (sch_columns sch)" "length (row_fields r) < 2 ^ 64"
    "- (2 ^ 31) \<le> rid_page_id (row_rid r)" "rid_page_id (row_rid r) < 2 ^ 31"
    by (simp_all add: r_def sch_def)
  from Row_roundtrip[OF h1 h2 h, of "[]" "\<lparr>row_rid = \<lparr>rid_page_id = -1, rid_slot = 0\<rparr>, row_fields = []\<rparr>"]
  show ?thesis by (simp add: r_def sch_def int_field_def Row_GetSerializedSize_def)
qed

end
