(* ===== verification/Table_Heap.thy ===== *)
theory Table_Heap
  imports Record_Layer
begin

text \<open>
  The table heap of \<^verbatim>\<open>src/src/storage/table_heap.cpp\<close> and its iterator
  (\<^verbatim>\<open>src/src/storage/table_iterator.cpp\<close>).  The heap is a doubly linked list
  of table pages from \<open>first_page_id_\<close>; pages are kept in a store from page id
  to page, fetched and unpinned through the pool without changing their logical
  contents (so pins are left out) and created by \<open>NewPage\<close> with the next
  page id.  A page the pool does not hold (including \<open>INVALID_PAGE_ID\<close>) is a
  \<open>nullptr\<close>.  The table page itself (\<^verbatim>\<open>table_page.cpp\<close>, not under src) is
  modelled from the spec: a slotted page whose slots hold a tuple with its
  tombstone bit, or are empty after \<open>ApplyDelete\<close>, with the free-space check
  of the spec; rows are of a type \<open>'r\<close> with a serialised size \<open>sz\<close>.  The
  page's write latch is a flag: \<open>WLatch\<close> on a latched page blocks for ever in
  a single-threaded run, which is \<open>None\<close>, as is a dereference of \<open>nullptr\<close>
  or a failed \<open>assert\<close>.
\<close>

section \<open>Table pages (spec)\<close>

definition INVALID_ROWID :: row_id where
  "INVALID_ROWID = \<lparr>rid_page_id = INVALID_PAGE_ID, rid_slot = 0\<rparr>"

record 'r table_page =
  tp_page_id :: page_id
  tp_prev_page_id :: page_id
  tp_next_page_id :: page_id
  tp_slots :: "('r \<times> bool) option list"
  tp_free_space :: nat
  tp_wlatched :: bool

text \<open>The page header is 24 bytes and a slot 8; a tuple of size \<open>s\<close> fits if
  \<open>s + 8\<close> bytes are free.\<close>

definition SIZE_TABLE_PAGE_HEADER :: nat where "SIZE_TABLE_PAGE_HEADER = 24"
definition SIZE_SLOT :: nat where "SIZE_SLOT = 8"

definition TablePage_Init :: "page_id \<Rightarrow> page_id \<Rightarrow> 'r table_page \<Rightarrow> 'r table_page" where
  "TablePage_Init page_id prev_page_id p =
     p\<lparr>tp_page_id := page_id, tp_prev_page_id := prev_page_id, tp_next_page_id := INVALID_PAGE_ID,
       tp_slots := [], tp_free_space := PAGE_SIZE - SIZE_TABLE_PAGE_HEADER\<rparr>"

definition TablePage_InsertTuple ::
  "('r \<Rightarrow> nat) \<Rightarrow> 'r \<Rightarrow> 'r table_page \<Rightarrow> (row_id \<times> 'r table_page) option" where
  "TablePage_InsertTuple sz r p =
     (if tp_free_space p < sz r + SIZE_SLOT then None
      else (let i = length (takeWhile (\<lambda>s. s \<noteq> None) (tp_slots p)) in
            if i < length (tp_slots p)
            then Some (\<lparr>rid_page_id = tp_page_id p, rid_slot = of_nat i\<rparr>,
                       p\<lparr>tp_slots := (tp_slots p)[i := Some (r, False)], tp_free_space := tp_free_space p - sz r\<rparr>)
            else Some (\<lparr>rid_page_id = tp_page_id p, rid_slot = of_nat i\<rparr>,
                       p\<lparr>tp_slots := tp_slots p @ [Some (r, False)],
                         tp_free_space := tp_free_space p - sz r - SIZE_SLOT\<rparr>)))"

definition TablePage_MarkDelete :: "row_id \<Rightarrow> 'r table_page \<Rightarrow> bool \<times> 'r table_page" where
  "TablePage_MarkDelete rid p =
     (let i = unat (rid_slot rid) in
      if i < length (tp_slots p) then
        (case tp_slots p ! i of
           Some (r, False) \<Rightarrow> (True, p\<lparr>tp_slots := (tp_slots p)[i := Some (r, True)]\<rparr>)
         | _ \<Rightarrow> (False, p))
      else (False, p))"

definition TablePage_ApplyDelete :: "('r \<Rightarrow> nat) \<Rightarrow> row_id \<Rightarrow> 'r table_page \<Rightarrow> 'r table_page" where
  "TablePage_ApplyDelete sz rid p =
     (let i = unat (rid_slot rid) in
      if i < length (tp_slots p) then
        (case tp_slots p ! i of
           Some (r, _) \<Rightarrow> p\<lparr>tp_slots := (tp_slots p)[i := None], tp_free_space := tp_free_space p + sz r\<rparr>
         | None \<Rightarrow> p)
      else p)"

definition TablePage_RollbackDelete :: "row_id \<Rightarrow> 'r table_page \<Rightarrow> 'r table_page" where
  "TablePage_RollbackDelete rid p =
     (let i = unat (rid_slot rid) in
      if i < length (tp_slots p) then
        (case tp_slots p ! i of
           Some (r, True) \<Rightarrow> p\<lparr>tp_slots := (tp_slots p)[i := Some (r, False)]\<rparr>
         | _ \<Rightarrow> p)
      else p)"

definition TablePage_GetTuple :: "row_id \<Rightarrow> 'r table_page \<Rightarrow> 'r option" where
  "TablePage_GetTuple rid p =
     (let i = unat (rid_slot rid) in
      if i < length (tp_slots p) then (case tp_slots p ! i of Some (r, False) \<Rightarrow> Some r | _ \<Rightarrow> None)
      else None)"

text \<open>An update is done in place when the new tuple is not larger than the old
  one, and fails otherwise (spec).\<close>

definition TablePage_UpdateTuple ::
  "('r \<Rightarrow> nat) \<Rightarrow> 'r \<Rightarrow> row_id \<Rightarrow> 'r table_page \<Rightarrow> 'r table_page option" where
  "TablePage_UpdateTuple sz r rid p =
     (let i = unat (rid_slot rid) in
      if i < length (tp_slots p) then
        (case tp_slots p ! i of
           Some (old, False) \<Rightarrow>
             (if sz r \<le> sz old
              then Some (p\<lparr>tp_slots := (tp_slots p)[i := Some (r, False)],
                           tp_free_space := tp_free_space p + (sz old - sz r)\<rparr>)
              else None)
         | _ \<Rightarrow> None)
      else None)"

definition live_slot :: "('r \<times> bool) option \<Rightarrow> bool" where
  "live_slot s \<longleftrightarrow> (case s of Some (_, False) \<Rightarrow> True | _ \<Rightarrow> False)"

definition TablePage_GetFirstTupleRid :: "'r table_page \<Rightarrow> row_id option" where
  "TablePage_GetFirstTupleRid p =
     (let i = length (takeWhile (\<lambda>s. \<not> live_slot s) (tp_slots p)) in
      if i < length (tp_slots p) then Some \<lparr>rid_page_id = tp_page_id p, rid_slot = of_nat i\<rparr> else None)"

definition TablePage_GetNextTupleRid :: "row_id \<Rightarrow> 'r table_page \<Rightarrow> row_id option" where
  "TablePage_GetNextTupleRid rid p =
     (let j = Suc (unat (rid_slot rid));
          i = j + length (takeWhile (\<lambda>s. \<not> live_slot s) (drop j (tp_slots p))) in
      if i < length (tp_slots p) then Some \<lparr>rid_page_id = tp_page_id p, rid_slot = of_nat i\<rparr> else None)"

definition WLatch :: "'r table_page \<Rightarrow> 'r table_page option" where
  "WLatch p = (if tp_wlatched p then None else Some (p\<lparr>tp_wlatched := True\<rparr>))"

definition WUnlatch :: "'r table_page \<Rightarrow> 'r table_page" where
  "WUnlatch p = p\<lparr>tp_wlatched := False\<rparr>"

section \<open>The heap\<close>

record 'r table_heap =
  th_first_page_id :: page_id
  th_pages :: "page_id \<rightharpoonup> 'r table_page"
  th_next_page_id :: page_id

definition th_put :: "page_id \<Rightarrow> 'r table_page \<Rightarrow> 'r table_heap \<Rightarrow> 'r table_heap" where
  "th_put pid p h = h\<lparr>th_pages := (th_pages h)(pid \<mapsto> p)\<rparr>"

text \<open>The first loop of \<open>InsertTuple\<close>: try each page from the first; the
  result is the heap and the row id the insert used, or the last page tried.\<close>

partial_function (option) th_insert_loop ::
  "('r \<Rightarrow> nat) \<Rightarrow> 'r \<Rightarrow> 'r table_heap \<Rightarrow> page_id \<Rightarrow> page_id \<Rightarrow>
   ('r table_heap \<times> (row_id + page_id)) option" where
  "th_insert_loop sz r h iter last_page_id =
     (if iter = INVALID_PAGE_ID then Some (h, Inr last_page_id)
      else do { page \<leftarrow> th_pages h iter;
                page1 \<leftarrow> WLatch page;
                (case TablePage_InsertTuple sz r page1 of
                   Some (rid, page2) \<Rightarrow> Some (th_put iter (WUnlatch page2) h, Inl rid)
                 | None \<Rightarrow> th_insert_loop sz r (th_put iter (WUnlatch page1) h) (tp_next_page_id page1) iter) })"

text \<open>A page fresh from \<open>NewPage\<close>, unlatched, before \<open>Init\<close>.\<close>

definition new_table_page :: "'r table_page" where
  "new_table_page = \<lparr>tp_page_id = INVALID_PAGE_ID, tp_prev_page_id = INVALID_PAGE_ID,
                     tp_next_page_id = INVALID_PAGE_ID, tp_slots = [], tp_free_space = 0, tp_wlatched = False\<rparr>"

text \<open>\<open>InsertTuple\<close> returns whether it reports success and the row id the
  page insert assigned to the row, if one did.  Its guard
  \<open>sizeof(row) > PAGE_SIZE\<close> compares the size of the \<open>Row\<close> object, a
  constant far below a page, so it never fires; and the result of the insert into
  the fresh page is not checked.\<close>

definition TH_InsertTuple ::
  "('r \<Rightarrow> nat) \<Rightarrow> 'r \<Rightarrow> 'r table_heap \<Rightarrow> (bool \<times> row_id option \<times> 'r table_heap) option" where
  "TH_InsertTuple sz r h =
     do { (h1, res) \<leftarrow> th_insert_loop sz r h (th_first_page_id h) INVALID_PAGE_ID;
          (case res of
             Inl rid \<Rightarrow> Some (True, Some rid, h1)
           | Inr last_page_id \<Rightarrow>
               (let insert_page_id = th_next_page_id h1;
                    h2 = h1\<lparr>th_next_page_id := insert_page_id + 1\<rparr>
                in do { h3 \<leftarrow> (if last_page_id = INVALID_PAGE_ID then Some h2
                               else case th_pages h2 last_page_id of
                                 None \<Rightarrow> Some h2
                               | Some last_page \<Rightarrow>
                                   do { lp1 \<leftarrow> WLatch last_page;
                                        Some (th_put last_page_id ((WUnlatch lp1)\<lparr>tp_next_page_id := insert_page_id\<rparr>) h2) });
                        page1 \<leftarrow> WLatch new_table_page;
                        let page2 = TablePage_Init insert_page_id last_page_id page1;
                        (case TablePage_InsertTuple sz r page2 of
                           Some (rid, page3) \<Rightarrow> Some (True, Some rid, th_put insert_page_id (WUnlatch page3) h3)
                         | None \<Rightarrow> Some (True, None, th_put insert_page_id (WUnlatch page2) h3)) })) }"

definition TH_MarkDelete :: "row_id \<Rightarrow> 'r table_heap \<Rightarrow> (bool \<times> 'r table_heap) option" where
  "TH_MarkDelete rid h =
     (case th_pages h (rid_page_id rid) of
        None \<Rightarrow> Some (False, h)
      | Some page \<Rightarrow>
          do { page1 \<leftarrow> WLatch page;
               let page2 = snd (TablePage_MarkDelete rid page1);
               Some (True, th_put (rid_page_id rid) (WUnlatch page2) h) })"

text \<open>\<open>UpdateTuple\<close> takes the write latch only after reading the old tuple, and
  when the page's update fails it returns \<open>false\<close> without releasing it.\<close>

definition TH_UpdateTuple ::
  "('r \<Rightarrow> nat) \<Rightarrow> 'r \<Rightarrow> row_id \<Rightarrow> 'r table_heap \<Rightarrow> (bool \<times> 'r table_heap) option" where
  "TH_UpdateTuple sz r rid h =
     (case th_pages h (rid_page_id rid) of
        None \<Rightarrow> Some (False, h)
      | Some page \<Rightarrow>
          (case TablePage_GetTuple rid page of
             None \<Rightarrow> Some (False, h)
           | Some old_row \<Rightarrow>
               do { page1 \<leftarrow> WLatch page;
                    (case TablePage_UpdateTuple sz r rid page1 of
                       Some page2 \<Rightarrow> Some (True, th_put (rid_page_id rid) (WUnlatch page2) h)
                     | None \<Rightarrow> Some (False, th_put (rid_page_id rid) page1 h)) }))"

definition TH_ApplyDelete :: "('r \<Rightarrow> nat) \<Rightarrow> row_id \<Rightarrow> 'r table_heap \<Rightarrow> 'r table_heap option" where
  "TH_ApplyDelete sz rid h =
     do { page \<leftarrow> th_pages h (rid_page_id rid);
          page1 \<leftarrow> WLatch page;
          Some (th_put (rid_page_id rid) (WUnlatch (TablePage_ApplyDelete sz rid page1)) h) }"

definition TH_RollbackDelete :: "row_id \<Rightarrow> 'r table_heap \<Rightarrow> 'r table_heap option" where
  "TH_RollbackDelete rid h =
     do { page \<leftarrow> th_pages h (rid_page_id rid);
          page1 \<leftarrow> WLatch page;
          Some (th_put (rid_page_id rid) (WUnlatch (TablePage_RollbackDelete rid page1)) h) }"

definition TH_GetTuple :: "row_id \<Rightarrow> 'r table_heap \<Rightarrow> bool \<times> 'r option" where
  "TH_GetTuple rid h =
     (case th_pages h (rid_page_id rid) of
        None \<Rightarrow> (False, None)
      | Some page \<Rightarrow> (case TablePage_GetTuple rid page of None \<Rightarrow> (False, None) | Some r \<Rightarrow> (True, Some r)))"

section \<open>The table iterator\<close>

text \<open>An iterator holds its row id and the row it last read (both iterators of
  a comparison belong to one heap, so the heap pointer is left out); the
  constructors start with an empty row.\<close>

record 'r table_iterator =
  ti_id :: row_id
  ti_row :: "'r option"

definition TableIterator :: "row_id \<Rightarrow> 'r table_iterator" where
  "TableIterator rid = \<lparr>ti_id = rid, ti_row = None\<rparr>"

text \<open>\<open>Begin\<close> asks the first page alone for its first tuple; the row id it
  returns stays \<open>INVALID_ROWID\<close> (the default \<open>RowId\<close>) if there is none.\<close>

definition TH_Begin :: "'r table_heap \<Rightarrow> 'r table_iterator option" where
  "TH_Begin h =
     do { page \<leftarrow> th_pages h (th_first_page_id h);
          Some (TableIterator (case TablePage_GetFirstTupleRid page of None \<Rightarrow> INVALID_ROWID | Some rid \<Rightarrow> rid)) }"

definition TH_End :: "'r table_iterator" where
  "TH_End = TableIterator INVALID_ROWID"

text \<open>\<open>operator*\<close> reads the tuple at the iterator's row id into its row; when
  the read fails the row keeps what it held.\<close>

definition TI_Deref :: "'r table_heap \<Rightarrow> 'r table_iterator \<Rightarrow> 'r table_iterator" where
  "TI_Deref h it = (case snd (TH_GetTuple (ti_id it) h) of None \<Rightarrow> it | Some r \<Rightarrow> it\<lparr>ti_row := Some r\<rparr>)"

text \<open>The page walk of \<open>operator++\<close>: from page \<open>pid\<close>, the first live
  tuple of the first page that has one, or \<open>INVALID_ROWID\<close> once a page cannot
  be fetched.\<close>

partial_function (option) ti_walk :: "'r table_heap \<Rightarrow> page_id \<Rightarrow> row_id option" where
  "ti_walk h pid =
     (case th_pages h pid of
        None \<Rightarrow> Some INVALID_ROWID
      | Some page \<Rightarrow>
          (case TablePage_GetFirstTupleRid page of
             Some rid \<Rightarrow> Some rid
           | None \<Rightarrow> ti_walk h (tp_next_page_id page)))"

definition ti_next :: "'r table_heap \<Rightarrow> row_id \<Rightarrow> row_id option" where
  "ti_next h rid =
     (case th_pages h (rid_page_id rid) of
        None \<Rightarrow> Some INVALID_ROWID
      | Some page \<Rightarrow>
          (case TablePage_GetNextTupleRid rid page of
             Some next_row_id \<Rightarrow> Some next_row_id
           | None \<Rightarrow> ti_walk h (tp_next_page_id page)))"

definition TI_Inc :: "'r table_heap \<Rightarrow> 'r table_iterator \<Rightarrow> 'r table_iterator option" where
  "TI_Inc h it = do { rid \<leftarrow> ti_next h (ti_id it); Some (it\<lparr>ti_id := rid\<rparr>) }"

text \<open>Postfix \<open>++\<close> returns a copy (with an empty row) of the iterator before
  the step.\<close>

definition TI_PostInc :: "'r table_heap \<Rightarrow> 'r table_iterator \<Rightarrow> ('r table_iterator \<times> 'r table_iterator) option" where
  "TI_PostInc h it = do { it' \<leftarrow> TI_Inc h it; Some (TableIterator (ti_id it), it') }"

definition TI_Eq :: "'r table_iterator \<Rightarrow> 'r table_iterator \<Rightarrow> bool" where
  "TI_Eq a b \<longleftrightarrow> ti_id a = ti_id b"

definition TI_Neq :: "'r table_iterator \<Rightarrow> 'r table_iterator \<Rightarrow> bool" where
  "TI_Neq a b \<longleftrightarrow> \<not> (ti_id a = ti_id b)"

text \<open>The scan every client writes,
  \<open>for (auto it = heap->Begin(); it != heap->End(); it++)\<close>, as the list of
  row ids it visits; a scan that never reaches \<open>End\<close> is \<open>None\<close>.\<close>

partial_function (option) ti_scan :: "'r table_heap \<Rightarrow> 'r table_iterator \<Rightarrow> row_id list option" where
  "ti_scan h it =
     (if TI_Neq it TH_End
      then do { (_, it') \<leftarrow> TI_PostInc h it; rest \<leftarrow> ti_scan h it'; Some (ti_id it # rest) }
      else Some [])"

definition TH_Scan :: "'r table_heap \<Rightarrow> row_id list option" where
  "TH_Scan h = do { it \<leftarrow> TH_Begin h; ti_scan h it }"

declare th_insert_loop.simps [code] ti_walk.simps [code] ti_scan.simps [code]

section \<open>Invariants and the heap's rows\<close>

text \<open>The bytes of a page are accounted for: header, one slot per slot entry
  and the tuples still stored (tombstoned ones included) use what is not free.\<close>

definition slot_size :: "('r \<Rightarrow> nat) \<Rightarrow> ('r \<times> bool) option \<Rightarrow> nat" where
  "slot_size sz s = (case s of None \<Rightarrow> 0 | Some (t, _) \<Rightarrow> sz t)"

definition tp_used :: "('r \<Rightarrow> nat) \<Rightarrow> 'r table_page \<Rightarrow> nat" where
  "tp_used sz p = sum_list (map (slot_size sz) (tp_slots p))"

definition tp_ok :: "('r \<Rightarrow> nat) \<Rightarrow> 'r table_page \<Rightarrow> bool" where
  "tp_ok sz p \<longleftrightarrow>
     tp_free_space p + SIZE_SLOT * length (tp_slots p) + tp_used sz p = PAGE_SIZE - SIZE_TABLE_PAGE_HEADER"

text \<open>\<open>th_chain h pid ps\<close>: following \<open>next_page_id\<close> from \<open>pid\<close> visits the
  fetchable pages \<open>ps\<close> and then reaches \<open>INVALID_PAGE_ID\<close>.\<close>

fun th_chain :: "'r table_heap \<Rightarrow> page_id \<Rightarrow> page_id list \<Rightarrow> bool" where
  "th_chain h pid [] \<longleftrightarrow> pid = INVALID_PAGE_ID"
| "th_chain h pid (q # qs) \<longleftrightarrow>
     q = pid \<and> pid \<noteq> INVALID_PAGE_ID \<and>
     (case th_pages h pid of None \<Rightarrow> False | Some p \<Rightarrow> th_chain h (tp_next_page_id p) qs)"

definition th_page_ok :: "('r \<Rightarrow> nat) \<Rightarrow> 'r table_heap \<Rightarrow> page_id \<Rightarrow> bool" where
  "th_page_ok sz h q \<longleftrightarrow>
     0 \<le> q \<and> q < th_next_page_id h \<and>
     (case th_pages h q of None \<Rightarrow> False
      | Some p \<Rightarrow> tp_page_id p = q \<and> \<not> tp_wlatched p \<and> tp_ok sz p)"

text \<open>A heap is well formed with page list \<open>ps\<close> when its pages form one chain
  from the first page (which the constructor creates), each page knows its id,
  is unlatched and accounts for its bytes, every page id is below the next
  one \<open>NewPage\<close> hands out, and \<open>INVALID_PAGE_ID\<close> fetches no page.\<close>

definition th_wf :: "('r \<Rightarrow> nat) \<Rightarrow> 'r table_heap \<Rightarrow> page_id list \<Rightarrow> bool" where
  "th_wf sz h ps \<longleftrightarrow>
     ps \<noteq> [] \<and> th_chain h (th_first_page_id h) ps \<and> distinct ps \<and> list_all (th_page_ok sz h) ps \<and>
     th_pages h INVALID_PAGE_ID = None"

text \<open>The live row ids of a page in slot order, and of the heap in chain order.\<close>

definition tp_live :: "'r table_page \<Rightarrow> row_id list" where
  "tp_live p = map (\<lambda>i. \<lparr>rid_page_id = tp_page_id p, rid_slot = of_nat i\<rparr>)
                  (filter (\<lambda>i. live_slot (tp_slots p ! i)) [0..<length (tp_slots p)])"

definition th_rids :: "'r table_heap \<Rightarrow> page_id list \<Rightarrow> row_id list" where
  "th_rids h ps = concat (map (\<lambda>q. case th_pages h q of None \<Rightarrow> [] | Some p \<Rightarrow> tp_live p) ps)"

text \<open>The row id an iterator holds before the rows \<open>rs\<close>: the first, or
  \<open>INVALID_ROWID\<close> (the end) if there is none.\<close>

definition rid_head :: "row_id list \<Rightarrow> row_id" where
  "rid_head rs = (case rs of [] \<Rightarrow> INVALID_ROWID | x # _ \<Rightarrow> x)"

definition th_table :: "'r table_heap \<Rightarrow> page_id list \<Rightarrow> row_id \<Rightarrow> 'r option" where
  "th_table h ps rid = (if rid_page_id rid \<in> set ps then snd (TH_GetTuple rid h) else None)"

text \<open>Whether a row id reads a tuple, and the slot positions of the pages \<open>ps\<close>
  in chain order (live or not).\<close>

definition th_live :: "'r table_heap \<Rightarrow> row_id \<Rightarrow> bool" where
  "th_live h rid \<longleftrightarrow> snd (TH_GetTuple rid h) \<noteq> None"

definition th_slots :: "'r table_heap \<Rightarrow> page_id list \<Rightarrow> row_id list" where
  "th_slots h ps = concat (map (\<lambda>q. case th_pages h q of None \<Rightarrow> []
                     | Some p \<Rightarrow> map (\<lambda>i. \<lparr>rid_page_id = q, rid_slot = of_nat i\<rparr>) [0..<length (tp_slots p)]) ps)"

text \<open>A one-page heap as the constructor leaves it, for rows whose size is their
  value.\<close>

definition th_example :: "nat table_heap" where
  "th_example = \<lparr>th_first_page_id = 0, th_pages = [0 \<mapsto> TablePage_Init 0 INVALID_PAGE_ID new_table_page],
                 th_next_page_id = 1\<rparr>"

text \<open>The same heap holding one row of size 10 in slot 0, and a two-page heap
  whose first page has only a freed slot while the second holds a row.\<close>

definition th_example_row :: "nat table_heap" where
  "th_example_row = th_example\<lparr>th_pages := [0 \<mapsto> (TablePage_Init 0 INVALID_PAGE_ID new_table_page)
                      \<lparr>tp_slots := [Some (10, False)], tp_free_space := 4054\<rparr>]\<rparr>"

definition th_example_skip :: "nat table_heap" where
  "th_example_skip = \<lparr>th_first_page_id = 0,
     th_pages = [0 \<mapsto> (TablePage_Init 0 INVALID_PAGE_ID new_table_page)\<lparr>tp_next_page_id := 1, tp_slots := [None], tp_free_space := 4064\<rparr>,
                 1 \<mapsto> (TablePage_Init 1 0 new_table_page)\<lparr>tp_slots := [Some (7, False)], tp_free_space := 4057\<rparr>],
     th_next_page_id = 2\<rparr>"

definition rid0 :: row_id where
  "rid0 = \<lparr>rid_page_id = 0, rid_slot = 0\<rparr>"

section \<open>Page lemmas\<close>

lemma tp_ok_length: "tp_ok sz p \<Longrightarrow> length (tp_slots p) < 2 ^ 32"
  by (simp add: tp_ok_def SIZE_SLOT_def PAGE_SIZE_def SIZE_TABLE_PAGE_HEADER_def)

lemma unat_slot: "i < 2 ^ 32 \<Longrightarrow> unat (of_nat i :: 32 word) = i"
  by (simp add: unat_of_nat)

lemma WLatch_unlatched [simp]: "\<not> tp_wlatched p \<Longrightarrow> WLatch p = Some (p\<lparr>tp_wlatched := True\<rparr>)"
  by (simp add: WLatch_def)

lemma WUnlatch_update [simp]: "WUnlatch (p\<lparr>tp_wlatched := b\<rparr>) = WUnlatch p"
  by (simp add: WUnlatch_def)

lemma WUnlatch_unlatched [simp]: "\<not> tp_wlatched p \<Longrightarrow> WUnlatch p = p"
  by (simp add: WUnlatch_def)

lemma sum_list_map_list_update:
  "i < length xs \<Longrightarrow> sum_list (map (f :: 'a \<Rightarrow> nat) (xs[i := x])) + f (xs ! i) = sum_list (map f xs) + f x"
  by (induction xs arbitrary: i) (auto split: nat.splits)

lemma tp_used_update:
  "i < length (tp_slots p) \<Longrightarrow>
   tp_used sz (p\<lparr>tp_slots := (tp_slots p)[i := s]\<rparr>) + slot_size sz (tp_slots p ! i) = tp_used sz p + slot_size sz s"
  unfolding tp_used_def by (simp add: sum_list_map_list_update)

text \<open>Rewriting slot \<open>i\<close> keeps the accounting when the free space moves by the
  difference of the two tuple sizes.\<close>

lemma tp_ok_slot_write:
  assumes "i < length (tp_slots p)" "tp_ok sz p" "f + slot_size sz s = tp_free_space p + slot_size sz (tp_slots p ! i)"
  shows "tp_ok sz (p\<lparr>tp_slots := (tp_slots p)[i := s], tp_free_space := f\<rparr>)"
  using assms tp_used_update[OF assms(1), of sz s] by (simp add: tp_ok_def tp_used_def)

lemma TablePage_InsertTuple_ok:
  assumes ok: "tp_ok sz p" and ins: "TablePage_InsertTuple sz r p = Some (rid, p')"
  shows "tp_ok sz p' \<and> rid_page_id rid = tp_page_id p \<and> tp_page_id p' = tp_page_id p \<and>
         tp_next_page_id p' = tp_next_page_id p \<and> tp_wlatched p' = tp_wlatched p \<and>
         TablePage_GetTuple rid p = None \<and> TablePage_GetTuple rid p' = Some r \<and>
         (\<forall>rid'. rid_slot rid' \<noteq> rid_slot rid \<longrightarrow> TablePage_GetTuple rid' p' = TablePage_GetTuple rid' p)"
proof -
  define i where "i = length (takeWhile (\<lambda>s. s \<noteq> None) (tp_slots p))"
  have fits: "sz r + SIZE_SLOT \<le> tp_free_space p"
    using ins by (auto simp: TablePage_InsertTuple_def split: if_splits)
  have len: "length (tp_slots p) < 2 ^ 32" using tp_ok_length[OF ok] .
  have il: "i \<le> length (tp_slots p)" by (simp add: i_def length_takeWhile_le)
  hence ui: "unat (of_nat i :: 32 word) = i" using len by (simp add: unat_slot)
  have neq: "unat (rid_slot rid') \<noteq> i" if "rid_slot rid' \<noteq> of_nat i" for rid' :: row_id
    using that by auto
  have nf: "\<not> tp_free_space p < sz r + SIZE_SLOT" using fits by simp
  have rid: "rid = \<lparr>rid_page_id = tp_page_id p, rid_slot = of_nat i\<rparr>"
    using ins nf unfolding TablePage_InsertTuple_def Let_def i_def[symmetric] by (auto split: if_splits)
  show ?thesis
  proof (cases "i < length (tp_slots p)")
    case True
    have none: "tp_slots p ! i = None"
      using True nth_length_takeWhile[of "\<lambda>s. s \<noteq> None" "tp_slots p"] unfolding i_def by blast
    have p': "p' = p\<lparr>tp_slots := (tp_slots p)[i := Some (r, False)], tp_free_space := tp_free_space p - sz r\<rparr>"
      using ins nf True unfolding TablePage_InsertTuple_def Let_def i_def[symmetric] by simp
    have used: "tp_used sz p' = tp_used sz p + sz r"
      using tp_used_update[OF True, of sz "Some (r, False)"] none by (simp add: p' tp_used_def slot_size_def)
    have "tp_ok sz p'" using ok fits used by (simp add: tp_ok_def p')
    moreover have "TablePage_GetTuple rid p = None" using none True ui by (simp add: TablePage_GetTuple_def rid)
    moreover have "TablePage_GetTuple rid p' = Some r" using True ui by (simp add: TablePage_GetTuple_def rid p')
    moreover have "TablePage_GetTuple rid' p' = TablePage_GetTuple rid' p" if "rid_slot rid' \<noteq> rid_slot rid" for rid'
      using neq[of rid'] that by (simp add: TablePage_GetTuple_def rid p' Let_def)
    ultimately show ?thesis by (simp add: rid p')
  next
    case False
    then have ieq: "i = length (tp_slots p)" using il by simp
    have p': "p' = p\<lparr>tp_slots := tp_slots p @ [Some (r, False)], tp_free_space := tp_free_space p - sz r - SIZE_SLOT\<rparr>"
      using ins nf False unfolding TablePage_InsertTuple_def Let_def i_def[symmetric] by simp
    have used: "tp_used sz p' = tp_used sz p + sz r" by (simp add: p' tp_used_def slot_size_def)
    have "tp_ok sz p'" using ok fits used by (simp add: tp_ok_def p')
    moreover have "TablePage_GetTuple rid p = None" using ieq ui by (simp add: TablePage_GetTuple_def rid)
    moreover have "TablePage_GetTuple rid p' = Some r" using ieq ui by (simp add: TablePage_GetTuple_def rid p')
    moreover have "TablePage_GetTuple rid' p' = TablePage_GetTuple rid' p" if "rid_slot rid' \<noteq> rid_slot rid" for rid'
      using neq[of rid'] that ieq by (simp add: TablePage_GetTuple_def rid p' Let_def nth_append)
    ultimately show ?thesis by (simp add: rid p')
  qed
qed

section \<open>Chain lemmas\<close>

lemma th_put_simps [simp]:
  "th_pages (th_put q p h) = (th_pages h)(q \<mapsto> p)"
  "th_first_page_id (th_put q p h) = th_first_page_id h"
  "th_next_page_id (th_put q p h) = th_next_page_id h"
  by (simp_all add: th_put_def)

lemma th_chain_pages: "th_pages h' = th_pages h \<Longrightarrow> th_chain h' pid ps = th_chain h pid ps"
  by (induction ps arbitrary: pid) (simp_all split: option.splits)

lemma th_chain_put_outside: "q \<notin> set ps \<Longrightarrow> th_chain (th_put q p h) pid ps = th_chain h pid ps"
  by (induction ps arbitrary: pid) (auto split: option.splits)

lemma th_chain_put_same:
  "th_pages h q = Some p0 \<Longrightarrow> tp_next_page_id p = tp_next_page_id p0 \<Longrightarrow>
   th_chain (th_put q p h) pid ps = th_chain h pid ps"
  by (induction ps arbitrary: pid) (auto split: option.splits)

lemma th_chain_mem: "th_chain h pid ps \<Longrightarrow> q \<in> set ps \<Longrightarrow> q \<noteq> INVALID_PAGE_ID \<and> th_pages h q \<noteq> None"
  by (induction ps arbitrary: pid) (auto split: option.splits)

lemma th_chain_snoc:
  assumes "th_chain h pid ps" "distinct ps" "ps \<noteq> []" "th_pages h (last ps) = Some lp" "n \<notin> set ps"
    "n \<noteq> INVALID_PAGE_ID" "tp_next_page_id np = INVALID_PAGE_ID"
  shows "th_chain (th_put n np (th_put (last ps) (lp\<lparr>tp_next_page_id := n\<rparr>) h)) pid (ps @ [n])"
  using assms
proof (induction ps arbitrary: pid)
  case (Cons q qs)
  show ?case
  proof (cases "qs = []")
    case True
    then show ?thesis using Cons.prems by auto
  next
    case False
    obtain p where p: "th_pages h pid = Some p" "q = pid" "pid \<noteq> INVALID_PAGE_ID"
      "th_chain h (tp_next_page_id p) qs"
      using Cons.prems(1) by (auto split: option.splits)
    have "q \<noteq> last qs" using Cons.prems(2) False by auto
    then show ?thesis using Cons.IH[OF p(4)] Cons.prems False p by auto
  qed
qed simp


lemma th_put_triv [simp]: "th_pages h q = Some p \<Longrightarrow> th_put q p h = h"
  by (simp add: th_put_def map_upd_triv)

lemma TablePage_InsertTuple_latch:
  "TablePage_InsertTuple sz r (p\<lparr>tp_wlatched := b\<rparr>) =
   map_option (\<lambda>(rid, p'). (rid, p'\<lparr>tp_wlatched := b\<rparr>)) (TablePage_InsertTuple sz r p)"
  by (simp add: TablePage_InsertTuple_def Let_def)

lemma TablePage_InsertTuple_wlatched:
  "TablePage_InsertTuple sz r p = Some (rid, p') \<Longrightarrow> tp_wlatched p' = tp_wlatched p"
  by (auto simp: TablePage_InsertTuple_def Let_def split: if_splits)

section \<open>The insert loop\<close>

definition th_full :: "('r \<Rightarrow> nat) \<Rightarrow> 'r \<Rightarrow> 'r table_heap \<Rightarrow> page_id \<Rightarrow> bool" where
  "th_full sz r h q \<longleftrightarrow>
     (case th_pages h q of None \<Rightarrow> False | Some p \<Rightarrow> \<not> tp_wlatched p \<and> TablePage_InsertTuple sz r p = None)"

lemma th_insert_loop_full:
  "th_chain h iter ps \<Longrightarrow> list_all (th_full sz r h) ps \<Longrightarrow>
   th_insert_loop sz r h iter lp0 = Some (h, Inr (last (lp0 # ps)))"
proof (induction ps arbitrary: iter lp0)
  case Nil
  then show ?case by (simp add: th_insert_loop.simps)
next
  case (Cons q qs)
  then obtain p where p: "th_pages h iter = Some p" "q = iter" "iter \<noteq> INVALID_PAGE_ID"
    "th_chain h (tp_next_page_id p) qs" "\<not> tp_wlatched p" "TablePage_InsertTuple sz r p = None"
    by (auto simp: th_full_def split: option.splits)
  have "list_all (th_full sz r h) qs" using Cons.prems(2) by simp
  note ih = Cons.IH[OF p(4) this, of iter]
  show ?case
    by (subst th_insert_loop.simps) (simp add: p TablePage_InsertTuple_latch ih)
qed

lemma th_insert_loop_found:
  "th_chain h iter (qs @ q # rest) \<Longrightarrow> list_all (th_full sz r h) qs \<Longrightarrow>
   th_pages h q = Some p \<Longrightarrow> \<not> tp_wlatched p \<Longrightarrow> TablePage_InsertTuple sz r p = Some (rid, p') \<Longrightarrow>
   th_insert_loop sz r h iter lp0 = Some (th_put q p' h, Inl rid)"
proof (induction qs arbitrary: iter lp0)
  case Nil
  then have "\<not> tp_wlatched p'" using TablePage_InsertTuple_wlatched by metis
  with Nil show ?case
    by (subst th_insert_loop.simps) (simp add: TablePage_InsertTuple_latch)
next
  case (Cons q' qs)
  then obtain p0 where p0: "th_pages h iter = Some p0" "q' = iter" "iter \<noteq> INVALID_PAGE_ID"
    "th_chain h (tp_next_page_id p0) (qs @ q # rest)" "\<not> tp_wlatched p0" "TablePage_InsertTuple sz r p0 = None"
    by (auto simp: th_full_def split: option.splits)
  have "list_all (th_full sz r h) qs" using Cons.prems(2) by simp
  note ih = Cons.IH[OF p0(4) this Cons.prems(3-5), of iter]
  show ?case
    by (subst th_insert_loop.simps) (simp add: p0 TablePage_InsertTuple_latch ih)
qed

section \<open>The heap's table and its invariant under page writes\<close>

lemma th_table_eq:
  "th_table h ps rid =
   (if rid_page_id rid \<in> set ps
    then (case th_pages h (rid_page_id rid) of None \<Rightarrow> None | Some p \<Rightarrow> TablePage_GetTuple rid p) else None)"
  by (simp add: th_table_def TH_GetTuple_def split: option.splits)

lemma th_page_ok_put:
  "th_page_ok sz (th_put q p h) q' =
   (if q' = q then 0 \<le> q \<and> q < th_next_page_id h \<and> tp_page_id p = q \<and> \<not> tp_wlatched p \<and> tp_ok sz p
    else th_page_ok sz h q')"
  by (simp add: th_page_ok_def)

lemma th_page_ok_next:
  "th_page_ok sz h q \<Longrightarrow> th_next_page_id h \<le> n \<Longrightarrow> th_page_ok sz (h\<lparr>th_next_page_id := n\<rparr>) q"
  by (simp add: th_page_ok_def)

lemma th_wf_page:
  "th_wf sz h ps \<Longrightarrow> q \<in> set ps \<Longrightarrow>
   \<exists>p. th_pages h q = Some p \<and> 0 \<le> q \<and> q < th_next_page_id h \<and> tp_page_id p = q \<and> \<not> tp_wlatched p \<and> tp_ok sz p"
  by (auto simp: th_wf_def th_page_ok_def list_all_iff split: option.splits)

text \<open>Writing back a page of the chain that keeps its id, link and accounting
  keeps the heap well formed.\<close>

lemma th_wf_put:
  assumes "th_wf sz h ps" "th_pages h q = Some p0" "q \<in> set ps"
    "tp_page_id p = q" "tp_next_page_id p = tp_next_page_id p0" "\<not> tp_wlatched p" "tp_ok sz p"
  shows "th_wf sz (th_put q p h) ps"
proof -
  have "0 \<le> q \<and> q < th_next_page_id h" using th_wf_page[OF assms(1,3)] by auto
  then show ?thesis using assms th_chain_put_same[OF assms(2,5)]
    by (auto simp: th_wf_def list_all_iff th_page_ok_put)
qed

lemma tp_ok_Init: "tp_ok sz (TablePage_Init pid prev p)"
  by (simp add: tp_ok_def TablePage_Init_def tp_used_def)

lemma TablePage_GetTuple_Init: "TablePage_GetTuple rid (TablePage_Init pid prev p) = None"
  by (simp add: TablePage_GetTuple_def TablePage_Init_def)

lemma TablePage_GetTuple_next [simp]:
  "TablePage_GetTuple rid (p\<lparr>tp_next_page_id := n\<rparr>) = TablePage_GetTuple rid p"
  by (simp add: TablePage_GetTuple_def Let_def)

lemma tp_ok_next [simp]: "tp_ok sz (p\<lparr>tp_next_page_id := n\<rparr>) = tp_ok sz p"
  by (simp add: tp_ok_def tp_used_def)

lemma tp_free_space_le: "tp_ok sz p \<Longrightarrow> tp_free_space p \<le> PAGE_SIZE - SIZE_TABLE_PAGE_HEADER"
  by (simp add: tp_ok_def)

section \<open>The two outcomes of \<open>InsertTuple\<close>\<close>

lemma TablePage_Init_latch:
  "TablePage_Init a b (p\<lparr>tp_wlatched := x\<rparr>) = (TablePage_Init a b p)\<lparr>tp_wlatched := x\<rparr>"
  by (simp add: TablePage_Init_def)

lemma new_page_unlatched [simp]: "\<not> tp_wlatched (TablePage_Init a b new_table_page)"
  by (simp add: TablePage_Init_def new_table_page_def)

lemma WLatch_new_table_page [simp]: "WLatch new_table_page = Some (new_table_page\<lparr>tp_wlatched := True\<rparr>)"
  by (simp add: WLatch_def new_table_page_def)

lemma TH_InsertTuple_found:
  assumes wf: "th_wf sz h ps" and split: "ps = qs @ q # rest" and full: "list_all (th_full sz r h) qs"
    and p: "th_pages h q = Some p" and ins: "TablePage_InsertTuple sz r p = Some (rid, p')"
  shows "TH_InsertTuple sz r h = Some (True, Some rid, th_put q p' h)"
proof -
  have "\<not> tp_wlatched p" using th_wf_page[OF wf, of q] split p by auto
  moreover have "th_chain h (th_first_page_id h) (qs @ q # rest)" using wf split by (simp add: th_wf_def)
  ultimately show ?thesis
    using th_insert_loop_found[OF _ full p _ ins] by (simp add: TH_InsertTuple_def)
qed

lemma TH_InsertTuple_new:
  assumes wf: "th_wf sz h ps" and full: "list_all (th_full sz r h) ps"
  shows "TH_InsertTuple sz r h =
    (let n = th_next_page_id h; np = TablePage_Init n (last ps) new_table_page;
         h3 = th_put (last ps) ((the (th_pages h (last ps)))\<lparr>tp_next_page_id := n\<rparr>) (h\<lparr>th_next_page_id := n + 1\<rparr>)
     in case TablePage_InsertTuple sz r np of
          Some (rid, np') \<Rightarrow> Some (True, Some rid, th_put n np' h3)
        | None \<Rightarrow> Some (True, None, th_put n np h3))"
proof -
  have ch: "th_chain h (th_first_page_id h) ps" and ne: "ps \<noteq> []" using wf by (auto simp: th_wf_def)
  obtain lp where lp: "th_pages h (last ps) = Some lp" "\<not> tp_wlatched lp"
    using th_wf_page[OF wf, of "last ps"] ne by auto
  have li: "last ps \<noteq> INVALID_PAGE_ID" using th_chain_mem[OF ch, of "last ps"] ne by simp
  have loop: "th_insert_loop sz r h (th_first_page_id h) INVALID_PAGE_ID = Some (h, Inr (last ps))"
    using th_insert_loop_full[OF ch full, of INVALID_PAGE_ID] ne by simp
  show ?thesis
  proof (cases "TablePage_InsertTuple sz r (TablePage_Init (th_next_page_id h) (last ps) new_table_page)")
    case None
    then show ?thesis
      using loop lp li by (simp add: TH_InsertTuple_def Let_def TablePage_Init_latch TablePage_InsertTuple_latch)
  next
    case (Some a)
    then obtain rid np' where a: "a = (rid, np')" by (cases a)
    have "\<not> tp_wlatched np'" using TablePage_InsertTuple_wlatched Some a new_page_unlatched by metis
    then show ?thesis
      using loop lp li Some a by (simp add: TH_InsertTuple_def Let_def TablePage_Init_latch TablePage_InsertTuple_latch)
  qed
qed

lemma row_id_slot_neq:
  "(rid' :: row_id) \<noteq> rid \<Longrightarrow> rid_page_id rid' = rid_page_id rid \<Longrightarrow> rid_slot rid' \<noteq> rid_slot rid"
  by (cases rid; cases rid') auto

text \<open>Inserting into a page of the chain adds exactly the new row to the table.\<close>

lemma th_insert_at_page:
  assumes wf: "th_wf sz h ps" and q: "q \<in> set ps" "th_pages h q = Some p"
    and ins: "TablePage_InsertTuple sz r p = Some (rid, p')"
  shows "th_wf sz (th_put q p' h) ps \<and> th_table h ps rid = None \<and>
         th_table (th_put q p' h) ps = (th_table h ps)(rid \<mapsto> r)"
proof -
  obtain p1 where p1: "th_pages h q = Some p1" "tp_page_id p1 = q" "\<not> tp_wlatched p1" "tp_ok sz p1"
    using th_wf_page[OF wf q(1)] by auto
  have pp: "p1 = p" using p1(1) q(2) by simp
  note facts = TablePage_InsertTuple_ok[OF p1(4)[unfolded pp] ins]
  have "th_wf sz (th_put q p' h) ps"
    using th_wf_put[OF wf q(2) q(1)] facts p1 pp by simp
  moreover have "th_table h ps rid = None" using facts p1 pp q by (simp add: th_table_eq)
  moreover have "th_table (th_put q p' h) ps rid' = ((th_table h ps)(rid \<mapsto> r)) rid'" for rid'
  proof (cases "rid' = rid")
    case False
    then show ?thesis using facts p1 pp q row_id_slot_neq[OF False] by (auto simp: th_table_eq)
  qed (use facts p1 pp q in \<open>simp add: th_table_eq\<close>)
  ultimately show ?thesis by auto
qed

text \<open>Linking a fresh page after the last page of the chain extends the chain by
  that page and the table by the page's rows.\<close>

lemma th_wf_append_page:
  assumes wf: "th_wf sz h ps" and lp: "th_pages h (last ps) = Some lp" and n: "n = th_next_page_id h"
    and np: "tp_page_id np = n" "tp_next_page_id np = INVALID_PAGE_ID" "\<not> tp_wlatched np" "tp_ok sz np"
  defines "h' \<equiv> th_put n np (th_put (last ps) (lp\<lparr>tp_next_page_id := n\<rparr>) (h\<lparr>th_next_page_id := n + 1\<rparr>))"
  shows "th_wf sz h' (ps @ [n]) \<and>
         th_table h' (ps @ [n]) = (\<lambda>rid. if rid_page_id rid = n then TablePage_GetTuple rid np else th_table h ps rid)"
proof -
  have ne: "ps \<noteq> []" and ch: "th_chain h (th_first_page_id h) ps" and d: "distinct ps"
    and ok: "list_all (th_page_ok sz h) ps" using wf by (auto simp: th_wf_def)
  have lt: "\<forall>q\<in>set ps. 0 \<le> q \<and> q < n" using ok n by (auto simp: list_all_iff th_page_ok_def)
  then have nn: "n \<notin> set ps" by auto
  have n0: "0 \<le> n" using lt ne by (meson last_in_set order.strict_implies_order order_trans)
  have ni: "n \<noteq> INVALID_PAGE_ID" using n0 by (simp add: INVALID_PAGE_ID_def)
  obtain lq where lq: "tp_page_id lp = last ps" "\<not> tp_wlatched lp" "tp_ok sz lp"
    using th_wf_page[OF wf, of "last ps"] lp ne by auto
  let ?h2 = "h\<lparr>th_next_page_id := n + 1\<rparr>"
  have ch2: "th_chain ?h2 (th_first_page_id ?h2) ps" using th_chain_pages[of ?h2 h] ch by simp
  have "th_chain h' (th_first_page_id h') (ps @ [n])"
    using th_chain_snoc[OF ch2 d ne _ nn ni np(2), of lp] lp by (simp add: h'_def)
  moreover have "list_all (th_page_ok sz h') (ps @ [n])"
  proof -
    have "th_page_ok sz h' q" if "q \<in> set ps" for q
    proof (cases "q = last ps")
      case True
      then show ?thesis using lt that nn lq by (auto simp: h'_def th_page_ok_def)
    next
      case False
      then have "th_page_ok sz h q" "q \<noteq> n" using ok that nn by (auto simp: list_all_iff)
      then show ?thesis using False n by (auto simp: h'_def th_page_ok_put th_page_ok_next)
    qed
    moreover have "th_page_ok sz h' n" using n0 np by (simp add: h'_def th_page_ok_def)
    ultimately show ?thesis by (simp add: list_all_iff)
  qed
  moreover have "th_table h' (ps @ [n]) rid = (if rid_page_id rid = n then TablePage_GetTuple rid np else th_table h ps rid)" for rid
    using nn lp by (auto simp: h'_def th_table_eq)
  moreover have "th_pages h' INVALID_PAGE_ID = None"
    using wf ni th_chain_mem[OF ch, of "last ps"] ne by (auto simp: h'_def th_wf_def)
  ultimately show ?thesis using d nn by (auto simp: th_wf_def)
qed

lemma th_wf_next_notin: "th_wf sz h ps \<Longrightarrow> th_next_page_id h \<notin> set ps"
  by (auto simp: th_wf_def list_all_iff th_page_ok_def)

lemma th_wf_last_page: "th_wf sz h ps \<Longrightarrow> \<exists>lp. th_pages h (last ps) = Some lp"
  using th_wf_page[of sz h ps "last ps"] by (auto simp: th_wf_def)

lemma th_full_oversized:
  "th_wf sz h ps \<Longrightarrow> PAGE_SIZE - SIZE_TABLE_PAGE_HEADER < sz r + SIZE_SLOT \<Longrightarrow> list_all (th_full sz r h) ps"
  using th_wf_page[of sz h ps] tp_free_space_le
  by (fastforce simp: list_all_iff th_full_def TablePage_InsertTuple_def)

lemma TablePage_InsertTuple_Init_fits:
  "sz r + SIZE_SLOT \<le> PAGE_SIZE - SIZE_TABLE_PAGE_HEADER \<Longrightarrow>
   \<exists>rid np'. TablePage_InsertTuple sz r (TablePage_Init n prev p) = Some (rid, np')"
  by (simp add: TablePage_InsertTuple_def TablePage_Init_def)

lemma TablePage_InsertTuple_Init_oversized:
  "PAGE_SIZE - SIZE_TABLE_PAGE_HEADER < sz r + SIZE_SLOT \<Longrightarrow> TablePage_InsertTuple sz r (TablePage_Init n prev p) = None"
  by (simp add: TablePage_InsertTuple_def TablePage_Init_def)

lemma TablePage_Init_fields [simp]:
  "tp_page_id (TablePage_Init n prev p) = n" "tp_next_page_id (TablePage_Init n prev p) = INVALID_PAGE_ID"
  by (simp_all add: TablePage_Init_def)

section \<open>Table heap properties\<close>

text \<open>A row that fits in an empty page is stored under a fresh row id:
  in the first page with room, else in a new page linked at the end.\<close>

lemma th_insert_table:
  assumes wf: "th_wf sz h ps" and fits: "sz r + SIZE_SLOT \<le> PAGE_SIZE - SIZE_TABLE_PAGE_HEADER"
  shows "\<exists>rid h' ps'. TH_InsertTuple sz r h = Some (True, Some rid, h') \<and> th_wf sz h' ps' \<and>
           th_table h ps rid = None \<and> th_table h' ps' = (th_table h ps)(rid \<mapsto> r)"
proof (cases "list_all (th_full sz r h) ps")
  case True
  define n where "n = th_next_page_id h"
  obtain rid np' where ins: "TablePage_InsertTuple sz r (TablePage_Init n (last ps) new_table_page) = Some (rid, np')"
    using TablePage_InsertTuple_Init_fits[of sz r, OF fits] by blast
  note facts = TablePage_InsertTuple_ok[OF tp_ok_Init ins]
  have F: "tp_ok sz np'" "rid_page_id rid = n" "tp_page_id np' = n" "tp_next_page_id np' = INVALID_PAGE_ID"
    "\<not> tp_wlatched np'" "TablePage_GetTuple rid np' = Some r"
    using facts by auto
  have G: "TablePage_GetTuple rid' np' = None" if "rid_slot rid' \<noteq> rid_slot rid" for rid'
    using facts that TablePage_GetTuple_Init by metis
  obtain lp where lp: "th_pages h (last ps) = Some lp" using th_wf_last_page[OF wf] by blast
  have nn: "n \<notin> set ps" using th_wf_next_notin[OF wf] n_def by simp
  have res: "TH_InsertTuple sz r h = Some (True, Some rid, th_put n np'
               (th_put (last ps) (lp\<lparr>tp_next_page_id := n\<rparr>) (h\<lparr>th_next_page_id := n + 1\<rparr>)))"
    using TH_InsertTuple_new[OF wf True] ins lp by (simp add: n_def Let_def)
  note app = th_wf_append_page[OF wf lp n_def F(3,4,5,1)]
  have "th_table h ps rid = None" using F(2) nn by (simp add: th_table_eq)
  moreover have "(\<lambda>rid'. if rid_page_id rid' = n then TablePage_GetTuple rid' np' else th_table h ps rid') =
                 (th_table h ps)(rid \<mapsto> r)"
  proof
    fix rid'
    show "(if rid_page_id rid' = n then TablePage_GetTuple rid' np' else th_table h ps rid') = ((th_table h ps)(rid \<mapsto> r)) rid'"
    proof (cases "rid' = rid")
      case False
      then show ?thesis using nn F(2) G row_id_slot_neq[OF False] by (simp add: th_table_eq)
    qed (simp add: F)
  qed
  ultimately show ?thesis using res app by auto
next
  case False
  then obtain qs q rest where sp: "ps = qs @ q # rest" "\<not> th_full sz r h q" "\<forall>y\<in>set qs. th_full sz r h y"
    using split_list_first_prop[of ps "\<lambda>q. \<not> th_full sz r h q"] by (auto simp: list_all_iff)
  then have qin: "q \<in> set ps" by simp
  obtain p where p: "th_pages h q = Some p" "\<not> tp_wlatched p" using th_wf_page[OF wf qin] by auto
  then obtain rid p' where ins: "TablePage_InsertTuple sz r p = Some (rid, p')"
    using sp(2) by (auto simp: th_full_def)
  show ?thesis
    using TH_InsertTuple_found[OF wf sp(1) _ p(1) ins] th_insert_at_page[OF wf qin p(1) ins] sp(3)
    by (auto simp: list_all_iff)
qed

text \<open>C26: a row that fits in an empty page is inserted: \<open>InsertTuple\<close> reports
  success with a fresh row id, the heap stays well formed, and its table gains
  exactly that row (whether a page of the chain had room or a new page was
  linked at the end).\<close>

theorem TH_InsertTuple_refines:
  assumes wf: "th_wf sz h ps" and fits: "sz r + SIZE_SLOT \<le> PAGE_SIZE - SIZE_TABLE_PAGE_HEADER"
  shows "\<exists>rid h' ps'. TH_InsertTuple sz r h = Some (True, Some rid, h') \<and> th_wf sz h' ps' \<and>
           th_table h ps rid = None \<and> th_table h' ps' = (th_table h ps)(rid \<mapsto> r)"
  using th_insert_table[OF wf fits] .

text \<open>A row too large for an empty page is stored nowhere, and an empty
  page is linked at the end.\<close>

lemma th_insert_oversized:
  assumes wf: "th_wf sz h ps" and big: "PAGE_SIZE - SIZE_TABLE_PAGE_HEADER < sz r + SIZE_SLOT"
  shows "\<exists>h' ps'. TH_InsertTuple sz r h = Some (True, None, h') \<and> th_wf sz h' ps' \<and> th_table h' ps' = th_table h ps"
proof -
  define n where "n = th_next_page_id h"
  obtain lp where lp: "th_pages h (last ps) = Some lp" using th_wf_last_page[OF wf] by blast
  have nn: "n \<notin> set ps" using th_wf_next_notin[OF wf] n_def by simp
  have res: "TH_InsertTuple sz r h = Some (True, None, th_put n (TablePage_Init n (last ps) new_table_page)
               (th_put (last ps) (lp\<lparr>tp_next_page_id := n\<rparr>) (h\<lparr>th_next_page_id := n + 1\<rparr>)))"
    using TH_InsertTuple_new[OF wf th_full_oversized[of sz h ps r, OF wf big]]
      TablePage_InsertTuple_Init_oversized[of sz r, OF big] lp by (simp add: n_def Let_def)
  note app = th_wf_append_page[OF wf lp n_def TablePage_Init_fields(1)[of n "last ps" new_table_page]
    TablePage_Init_fields(2) new_page_unlatched tp_ok_Init]
  have "(\<lambda>rid. if rid_page_id rid = n then TablePage_GetTuple rid (TablePage_Init n (last ps) new_table_page)
                else th_table h ps rid) = th_table h ps"
    using nn by (auto simp: TablePage_GetTuple_Init th_table_eq)
  then show ?thesis using res app by auto
qed

text \<open>C27: a row too large for an empty page is not stored, yet
  \<open>InsertTuple\<close> reports success: it appends an empty page to the chain and
  returns \<open>true\<close> without a row id, leaving the table unchanged.\<close>

theorem TH_InsertTuple_oversized:
  assumes wf: "th_wf sz h ps" and big: "PAGE_SIZE - SIZE_TABLE_PAGE_HEADER < sz r + SIZE_SLOT"
  shows "\<exists>h' ps'. TH_InsertTuple sz r h = Some (True, None, h') \<and> th_wf sz h' ps' \<and> th_table h' ps' = th_table h ps"
  using th_insert_oversized[OF wf big] .

section \<open>Deletes and updates on a page\<close>

lemma TablePage_ops_latch:
  "TablePage_MarkDelete rid (p\<lparr>tp_wlatched := b\<rparr>) = apsnd (\<lambda>p. p\<lparr>tp_wlatched := b\<rparr>) (TablePage_MarkDelete rid p)"
  "TablePage_ApplyDelete sz rid (p\<lparr>tp_wlatched := b\<rparr>) = (TablePage_ApplyDelete sz rid p)\<lparr>tp_wlatched := b\<rparr>"
  "TablePage_RollbackDelete rid (p\<lparr>tp_wlatched := b\<rparr>) = (TablePage_RollbackDelete rid p)\<lparr>tp_wlatched := b\<rparr>"
  "TablePage_UpdateTuple sz r rid (p\<lparr>tp_wlatched := b\<rparr>) =
   map_option (\<lambda>p. p\<lparr>tp_wlatched := b\<rparr>) (TablePage_UpdateTuple sz r rid p)"
  "TablePage_GetTuple rid (p\<lparr>tp_wlatched := b\<rparr>) = TablePage_GetTuple rid p"
  by (auto simp: TablePage_MarkDelete_def TablePage_ApplyDelete_def TablePage_RollbackDelete_def
      TablePage_UpdateTuple_def TablePage_GetTuple_def Let_def split: option.splits bool.splits)

text \<open>A page write at slot \<open>i\<close> leaves the tuples of the other slots as they were.\<close>

lemma TablePage_GetTuple_slot_update:
  "unat (rid_slot rid') \<noteq> i \<Longrightarrow>
   TablePage_GetTuple rid' (p\<lparr>tp_slots := (tp_slots p)[i := s], tp_free_space := f\<rparr>) = TablePage_GetTuple rid' p"
  "unat (rid_slot rid') \<noteq> i \<Longrightarrow>
   TablePage_GetTuple rid' (p\<lparr>tp_slots := (tp_slots p)[i := s]\<rparr>) = TablePage_GetTuple rid' p"
  by (simp_all add: TablePage_GetTuple_def Let_def)

lemma unat_slot_neq: "rid_slot rid' \<noteq> rid_slot rid \<Longrightarrow> unat (rid_slot rid') \<noteq> unat (rid_slot rid)"
  by (simp add: word_unat_eq_iff)

lemma TablePage_MarkDelete_ok:
  fixes rid :: row_id
  assumes ok: "tp_ok sz p"
  defines "p' \<equiv> snd (TablePage_MarkDelete rid p)"
  shows "tp_ok sz p' \<and> tp_page_id p' = tp_page_id p \<and> tp_next_page_id p' = tp_next_page_id p \<and>
         tp_wlatched p' = tp_wlatched p \<and> TablePage_GetTuple rid p' = None \<and>
         (\<forall>rid'. rid_slot rid' \<noteq> rid_slot rid \<longrightarrow> TablePage_GetTuple rid' p' = TablePage_GetTuple rid' p)"
proof -
  define i where "i = unat (rid_slot rid)"
  show ?thesis
  proof (cases "\<exists>r. i < length (tp_slots p) \<and> tp_slots p ! i = Some (r, False)")
    case True
    then obtain r where r: "i < length (tp_slots p)" "tp_slots p ! i = Some (r, False)" by blast
    have p': "p' = p\<lparr>tp_slots := (tp_slots p)[i := Some (r, True)], tp_free_space := tp_free_space p\<rparr>"
      using r by (simp add: p'_def TablePage_MarkDelete_def i_def[symmetric])
    have "tp_ok sz p'" unfolding p'
      using tp_ok_slot_write[OF r(1) ok, of "tp_free_space p" "Some (r, True)"] r(2) by (simp add: slot_size_def)
    moreover have "TablePage_GetTuple rid' p' = TablePage_GetTuple rid' p" if "rid_slot rid' \<noteq> rid_slot rid" for rid'
      using TablePage_GetTuple_slot_update(2)[OF unat_slot_neq[OF that], of p "Some (r, True)"]
      by (simp add: p' i_def)
    moreover have "TablePage_GetTuple rid p' = None"
      using r by (simp add: p' TablePage_GetTuple_def i_def[symmetric] Let_def)
    ultimately show ?thesis by (simp add: p')
  next
    case False
    then have "p' = p" by (auto simp: p'_def TablePage_MarkDelete_def i_def[symmetric] split: option.splits bool.splits)
    then show ?thesis using False ok
      by (auto simp: TablePage_GetTuple_def i_def[symmetric] split: option.splits bool.splits)
  qed
qed

lemma TablePage_ApplyDelete_ok:
  fixes rid :: row_id
  assumes ok: "tp_ok sz p"
  defines "p' \<equiv> TablePage_ApplyDelete sz rid p"
  shows "tp_ok sz p' \<and> tp_page_id p' = tp_page_id p \<and> tp_next_page_id p' = tp_next_page_id p \<and>
         tp_wlatched p' = tp_wlatched p \<and> TablePage_GetTuple rid p' = None \<and>
         (\<forall>rid'. rid_slot rid' \<noteq> rid_slot rid \<longrightarrow> TablePage_GetTuple rid' p' = TablePage_GetTuple rid' p)"
proof -
  define i where "i = unat (rid_slot rid)"
  show ?thesis
  proof (cases "i < length (tp_slots p) \<and> tp_slots p ! i \<noteq> None")
    case True
    then obtain r b where r: "i < length (tp_slots p)" "tp_slots p ! i = Some (r, b)" by auto
    have p': "p' = p\<lparr>tp_slots := (tp_slots p)[i := None], tp_free_space := tp_free_space p + sz r\<rparr>"
      using r by (simp add: p'_def TablePage_ApplyDelete_def i_def[symmetric])
    have "tp_ok sz p'" unfolding p'
      using tp_ok_slot_write[OF r(1) ok, of "tp_free_space p + sz r" None] r(2) by (simp add: slot_size_def)
    moreover have "TablePage_GetTuple rid' p' = TablePage_GetTuple rid' p" if "rid_slot rid' \<noteq> rid_slot rid" for rid'
      using TablePage_GetTuple_slot_update(1)[OF unat_slot_neq[OF that], where p=p and s=None] by (simp add: p' i_def)
    moreover have "TablePage_GetTuple rid p' = None"
      using r by (simp add: p' TablePage_GetTuple_def i_def[symmetric] Let_def)
    ultimately show ?thesis by (simp add: p')
  next
    case False
    then have "p' = p" by (auto simp: p'_def TablePage_ApplyDelete_def i_def[symmetric] split: option.splits)
    then show ?thesis using False ok by (auto simp: TablePage_GetTuple_def i_def[symmetric] split: option.splits)
  qed
qed

lemma TablePage_UpdateTuple_ok:
  fixes rid :: row_id
  assumes ok: "tp_ok sz p" and upd: "TablePage_UpdateTuple sz r rid p = Some p'"
  shows "tp_ok sz p' \<and> tp_page_id p' = tp_page_id p \<and> tp_next_page_id p' = tp_next_page_id p \<and>
         tp_wlatched p' = tp_wlatched p \<and> TablePage_GetTuple rid p' = Some r \<and>
         (\<forall>rid'. rid_slot rid' \<noteq> rid_slot rid \<longrightarrow> TablePage_GetTuple rid' p' = TablePage_GetTuple rid' p)"
proof -
  define i where "i = unat (rid_slot rid)"
  obtain old where o: "i < length (tp_slots p)" "tp_slots p ! i = Some (old, False)" "sz r \<le> sz old"
    using upd by (auto simp: TablePage_UpdateTuple_def i_def[symmetric] split: if_splits option.splits bool.splits)
  have p': "p' = p\<lparr>tp_slots := (tp_slots p)[i := Some (r, False)], tp_free_space := tp_free_space p + (sz old - sz r)\<rparr>"
    using upd o by (simp add: TablePage_UpdateTuple_def i_def[symmetric])
  have "tp_ok sz p'" unfolding p'
    using tp_ok_slot_write[OF o(1) ok, of "tp_free_space p + (sz old - sz r)" "Some (r, False)"] o
    by (simp add: slot_size_def)
  moreover have "TablePage_GetTuple rid' p' = TablePage_GetTuple rid' p" if "rid_slot rid' \<noteq> rid_slot rid" for rid'
    using TablePage_GetTuple_slot_update(1)[OF unat_slot_neq[OF that], where p=p and s="Some (r, False)"] by (simp add: p' i_def)
  moreover have "TablePage_GetTuple rid p' = Some r"
    using o by (simp add: p' TablePage_GetTuple_def i_def[symmetric] Let_def)
  ultimately show ?thesis by (simp add: p')
qed

lemma TablePage_UpdateTuple_fails:
  "TablePage_GetTuple rid p = Some old \<Longrightarrow> TablePage_UpdateTuple sz r rid p = None \<longleftrightarrow> sz old < sz r"
  by (auto simp: TablePage_GetTuple_def TablePage_UpdateTuple_def Let_def split: if_splits option.splits bool.splits)

lemma TablePage_RollbackDelete_MarkDelete:
  "TablePage_GetTuple rid p = Some v \<Longrightarrow> TablePage_RollbackDelete rid (snd (TablePage_MarkDelete rid p)) = p"
  by (auto simp: TablePage_GetTuple_def TablePage_MarkDelete_def TablePage_RollbackDelete_def Let_def
      list_update_same_conv split: if_splits option.splits bool.splits)

text \<open>Writing back the page of row \<open>rid\<close> after a change at that row's slot
  alone keeps the heap well formed and changes the table at \<open>rid\<close> alone.\<close>

lemma th_write_row:
  assumes wf: "th_wf sz h ps" and q: "rid_page_id rid \<in> set ps" "th_pages h (rid_page_id rid) = Some p"
    and p': "tp_ok sz p'" "tp_page_id p' = tp_page_id p" "tp_next_page_id p' = tp_next_page_id p" "\<not> tp_wlatched p'"
    and fr: "\<forall>rid'. rid_slot rid' \<noteq> rid_slot rid \<longrightarrow> TablePage_GetTuple rid' p' = TablePage_GetTuple rid' p"
  shows "th_wf sz (th_put (rid_page_id rid) p' h) ps \<and>
         th_table (th_put (rid_page_id rid) p' h) ps = (th_table h ps)(rid := TablePage_GetTuple rid p')"
proof -
  have "tp_page_id p = rid_page_id rid" using th_wf_page[OF wf q(1)] q(2) by auto
  then have "th_wf sz (th_put (rid_page_id rid) p' h) ps" using th_wf_put[OF wf q(2) q(1)] p' by simp
  moreover have "th_table (th_put (rid_page_id rid) p' h) ps rid' = ((th_table h ps)(rid := TablePage_GetTuple rid p')) rid'" for rid'
  proof (cases "rid' = rid")
    case False
    then show ?thesis using fr q row_id_slot_neq[OF False] by (auto simp: th_table_eq)
  qed (use q in \<open>simp add: th_table_eq\<close>)
  ultimately show ?thesis by auto
qed

lemma th_wf_unlatched: "th_wf sz h ps \<Longrightarrow> q \<in> set ps \<Longrightarrow> th_pages h q = Some p \<Longrightarrow> \<not> tp_wlatched p \<and> tp_ok sz p"
  using th_wf_page by fastforce

lemma TH_MarkDelete_page:
  "th_pages h (rid_page_id rid) = Some p \<Longrightarrow> \<not> tp_wlatched p \<Longrightarrow> tp_ok sz p \<Longrightarrow>
   TH_MarkDelete rid h = Some (True, th_put (rid_page_id rid) (snd (TablePage_MarkDelete rid p)) h)"
  using TablePage_MarkDelete_ok[of sz p rid] by (simp add: TH_MarkDelete_def TablePage_ops_latch)

lemma th_table_Some:
  "th_table h ps rid = Some v \<Longrightarrow>
   rid_page_id rid \<in> set ps \<and> (\<exists>p. th_pages h (rid_page_id rid) = Some p \<and> TablePage_GetTuple rid p = Some v)"
  by (auto simp: th_table_eq split: if_splits option.splits)

lemma th_put_put [simp]: "th_put q a (th_put q b h) = th_put q a h"
  by (simp add: th_put_def)

lemma TH_ApplyDelete_page:
  "th_pages h (rid_page_id rid) = Some p \<Longrightarrow> \<not> tp_wlatched p \<Longrightarrow> tp_ok sz p \<Longrightarrow>
   TH_ApplyDelete sz rid h = Some (th_put (rid_page_id rid) (TablePage_ApplyDelete sz rid p) h)"
  using TablePage_ApplyDelete_ok[of sz p rid] by (simp add: TH_ApplyDelete_def TablePage_ops_latch)

lemma TH_RollbackDelete_page:
  "th_pages h (rid_page_id rid) = Some p \<Longrightarrow> \<not> tp_wlatched p \<Longrightarrow>
   TH_RollbackDelete rid h = Some (th_put (rid_page_id rid) (WUnlatch (TablePage_RollbackDelete rid p)) h)"
  by (simp add: TH_RollbackDelete_def TablePage_ops_latch)

lemma th_wf_example: "th_wf (\<lambda>x. x) th_example [0]"
  by (simp add: th_wf_def th_example_def th_page_ok_def tp_ok_Init INVALID_PAGE_ID_def)

lemma TH_InsertTuple_refines_witness:
  "\<exists>rid h' ps'. TH_InsertTuple (\<lambda>x. x) (10::nat) th_example = Some (True, Some rid, h') \<and>
     th_wf (\<lambda>x. x) h' ps' \<and> th_table th_example [0] rid = None \<and> th_table h' ps' = (th_table th_example [0])(rid \<mapsto> 10)"
  using TH_InsertTuple_refines[OF th_wf_example, of 10]
  by (simp add: SIZE_SLOT_def PAGE_SIZE_def SIZE_TABLE_PAGE_HEADER_def)

lemma TH_InsertTuple_oversized_witness:
  "\<exists>h' ps'. TH_InsertTuple (\<lambda>x. x) (5000::nat) th_example = Some (True, None, h') \<and>
     th_wf (\<lambda>x. x) h' ps' \<and> th_table h' ps' = th_table th_example [0]"
  using TH_InsertTuple_oversized[OF th_wf_example, of 5000]
  by (simp add: SIZE_SLOT_def PAGE_SIZE_def SIZE_TABLE_PAGE_HEADER_def)

text \<open>\<open>MarkDelete\<close> of a row id on a page of the heap succeeds, keeps the
  heap well formed and removes the row from the table.\<close>

theorem TH_MarkDelete_refines:
  assumes wf: "th_wf sz h ps" and q: "rid_page_id rid \<in> set ps"
  shows "\<exists>h'. TH_MarkDelete rid h = Some (True, h') \<and> th_wf sz h' ps \<and> th_table h' ps = (th_table h ps)(rid := None)"
proof -
  obtain p where p: "th_pages h (rid_page_id rid) = Some p" using th_wf_page[OF wf q] by auto
  note u = th_wf_unlatched[OF wf q p]
  note f = TablePage_MarkDelete_ok[of sz p rid]
  have "\<not> tp_wlatched (snd (TablePage_MarkDelete rid p))" using f u by simp
  then show ?thesis
    using TH_MarkDelete_page[OF p] th_write_row[OF wf q p, of "snd (TablePage_MarkDelete rid p)"] f u by auto
qed

text \<open>Rolling back a delete restores the heap: after \<open>MarkDelete\<close> of a
  row of the table the row is gone, and \<open>RollbackDelete\<close> gives back exactly the
  heap before the delete.\<close>

theorem TH_MarkDelete_RollbackDelete:
  assumes wf: "th_wf sz h ps" and v: "th_table h ps rid = Some v"
  shows "\<exists>h'. TH_MarkDelete rid h = Some (True, h') \<and> th_table h' ps rid = None \<and> TH_RollbackDelete rid h' = Some h"
proof -
  obtain p where q: "rid_page_id rid \<in> set ps" and p: "th_pages h (rid_page_id rid) = Some p"
    and g: "TablePage_GetTuple rid p = Some v" using th_table_Some[OF v] by auto
  note u = th_wf_unlatched[OF wf q p]
  note f = TablePage_MarkDelete_ok[of sz p rid]
  have "\<not> tp_wlatched (snd (TablePage_MarkDelete rid p))" using f u by simp
  then have "TH_RollbackDelete rid (th_put (rid_page_id rid) (snd (TablePage_MarkDelete rid p)) h) = Some h"
    using TH_RollbackDelete_page[of "th_put (rid_page_id rid) (snd (TablePage_MarkDelete rid p)) h" rid]
      TablePage_RollbackDelete_MarkDelete[OF g] u p by simp
  then show ?thesis using TH_MarkDelete_page[OF p] f u q by (auto simp: th_table_eq)
qed

text \<open>\<open>ApplyDelete\<close> of a row id on a page of the heap keeps the heap well
  formed, returns the tuple's bytes to the page and removes the row from the
  table.\<close>

theorem TH_ApplyDelete_refines:
  assumes wf: "th_wf sz h ps" and q: "rid_page_id rid \<in> set ps"
  shows "\<exists>h'. TH_ApplyDelete sz rid h = Some h' \<and> th_wf sz h' ps \<and> th_table h' ps = (th_table h ps)(rid := None)"
proof -
  obtain p where p: "th_pages h (rid_page_id rid) = Some p" using th_wf_page[OF wf q] by auto
  note u = th_wf_unlatched[OF wf q p]
  note f = TablePage_ApplyDelete_ok[of sz p rid]
  have "\<not> tp_wlatched (TablePage_ApplyDelete sz rid p)" using f u by simp
  then show ?thesis
    using TH_ApplyDelete_page[OF p] th_write_row[OF wf q p, of "TablePage_ApplyDelete sz rid p"] f u by auto
qed

text \<open>\<open>UpdateTuple\<close> of a row of the table with a tuple no larger than
  the old one succeeds, keeps the heap well formed and replaces the row.\<close>

theorem TH_UpdateTuple_refines:
  assumes wf: "th_wf sz h ps" and v: "th_table h ps rid = Some old" and le: "sz r \<le> sz old"
  shows "\<exists>h'. TH_UpdateTuple sz r rid h = Some (True, h') \<and> th_wf sz h' ps \<and> th_table h' ps = (th_table h ps)(rid \<mapsto> r)"
proof -
  obtain p where q: "rid_page_id rid \<in> set ps" and p: "th_pages h (rid_page_id rid) = Some p"
    and g: "TablePage_GetTuple rid p = Some old" using th_table_Some[OF v] by auto
  note u = th_wf_unlatched[OF wf q p]
  obtain p' where upd: "TablePage_UpdateTuple sz r rid p = Some p'"
    using TablePage_UpdateTuple_fails[OF g, of sz r] le by fastforce
  note f = TablePage_UpdateTuple_ok[OF conjunct2[OF u] upd]
  have "TH_UpdateTuple sz r rid h = Some (True, th_put (rid_page_id rid) p' h)"
    using p g u f upd by (simp add: TH_UpdateTuple_def TablePage_ops_latch)
  then show ?thesis using th_write_row[OF wf q p, of p'] f u by auto
qed

text \<open>An \<open>UpdateTuple\<close> with a larger tuple writes back the page latched and
  unchanged; after it, every \<open>MarkDelete\<close> and every \<open>UpdateTuple\<close> of a row
  of that page blocks.\<close>

lemma th_update_grow:
  assumes wf: "th_wf sz h ps" and v: "th_table h ps rid = Some old" and big: "sz old < sz r"
  shows "\<exists>h'. TH_UpdateTuple sz r rid h = Some (False, h') \<and> th_table h' ps = th_table h ps \<and>
           \<not> th_wf sz h' ps \<and> TH_MarkDelete rid h' = None \<and>
           (\<forall>rid' r'. rid_page_id rid' = rid_page_id rid \<longrightarrow> th_table h ps rid' \<noteq> None \<longrightarrow> TH_UpdateTuple sz r' rid' h' = None)"
proof -
  obtain p where q: "rid_page_id rid \<in> set ps" and p: "th_pages h (rid_page_id rid) = Some p"
    and g: "TablePage_GetTuple rid p = Some old" using th_table_Some[OF v] by auto
  note u = th_wf_unlatched[OF wf q p]
  have upd: "TablePage_UpdateTuple sz r rid p = None" using TablePage_UpdateTuple_fails[OF g] big by simp
  define h' where "h' = th_put (rid_page_id rid) (p\<lparr>tp_wlatched := True\<rparr>) h"
  have "TH_UpdateTuple sz r rid h = Some (False, h')"
    using p g u upd by (simp add: TH_UpdateTuple_def TablePage_ops_latch h'_def)
  moreover have "th_table h' ps = th_table h ps"
    using p by (auto simp: th_table_eq h'_def TablePage_ops_latch)
  moreover have "\<not> th_wf sz h' ps"
    using th_wf_page[of sz h' ps "rid_page_id rid"] q by (auto simp: h'_def)
  moreover have "TH_MarkDelete rid h' = None" by (simp add: TH_MarkDelete_def h'_def WLatch_def)
  moreover have "TH_UpdateTuple sz r' rid' h' = None"
    if "rid_page_id rid' = rid_page_id rid" "th_table h ps rid' \<noteq> None" for rid' r'
    using that p by (auto simp: TH_UpdateTuple_def h'_def WLatch_def TablePage_ops_latch th_table_eq split: option.splits if_splits)
  ultimately show ?thesis by blast
qed

text \<open>C28: an \<open>UpdateTuple\<close> that fails because the new tuple is larger returns
  \<open>false\<close> with the page still write-latched: the table is unchanged, the heap
  is no longer well formed, and the \<open>MarkDelete\<close> of the delete-then-insert
  fallback on that row blocks for ever.\<close>

theorem TH_UpdateTuple_latch_leak:
  assumes wf: "th_wf sz h ps" and v: "th_table h ps rid = Some old" and big: "sz old < sz r"
  shows "\<exists>h'. TH_UpdateTuple sz r rid h = Some (False, h') \<and> th_table h' ps = th_table h ps \<and>
           \<not> th_wf sz h' ps \<and> TH_MarkDelete rid h' = None"
  using th_update_grow[OF wf v big] by blast

section \<open>Iterator lemmas\<close>

lemma takeWhile_filter_upt:
  "j \<le> length xs \<Longrightarrow>
   j + length (takeWhile (\<lambda>s. \<not> P s) (drop j xs)) =
   (case filter (\<lambda>i. P (xs ! i)) [j..<length xs] of [] \<Rightarrow> length xs | x # _ \<Rightarrow> x)"
proof (induction "length xs - j" arbitrary: j)
  case 0
  then show ?case by simp
next
  case (Suc d)
  then have j: "j < length xs" by simp
  have dr: "drop j xs = xs ! j # drop (Suc j) xs" using j by (simp add: Cons_nth_drop_Suc)
  have up: "[j..<length xs] = j # [Suc j..<length xs]" using j by (simp add: upt_conv_Cons)
  show ?case
  proof (cases "P (xs ! j)")
    case False
    then show ?thesis using Suc.hyps(1)[of "Suc j"] Suc.hyps(2) j by (simp add: dr up)
  qed (simp add: dr up)
qed

lemma filter_upt_Cons:
  "filter P [m..<n] = x # rest \<Longrightarrow> rest = filter P [Suc x..<n] \<and> m \<le> x \<and> x < n"
proof (induction "n - m" arbitrary: m)
  case 0
  then show ?case by simp
next
  case (Suc d)
  then have m: "m < n" by (cases "m < n") auto
  have up: "[m..<n] = m # [Suc m..<n]" using m by (simp add: upt_conv_Cons)
  show ?case
  proof (cases "P m")
    case False
    then have e: "filter P [Suc m..<n] = x # rest" using Suc.prems by (simp add: up)
    have "d = n - Suc m" using Suc.hyps(2) by simp
    from Suc.hyps(1)[OF this e] show ?thesis by simp
  qed (use Suc.prems m in \<open>auto simp: up\<close>)
qed

lemma filter_upt_drop:
  "k < length (filter P [m..<n]) \<Longrightarrow>
   drop (Suc k) (filter P [m..<n]) = filter P [Suc (filter P [m..<n] ! k)..<n]"
proof (induction k arbitrary: m)
  case 0
  then obtain x rest where c: "filter P [m..<n] = x # rest" by (cases "filter P [m..<n]") auto
  then show ?case using filter_upt_Cons[OF c] by (simp add: c)
next
  case (Suc k)
  then obtain x rest where c: "filter P [m..<n] = x # rest" by (cases "filter P [m..<n]") auto
  then have r: "rest = filter P [Suc x..<n]" using filter_upt_Cons[OF c] by simp
  show ?case using Suc.IH[of "Suc x"] Suc.prems by (simp add: c r[symmetric])
qed

lemma tp_live_mem_lt:
  "k < length (filter P [0..<n]) \<Longrightarrow> filter P [0..<n] ! k < n"
  using nth_mem[of k "filter P [0..<n]"] by simp

lemma TablePage_GetFirstTupleRid_live:
  "TablePage_GetFirstTupleRid p = (case tp_live p of [] \<Rightarrow> None | x # _ \<Rightarrow> Some x)"
proof -
  let ?F = "filter (\<lambda>i. live_slot (tp_slots p ! i)) [0..<length (tp_slots p)]"
  have tw: "length (takeWhile (\<lambda>s. \<not> live_slot s) (tp_slots p)) = (case ?F of [] \<Rightarrow> length (tp_slots p) | x # _ \<Rightarrow> x)"
    using takeWhile_filter_upt[of 0 "tp_slots p" live_slot] by simp
  show ?thesis
  proof (cases ?F)
    case Nil
    then show ?thesis using tw by (simp add: TablePage_GetFirstTupleRid_def tp_live_def)
  next
    case (Cons x rest)
    then have "x < length (tp_slots p)" using filter_upt_Cons by blast
    then show ?thesis using tw Cons by (simp add: TablePage_GetFirstTupleRid_def tp_live_def)
  qed
qed

lemma TablePage_GetNextTupleRid_live:
  assumes ok: "tp_ok sz p" and k: "k < length (tp_live p)"
  shows "TablePage_GetNextTupleRid (tp_live p ! k) p =
         (if Suc k < length (tp_live p) then Some (tp_live p ! Suc k) else None)"
proof -
  let ?n = "length (tp_slots p)"
  let ?F = "filter (\<lambda>i. live_slot (tp_slots p ! i)) [0..<?n]"
  have kF: "k < length ?F" using k by (simp add: tp_live_def)
  have lt: "?F ! k < ?n" using tp_live_mem_lt[OF kF] .
  have u: "unat (of_nat (?F ! k) :: 32 word) = ?F ! k" using lt tp_ok_length[OF ok] by (simp add: unat_slot)
  have tw: "Suc (?F ! k) + length (takeWhile (\<lambda>s. \<not> live_slot s) (drop (Suc (?F ! k)) (tp_slots p))) =
            (case drop (Suc k) ?F of [] \<Rightarrow> ?n | x # _ \<Rightarrow> x)"
    using takeWhile_filter_upt[of "Suc (?F ! k)" "tp_slots p" live_slot] lt filter_upt_drop[OF kF] by simp
  show ?thesis
  proof (cases "Suc k < length ?F")
    case True
    then have "drop (Suc k) ?F = ?F ! Suc k # drop (Suc (Suc k)) ?F" by (simp add: Cons_nth_drop_Suc)
    then show ?thesis using tw u True tp_live_mem_lt[OF True] k
      by (simp add: TablePage_GetNextTupleRid_def tp_live_def Let_def)
  next
    case False
    then have "drop (Suc k) ?F = []" by simp
    then show ?thesis using tw u False k by (simp add: TablePage_GetNextTupleRid_def tp_live_def Let_def)
  qed
qed

lemma th_rids_simps [simp]:
  "th_rids h [] = []"
  "th_rids h (q # qs) = (case th_pages h q of None \<Rightarrow> [] | Some p \<Rightarrow> tp_live p) @ th_rids h qs"
  by (simp_all add: th_rids_def)

lemma tp_live_page_id: "k < length (tp_live p) \<Longrightarrow> rid_page_id (tp_live p ! k) = tp_page_id p"
  by (simp add: tp_live_def)

lemma ti_walk_chain:
  "th_chain h pid qs \<Longrightarrow> th_pages h INVALID_PAGE_ID = None \<Longrightarrow>
   (th_rids h qs = [] \<and> ti_walk h pid = Some INVALID_ROWID) \<or>
   (\<exists>q p qs'. th_pages h q = Some p \<and> q \<in> set qs \<and> tp_live p \<noteq> [] \<and> th_chain h (tp_next_page_id p) qs' \<and>
      length qs' < length qs \<and> set qs' \<subseteq> set qs \<and> th_rids h qs = tp_live p @ th_rids h qs' \<and>
      ti_walk h pid = Some (hd (tp_live p)))"
proof (induction qs arbitrary: pid)
  case Nil
  then show ?case by (simp add: ti_walk.simps)
next
  case (Cons q qs)
  then obtain p where p: "th_pages h pid = Some p" "q = pid" "th_chain h (tp_next_page_id p) qs"
    by (auto split: option.splits)
  show ?case
  proof (cases "tp_live p")
    case Nil
    then have w: "ti_walk h pid = ti_walk h (tp_next_page_id p)"
      by (subst ti_walk.simps) (simp add: p TablePage_GetFirstTupleRid_live)
    show ?thesis using Cons.IH[OF p(3) Cons.prems(2)] Nil p(1,2) unfolding w
      by (auto 0 4 simp: less_Suc_eq)
  next
    case (Cons x xs)
    then have "ti_walk h pid = Some x"
      by (subst ti_walk.simps) (simp add: p TablePage_GetFirstTupleRid_live)
    then show ?thesis using Cons p by (intro disjI2 exI[of _ q] exI[of _ p] exI[of _ qs]) auto
  qed
qed

lemma ti_walk_first:
  "th_chain h pid qs \<Longrightarrow> th_pages h INVALID_PAGE_ID = None \<Longrightarrow> ti_walk h pid = Some (rid_head (th_rids h qs))"
  using ti_walk_chain[of h pid qs] by (auto simp: rid_head_def neq_Nil_conv)

lemma ti_scan_End: "ti_id it = INVALID_ROWID \<Longrightarrow> ti_scan h it = Some []"
  by (subst ti_scan.simps) (simp add: TI_Neq_def TH_End_def TableIterator_def)

lemma ti_scan_step:
  "ti_id it \<noteq> INVALID_ROWID \<Longrightarrow>
   ti_scan h it = do { rid \<leftarrow> ti_next h (ti_id it); rest \<leftarrow> ti_scan h (it\<lparr>ti_id := rid\<rparr>); Some (ti_id it # rest) }"
  by (subst ti_scan.simps) (simp add: TI_Neq_def TH_End_def TableIterator_def TI_PostInc_def TI_Inc_def)

lemma INVALID_ROWID_page: "rid_page_id rid \<noteq> INVALID_PAGE_ID \<Longrightarrow> rid \<noteq> INVALID_ROWID"
  by (auto simp: INVALID_ROWID_def)

text \<open>Scanning from the \<open>k\<close>-th live row of a page visits the rest of that
  page's rows and then whatever the scan from the page's successor visits.\<close>

lemma ti_scan_page:
  assumes pg: "th_pages h (tp_page_id p) = Some p" "tp_page_id p \<noteq> INVALID_PAGE_ID" "tp_ok sz p"
    and walk: "ti_walk h (tp_next_page_id p) = Some (rid_head rs)"
    and rest: "\<And>it'. ti_id it' = rid_head rs \<Longrightarrow> ti_scan h it' = Some rs"
  shows "k < length (tp_live p) \<Longrightarrow> ti_id it = tp_live p ! k \<Longrightarrow> ti_scan h it = Some (drop k (tp_live p) @ rs)"
proof (induction "length (tp_live p) - k" arbitrary: k it)
  case 0
  then show ?case by simp
next
  case (Suc d)
  have pid: "rid_page_id (ti_id it) = tp_page_id p" using Suc.prems tp_live_page_id by simp
  then have ne: "ti_id it \<noteq> INVALID_ROWID" using pg(2) INVALID_ROWID_page by simp
  note nx = TablePage_GetNextTupleRid_live[OF pg(3) Suc.prems(1)]
  show ?case
  proof (cases "Suc k < length (tp_live p)")
    case True
    have "ti_scan h (it\<lparr>ti_id := tp_live p ! Suc k\<rparr>) = Some (drop (Suc k) (tp_live p) @ rs)"
      using Suc.hyps(1)[of "Suc k"] Suc.hyps(2) True by simp
    then show ?thesis
      using ti_scan_step[OF ne] nx True pid pg(1) Suc.prems by (simp add: ti_next_def Cons_nth_drop_Suc)
  next
    case False
    then have "drop k (tp_live p) = [tp_live p ! k]" using Suc.prems(1)
      by (metis Cons_nth_drop_Suc Suc_leI drop_all le_less)
    then show ?thesis
      using ti_scan_step[OF ne] nx False pid pg(1) Suc.prems walk rest[of "it\<lparr>ti_id := rid_head rs\<rparr>"]
      by (simp add: ti_next_def)
  qed
qed

lemma ti_scan_chain:
  "th_chain h pid qs \<Longrightarrow> list_all (th_page_ok sz h) qs \<Longrightarrow> th_pages h INVALID_PAGE_ID = None \<Longrightarrow>
   ti_id it = rid_head (th_rids h qs) \<Longrightarrow> ti_scan h it = Some (th_rids h qs)"
proof (induction "length qs" arbitrary: pid qs it rule: less_induct)
  case less
  consider "th_rids h qs = []" | q p qs' where "th_pages h q = Some p" "q \<in> set qs" "tp_live p \<noteq> []"
      "th_chain h (tp_next_page_id p) qs'" "length qs' < length qs" "set qs' \<subseteq> set qs"
      "th_rids h qs = tp_live p @ th_rids h qs'"
    using ti_walk_chain[OF less.prems(1,3)] by blast
  then show ?case
  proof cases
    case 1
    then show ?thesis using less.prems(4) ti_scan_End by (simp add: rid_head_def)
  next
    case 2
    have okq: "th_page_ok sz h q" using less.prems(2) 2(2) by (simp add: list_all_iff)
    then have pq: "tp_page_id p = q" "q \<noteq> INVALID_PAGE_ID" "tp_ok sz p"
      using 2(1) by (auto simp: th_page_ok_def INVALID_PAGE_ID_def)
    have ok': "list_all (th_page_ok sz h) qs'" using less.prems(2) 2(6) by (auto simp: list_all_iff)
    have hd: "rid_head (th_rids h qs) = tp_live p ! 0" using 2(3) 2(7) by (cases "tp_live p") (auto simp: rid_head_def)
    have pg: "th_pages h (tp_page_id p) = Some p" "tp_page_id p \<noteq> INVALID_PAGE_ID" using pq 2(1) by auto
    have "ti_scan h it = Some (drop 0 (tp_live p) @ th_rids h qs')"
      using ti_scan_page[OF pg pq(3) ti_walk_first[OF 2(4) less.prems(3)] less.hyps[OF 2(5) 2(4) ok' less.prems(3)], of 0 it]
        2(3) less.prems(4) hd by simp
    then show ?thesis using 2(7) by simp
  qed
qed

text \<open>C29: on a well-formed heap whose first page holds a live row, the scan
  \<open>for (it = Begin(); it != End(); it++)\<close> terminates and visits exactly the
  live rows of the heap, page by page in chain order and by slot within a page.\<close>

theorem TH_Scan_complete:
  assumes wf: "th_wf sz h ps" and fp: "th_pages h (th_first_page_id h) = Some p" "tp_live p \<noteq> []"
  shows "TH_Scan h = Some (th_rids h ps)"
proof -
  have ch: "th_chain h (th_first_page_id h) ps" and ok: "list_all (th_page_ok sz h) ps"
    and inv: "th_pages h INVALID_PAGE_ID = None" and ne: "ps \<noteq> []" using wf by (auto simp: th_wf_def)
  then obtain qs where ps: "ps = th_first_page_id h # qs" by (cases ps) auto
  have "rid_head (th_rids h ps) = hd (tp_live p)" using fp ps by (cases "tp_live p") (auto simp: rid_head_def)
  moreover have "TH_Begin h = Some (TableIterator (hd (tp_live p)))"
    using fp by (auto simp: TH_Begin_def TablePage_GetFirstTupleRid_live neq_Nil_conv)
  ultimately show ?thesis using ti_scan_chain[OF ch ok inv] by (simp add: TH_Scan_def TableIterator_def)
qed

text \<open>C30: \<open>Begin\<close> looks at the first page alone: when that page has no live
  row, \<open>Begin\<close> equals \<open>End\<close> and the scan visits nothing, whatever rows the
  later pages hold.\<close>

theorem TH_Scan_first_page_empty:
  assumes wf: "th_wf sz h ps" and fp: "th_pages h (th_first_page_id h) = Some p" "tp_live p = []"
  shows "TH_Begin h = Some TH_End \<and> TH_Scan h = Some []"
proof -
  have "TH_Begin h = Some TH_End"
    using fp by (simp add: TH_Begin_def TablePage_GetFirstTupleRid_live TH_End_def)
  then show ?thesis using ti_scan_End[of "TH_End"] by (simp add: TH_Scan_def TH_End_def TableIterator_def)
qed

section \<open>Scanning while deleting\<close>

text \<open>The scan in terms of slot positions: from any slot, \<open>it++\<close> reaches the
  first live row after it, so a delete at the current slot does not change
  where the iterator goes next.\<close>

lemma th_slots_simps [simp]:
  "th_slots h [] = []"
  "th_slots h (q # qs) = (case th_pages h q of None \<Rightarrow> []
     | Some p \<Rightarrow> map (\<lambda>i. \<lparr>rid_page_id = q, rid_slot = of_nat i\<rparr>) [0..<length (tp_slots p)]) @ th_slots h qs"
  by (simp_all add: th_slots_def)

lemma th_live_slot:
  assumes p: "th_pages h q = Some p" and ok: "tp_ok sz p" and i: "i < length (tp_slots p)"
  shows "th_live h \<lparr>rid_page_id = q, rid_slot = of_nat i\<rparr> \<longleftrightarrow> live_slot (tp_slots p ! i)"
proof -
  have "unat (of_nat i :: 32 word) = i" using i tp_ok_length[OF ok] by (simp add: unat_slot)
  then show ?thesis using p i
    by (auto simp: th_live_def TH_GetTuple_def TablePage_GetTuple_def live_slot_def Let_def split: option.splits bool.splits)
qed

lemma filter_live_page:
  assumes p: "th_pages h q = Some p" and ok: "tp_ok sz p" and xs: "\<forall>i\<in>set xs. i < length (tp_slots p)"
  shows "filter (th_live h) (map (\<lambda>i. \<lparr>rid_page_id = q, rid_slot = of_nat i\<rparr>) xs) =
         map (\<lambda>i. \<lparr>rid_page_id = q, rid_slot = of_nat i\<rparr>) (filter (\<lambda>i. live_slot (tp_slots p ! i)) xs)"
  using xs by (induction xs) (simp_all add: th_live_slot[OF p ok])

lemma th_rids_slots: "list_all (th_page_ok sz h) qs \<Longrightarrow> th_rids h qs = filter (th_live h) (th_slots h qs)"
proof (induction qs)
  case (Cons q qs)
  then obtain p where p: "th_pages h q = Some p" "tp_page_id p = q" "tp_ok sz p"
    by (auto simp: th_page_ok_def split: option.splits)
  then show ?case using Cons filter_live_page[OF p(1,3), of "[0..<length (tp_slots p)]"]
    by (simp add: tp_live_def)
qed simp

lemma TablePage_GetNextTupleRid_filter:
  assumes ok: "tp_ok sz p" and s: "unat (rid_slot r) < length (tp_slots p)"
  shows "TablePage_GetNextTupleRid r p =
    (case filter (\<lambda>i. live_slot (tp_slots p ! i)) [Suc (unat (rid_slot r))..<length (tp_slots p)] of
       [] \<Rightarrow> None | i # _ \<Rightarrow> Some \<lparr>rid_page_id = tp_page_id p, rid_slot = of_nat i\<rparr>)"
proof -
  let ?F = "filter (\<lambda>i. live_slot (tp_slots p ! i)) [Suc (unat (rid_slot r))..<length (tp_slots p)]"
  have tw: "Suc (unat (rid_slot r)) + length (takeWhile (\<lambda>s. \<not> live_slot s) (drop (Suc (unat (rid_slot r))) (tp_slots p))) =
            (case ?F of [] \<Rightarrow> length (tp_slots p) | x # _ \<Rightarrow> x)"
    using takeWhile_filter_upt[of "Suc (unat (rid_slot r))" "tp_slots p" live_slot] s by simp
  show ?thesis
  proof (cases ?F)
    case Nil
    then show ?thesis using tw by (simp add: TablePage_GetNextTupleRid_def Let_def)
  next
    case (Cons x rest)
    then have "x < length (tp_slots p)" using filter_upt_Cons by blast
    then show ?thesis using tw Cons by (simp add: TablePage_GetNextTupleRid_def Let_def)
  qed
qed

lemma ti_next_slots:
  "th_chain h pid qs \<Longrightarrow> list_all (th_page_ok sz h) qs \<Longrightarrow> th_pages h INVALID_PAGE_ID = None \<Longrightarrow>
   j < length (th_slots h qs) \<Longrightarrow>
   ti_next h (th_slots h qs ! j) = Some (rid_head (filter (th_live h) (drop (Suc j) (th_slots h qs))))"
proof (induction qs arbitrary: pid j)
  case (Cons q qs)
  obtain p where p: "th_pages h q = Some p" "q = pid" "th_chain h (tp_next_page_id p) qs"
    using Cons.prems(1) by (auto split: option.splits)
  have pq: "tp_page_id p = q" "tp_ok sz p" using Cons.prems(2) p(1) by (auto simp: th_page_ok_def)
  have ok: "list_all (th_page_ok sz h) qs" using Cons.prems(2) by simp
  let ?n = "length (tp_slots p)"
  let ?mk = "\<lambda>i. \<lparr>rid_page_id = q, rid_slot = of_nat i\<rparr>"
  show ?case
  proof (cases "j < ?n")
    case True
    have u: "unat (of_nat j :: 32 word) = j" using True tp_ok_length[OF pq(2)] by (simp add: unat_slot)
    have dr: "drop (Suc j) (th_slots h (q # qs)) = map ?mk [Suc j..<?n] @ th_slots h qs"
      using True p(1) by (simp add: drop_map)
    have fl: "filter (th_live h) (map ?mk [Suc j..<?n]) = map ?mk (filter (\<lambda>i. live_slot (tp_slots p ! i)) [Suc j..<?n])"
      using filter_live_page[OF p(1) pq(2), of "[Suc j..<?n]"] by simp
    have nx: "TablePage_GetNextTupleRid (?mk j) p =
      (case filter (\<lambda>i. live_slot (tp_slots p ! i)) [Suc j..<?n] of [] \<Rightarrow> None | i # _ \<Rightarrow> Some (?mk i))"
      using TablePage_GetNextTupleRid_filter[OF pq(2), of "?mk j"] True u by (simp add: pq(1)[symmetric] split: list.split)
    have w: "ti_walk h (tp_next_page_id p) = Some (rid_head (filter (th_live h) (th_slots h qs)))"
      using ti_walk_first[OF p(3) Cons.prems(3)] th_rids_slots[OF ok] by simp
    have e: "th_slots h (q # qs) ! j = ?mk j" using True p(1) by (simp add: nth_append)
    show ?thesis using True p(1) nx w unfolding dr e
      by (auto simp: ti_next_def fl rid_head_def split: list.splits)
  next
    case False
    then have e: "th_slots h (q # qs) ! j = th_slots h qs ! (j - ?n)"
      "drop (Suc j) (th_slots h (q # qs)) = drop (Suc (j - ?n)) (th_slots h qs)"
      using p(1) by (simp_all add: nth_append Suc_diff_le)
    have "j - ?n < length (th_slots h qs)" using Cons.prems(4) False p(1) by simp
    then show ?thesis using Cons.IH[OF p(3) ok Cons.prems(3)] unfolding e by simp
  qed
qed simp

lemma th_slots_put:
  "th_pages h q = Some p \<Longrightarrow> length (tp_slots p') = length (tp_slots p) \<Longrightarrow> th_slots (th_put q p' h) qs = th_slots h qs"
  by (induction qs) auto

lemma th_slots_pages: "x \<in> set (th_slots h qs) \<Longrightarrow> rid_page_id x \<in> set qs"
  by (induction qs) (auto split: option.splits)

lemma distinct_th_slots:
  "distinct qs \<Longrightarrow> list_all (th_page_ok sz h) qs \<Longrightarrow> distinct (th_slots h qs)"
proof (induction qs)
  case (Cons q qs)
  then obtain p where p: "th_pages h q = Some p" "tp_ok sz p" by (auto simp: th_page_ok_def split: option.splits)
  have "inj_on (\<lambda>i. \<lparr>rid_page_id = q, rid_slot = of_nat i :: 32 word\<rparr>) {0..<length (tp_slots p)}"
  proof (rule inj_onI)
    fix x y assume "x \<in> {0..<length (tp_slots p)}" "y \<in> {0..<length (tp_slots p)}"
      and "\<lparr>rid_page_id = q, rid_slot = of_nat x :: 32 word\<rparr> = \<lparr>rid_page_id = q, rid_slot = of_nat y\<rparr>"
    then have "unat (of_nat x :: 32 word) = unat (of_nat y :: 32 word)" and "x < 2 ^ 32" "y < 2 ^ 32"
      using tp_ok_length[OF p(2)] by simp_all
    then show "x = y" by (simp add: unat_slot)
  qed
  then have d: "distinct (map (\<lambda>i. \<lparr>rid_page_id = q, rid_slot = of_nat i :: 32 word\<rparr>) [0..<length (tp_slots p)])"
    by (simp add: distinct_map)
  have "q \<notin> set qs" using Cons.prems by simp
  then have "x \<notin> set (th_slots h qs)" if "rid_page_id x = q" for x using that th_slots_pages by blast
  then show ?case using Cons d p(1) by auto
qed simp

lemma TablePage_delete_length:
  "length (tp_slots (snd (TablePage_MarkDelete rid p))) = length (tp_slots p)"
  "length (tp_slots (TablePage_ApplyDelete sz rid p)) = length (tp_slots p)"
  by (auto simp: TablePage_MarkDelete_def TablePage_ApplyDelete_def Let_def split: option.splits bool.splits)

text \<open>Deleting a row of the heap (\<open>MarkDelete\<close> then \<open>ApplyDelete\<close>) keeps the
  heap well formed and its slot positions, and removes that row alone.\<close>

lemma th_delete_row:
  assumes wf: "th_wf sz h ps" and q: "rid_page_id rid \<in> set ps"
  shows "\<exists>h1 h2. TH_MarkDelete rid h = Some (True, h1) \<and> TH_ApplyDelete sz rid h1 = Some h2 \<and> th_wf sz h2 ps \<and>
           (\<forall>qs. th_slots h2 qs = th_slots h qs) \<and> th_live h2 = (th_live h)(rid := False) \<and>
           th_table h2 ps = (th_table h ps)(rid := None)"
proof -
  obtain p where p: "th_pages h (rid_page_id rid) = Some p" using th_wf_page[OF wf q] by auto
  note u = th_wf_unlatched[OF wf q p]
  define p1 where "p1 = snd (TablePage_MarkDelete rid p)"
  define p2 where "p2 = TablePage_ApplyDelete sz rid p1"
  have f1: "tp_ok sz p1 \<and> tp_page_id p1 = tp_page_id p \<and> tp_next_page_id p1 = tp_next_page_id p \<and>
         tp_wlatched p1 = tp_wlatched p \<and> TablePage_GetTuple rid p1 = None \<and>
         (\<forall>rid'. rid_slot rid' \<noteq> rid_slot rid \<longrightarrow> TablePage_GetTuple rid' p1 = TablePage_GetTuple rid' p)"
    using TablePage_MarkDelete_ok[of sz p rid] u by (simp add: p1_def)
  have f2: "tp_ok sz p2 \<and> tp_page_id p2 = tp_page_id p1 \<and> tp_next_page_id p2 = tp_next_page_id p1 \<and>
         tp_wlatched p2 = tp_wlatched p1 \<and> TablePage_GetTuple rid p2 = None \<and>
         (\<forall>rid'. rid_slot rid' \<noteq> rid_slot rid \<longrightarrow> TablePage_GetTuple rid' p2 = TablePage_GetTuple rid' p1)"
    using TablePage_ApplyDelete_ok[of sz p1 rid] f1 by (simp add: p2_def)
  have m: "TH_MarkDelete rid h = Some (True, th_put (rid_page_id rid) p1 h)"
    using TH_MarkDelete_page[OF p, where sz=sz] u by (simp add: p1_def)
  have a: "TH_ApplyDelete sz rid (th_put (rid_page_id rid) p1 h) = Some (th_put (rid_page_id rid) p2 h)"
    using TH_ApplyDelete_page[of "th_put (rid_page_id rid) p1 h" rid p1 sz] f1 u by (simp add: p2_def)
  have w: "th_wf sz (th_put (rid_page_id rid) p2 h) ps \<and>
           th_table (th_put (rid_page_id rid) p2 h) ps = (th_table h ps)(rid := TablePage_GetTuple rid p2)"
    using th_write_row[OF wf q p, of p2] f1 f2 u by auto
  have len: "length (tp_slots p2) = length (tp_slots p)" by (simp add: p1_def p2_def TablePage_delete_length)
  have "th_live (th_put (rid_page_id rid) p2 h) x = ((th_live h)(rid := False)) x" for x
  proof (cases "rid_page_id x = rid_page_id rid")
    case True
    show ?thesis
    proof (cases "x = rid")
      case False
      then show ?thesis using True row_id_slot_neq[OF False True] f1 f2 p by (simp add: th_live_def TH_GetTuple_def)
    qed (use f2 in \<open>simp add: th_live_def TH_GetTuple_def\<close>)
  qed (auto simp: th_live_def TH_GetTuple_def)
  then have "th_live (th_put (rid_page_id rid) p2 h) = (th_live h)(rid := False)" by (rule ext)
  moreover have "th_table (th_put (rid_page_id rid) p2 h) ps = (th_table h ps)(rid := None)" using w f2 by simp
  ultimately show ?thesis using m a w th_slots_put[OF p len] by blast
qed

lemma th_table_GetTuple:
  "th_table h ps x = Some row \<Longrightarrow> TH_GetTuple x h = (True, Some row)"
  by (auto simp: th_table_def TH_GetTuple_def split: if_splits option.splits)

lemma th_rids_live:
  "list_all (th_page_ok sz h) ps \<Longrightarrow> x \<in> set (th_rids h ps) \<Longrightarrow> th_table h ps x \<noteq> None"
  using th_slots_pages[of x h ps] by (auto simp: th_rids_slots th_live_def th_table_def)

lemma th_table_rids:
  assumes ok: "list_all (th_page_ok sz h) ps" and t: "th_table h ps x = Some v"
  shows "x \<in> set (th_rids h ps)"
proof -
  obtain p where q: "rid_page_id x \<in> set ps" and p: "th_pages h (rid_page_id x) = Some p"
    and g: "TablePage_GetTuple x p = Some v" using th_table_Some[OF t] by blast
  have i: "unat (rid_slot x) < length (tp_slots p)" using g by (auto simp: TablePage_GetTuple_def Let_def split: if_splits)
  have "x \<in> set (th_slots h ps)"
    using q p i by (auto simp: th_slots_def image_iff intro!: bexI[of _ "rid_page_id x"] bexI[of _ "unat (rid_slot x)"])
  moreover have "th_live h x" using t by (simp add: th_live_def th_table_def split: if_splits)
  ultimately show ?thesis using th_rids_slots[OF ok] by simp
qed

lemma th_wf_example_row: "th_wf (\<lambda>x. x) th_example_row [0]"
  by (simp add: th_wf_def th_example_row_def th_example_def th_page_ok_def tp_ok_def tp_used_def slot_size_def
      TablePage_Init_def new_table_page_def INVALID_PAGE_ID_def PAGE_SIZE_def SIZE_TABLE_PAGE_HEADER_def SIZE_SLOT_def)

lemma th_wf_example_skip: "th_wf (\<lambda>x. x) th_example_skip [0, 1]"
  by (simp add: th_wf_def th_example_skip_def th_page_ok_def tp_ok_def tp_used_def slot_size_def
      TablePage_Init_def new_table_page_def INVALID_PAGE_ID_def PAGE_SIZE_def SIZE_TABLE_PAGE_HEADER_def SIZE_SLOT_def)

lemma th_table_example_row: "th_table th_example_row [0] rid0 = Some 10"
  by (simp add: th_table_eq th_example_row_def th_example_def rid0_def TablePage_GetTuple_def)

lemma TH_MarkDelete_refines_witness:
  "\<exists>h'. TH_MarkDelete rid0 th_example_row = Some (True, h') \<and> th_wf (\<lambda>x. x) h' [0] \<and>
     th_table h' [0] = (th_table th_example_row [0])(rid0 := None)"
  using TH_MarkDelete_refines[OF th_wf_example_row, of rid0] by (simp add: rid0_def)

lemma TH_MarkDelete_RollbackDelete_witness:
  "\<exists>h'. TH_MarkDelete rid0 th_example_row = Some (True, h') \<and> th_table h' [0] rid0 = None \<and>
     TH_RollbackDelete rid0 h' = Some th_example_row"
  using TH_MarkDelete_RollbackDelete[OF th_wf_example_row th_table_example_row] .

lemma TH_ApplyDelete_refines_witness:
  "\<exists>h'. TH_ApplyDelete (\<lambda>x. x) rid0 th_example_row = Some h' \<and> th_wf (\<lambda>x. x) h' [0] \<and>
     th_table h' [0] = (th_table th_example_row [0])(rid0 := None)"
  using TH_ApplyDelete_refines[OF th_wf_example_row, of rid0] by (simp add: rid0_def)

lemma TH_UpdateTuple_refines_witness:
  "\<exists>h'. TH_UpdateTuple (\<lambda>x. x) 5 rid0 th_example_row = Some (True, h') \<and> th_wf (\<lambda>x. x) h' [0] \<and>
     th_table h' [0] = (th_table th_example_row [0])(rid0 \<mapsto> 5)"
  using TH_UpdateTuple_refines[OF th_wf_example_row th_table_example_row, of 5] by simp

lemma TH_UpdateTuple_latch_leak_witness:
  "\<exists>h'. TH_UpdateTuple (\<lambda>x. x) 20 rid0 th_example_row = Some (False, h') \<and>
     th_table h' [0] = th_table th_example_row [0] \<and> \<not> th_wf (\<lambda>x. x) h' [0] \<and> TH_MarkDelete rid0 h' = None"
  using TH_UpdateTuple_latch_leak[OF th_wf_example_row th_table_example_row, of 20] by simp

lemma TH_Scan_complete_witness: "TH_Scan th_example_row = Some [rid0]"
proof -
  have p: "th_pages th_example_row (th_first_page_id th_example_row) =
           Some ((TablePage_Init 0 INVALID_PAGE_ID new_table_page)\<lparr>tp_slots := [Some (10, False)], tp_free_space := 4054\<rparr>)"
    by (simp add: th_example_row_def th_example_def)
  have l: "tp_live ((TablePage_Init 0 INVALID_PAGE_ID new_table_page)\<lparr>tp_slots := [Some (10::nat, False)], tp_free_space := 4054\<rparr>) = [rid0]"
    by (simp add: tp_live_def live_slot_def TablePage_Init_def rid0_def)
  have "th_rids th_example_row [0] = [rid0]" using p l by (simp add: th_example_row_def th_example_def)
  then show ?thesis using TH_Scan_complete[OF th_wf_example_row p] l by simp
qed

lemma TH_Scan_first_page_empty_witness:
  "th_rids th_example_skip [0, 1] \<noteq> [] \<and> TH_Begin th_example_skip = Some TH_End \<and> TH_Scan th_example_skip = Some []"
proof -
  have p: "th_pages th_example_skip (th_first_page_id th_example_skip) =
           Some ((TablePage_Init 0 INVALID_PAGE_ID new_table_page)\<lparr>tp_next_page_id := 1, tp_slots := [None], tp_free_space := 4064\<rparr>)"
    by (simp add: th_example_skip_def)
  have l: "tp_live ((TablePage_Init 0 INVALID_PAGE_ID new_table_page)\<lparr>tp_next_page_id := 1, tp_slots := [None :: (nat \<times> bool) option], tp_free_space := 4064\<rparr>) = []"
    by (simp add: tp_live_def live_slot_def)
  have "th_rids th_example_skip [0, 1] \<noteq> []"
    by (simp add: th_example_skip_def tp_live_def live_slot_def TablePage_Init_def)
  then show ?thesis using TH_Scan_first_page_empty[OF th_wf_example_skip p l] by simp
qed

end
