(* ===== verification/Catalog_Meta.thy ===== *)
theory Catalog_Meta
  imports Record_Layer
begin

text \<open>
  The catalog's persistent metadata:
  \<^item> the catalog meta page (\<^verbatim>\<open>CatalogMeta\<close> in \<^verbatim>\<open>src/src/catalog/catalog.cpp\<close>);
  \<^item> table metadata (\<^verbatim>\<open>src/src/catalog/table.cpp\<close>);
  \<^item> index metadata (\<^verbatim>\<open>src/src/catalog/indexes.cpp\<close>).

  The two maps of \<open>CatalogMeta\<close> are \<open>std::map\<close>s.  They are modelled as
  association lists kept sorted by key, the order in which a \<open>std::map\<close> is
  iterated; \<open>insert\<close> leaves an existing key alone.  \<open>CatalogMeta\<close> and
  \<open>TableMetadata\<close> write their bytes contiguously from the start of the
  buffer, so their \<open>SerializeTo\<close> is the list of bytes written.
  \<open>IndexMetadata::SerializeTo\<close> leaves gaps, so it is an in-place write into
  the page buffer (\<open>buf_write\<close>): it writes each 8-byte \<open>size_t\<close> length with
  \<open>MACH_WRITE_UINT32\<close> (4 bytes) and then skips 8.  As in \<open>Record_Layer\<close>, a
  name copied into \<open>new char[str_len]\<close> without a terminator is read back up
  to the first zero of the heap bytes that follow it (the \<open>junk\<close> arguments).
  \<open>IndexMetadata::DeserializeFrom\<close> copies \<open>str_len\<close> bytes and reads
  \<open>size\<close> keys from the page.  Reading past the end of the buffer is undefined,
  and is \<open>None\<close>.
\<close>

section \<open>Buffers and ordered maps\<close>

definition buf_write :: "nat \<Rightarrow> byte list \<Rightarrow> byte list \<Rightarrow> byte list" where
  "buf_write off bs buf = take off buf @ bs @ drop (off + length bs) buf"

text \<open>\<open>std::map::insert\<close> on a map kept as a key-sorted association list.\<close>

fun smap_insert :: "'k::linorder \<Rightarrow> 'v \<Rightarrow> ('k \<times> 'v) list \<Rightarrow> ('k \<times> 'v) list" where
  "smap_insert k v [] = [(k, v)]"
| "smap_insert k v ((k', v') # xs) =
     (if k < k' then (k, v) # (k', v') # xs
      else if k = k' then (k', v') # xs
      else (k', v') # smap_insert k v xs)"

definition smap_erase :: "'k \<Rightarrow> ('k \<times> 'v) list \<Rightarrow> ('k \<times> 'v) list" where
  "smap_erase k xs = filter (\<lambda>(k', _). k' \<noteq> k) xs"

definition smap_ok :: "('k::linorder \<times> 'v) list \<Rightarrow> bool" where
  "smap_ok xs \<longleftrightarrow> sorted_wrt (<) (map fst xs)"

section \<open>Magic numbers\<close>

definition CATALOG_METADATA_MAGIC_NUM :: "32 word" where "CATALOG_METADATA_MAGIC_NUM = 89849"
definition TABLE_METADATA_MAGIC_NUM :: "32 word" where "TABLE_METADATA_MAGIC_NUM = 344528"
definition INDEX_METADATA_MAGIC_NUM :: "32 word" where "INDEX_METADATA_MAGIC_NUM = 344528"

section \<open>The catalog meta page\<close>

type_synonym table_id = "32 word"
type_synonym index_id = "32 word"

record catalog_meta =
  table_meta_pages :: "(table_id \<times> page_id) list"
  index_meta_pages :: "(index_id \<times> page_id) list"

definition CatalogMeta_NewInstance :: catalog_meta where
  "CatalogMeta_NewInstance = \<lparr>table_meta_pages = [], index_meta_pages = []\<rparr>"

definition cm_entry_bytes :: "32 word \<times> page_id \<Rightarrow> byte list" where
  "cm_entry_bytes e = le_bytes 4 (fst e) @ le_bytes 4 (word_of_int (snd e) :: 32 word)"

definition CatalogMeta_SerializeTo :: "catalog_meta \<Rightarrow> byte list" where
  "CatalogMeta_SerializeTo cm =
     le_bytes 4 CATALOG_METADATA_MAGIC_NUM @
     le_bytes 8 (of_nat (length (table_meta_pages cm)) :: 64 word) @ concat (map cm_entry_bytes (table_meta_pages cm)) @
     le_bytes 8 (of_nat (length (index_meta_pages cm)) :: 64 word) @ concat (map cm_entry_bytes (index_meta_pages cm))"

definition CatalogMeta_GetSerializedSize :: "catalog_meta \<Rightarrow> nat" where
  "CatalogMeta_GetSerializedSize cm = 4 + 2 * 8 + length (table_meta_pages cm) * 8 + length (index_meta_pages cm) * 8"

text \<open>One of the two read loops: \<open>size\<close> entries from offset \<open>off\<close>, each
  inserted into the map; the result is the offset after them and the map.\<close>

fun cm_des_loop :: "nat \<Rightarrow> byte list \<Rightarrow> nat \<Rightarrow> (32 word \<times> page_id) list \<Rightarrow> nat \<times> (32 word \<times> page_id) list" where
  "cm_des_loop 0 buf off m = (off, m)"
| "cm_des_loop (Suc n) buf off m =
     cm_des_loop n buf (off + 8)
       (smap_insert (MACH_READ_FROM 4 buf off) (sint (MACH_READ_FROM 4 buf (off + 4) :: 32 word)) m)"

definition CatalogMeta_DeserializeFrom :: "byte list \<Rightarrow> catalog_meta option" where
  "CatalogMeta_DeserializeFrom buf =
     (if (MACH_READ_FROM 4 buf 0 :: 32 word) \<noteq> CATALOG_METADATA_MAGIC_NUM then None
      else
        (let (off1, tables) = cm_des_loop (unat (MACH_READ_FROM 8 buf 4 :: 64 word)) buf 12 [];
             (off2, indexes) = cm_des_loop (unat (MACH_READ_FROM 8 buf off1 :: 64 word)) buf (off1 + 8) []
         in Some \<lparr>table_meta_pages = tables, index_meta_pages = indexes\<rparr>))"

section \<open>Table metadata\<close>

record table_metadata =
  tm_table_id :: table_id
  tm_table_name :: "byte list"
  tm_root_page_id :: page_id
  tm_schema :: schema

definition TableMetadata_SerializeTo :: "table_metadata \<Rightarrow> byte list" where
  "TableMetadata_SerializeTo tm =
     le_bytes 4 TABLE_METADATA_MAGIC_NUM @ le_bytes 4 (tm_table_id tm) @
     le_bytes 8 (of_nat (length (tm_table_name tm)) :: 64 word) @ tm_table_name tm @
     le_bytes 4 (word_of_int (tm_root_page_id tm) :: 32 word) @ Schema_SerializeTo (tm_schema tm)"

definition TableMetadata_GetSerializedSize :: "table_metadata \<Rightarrow> nat" where
  "TableMetadata_GetSerializedSize tm = 4 + 4 + 8 + length (tm_table_name tm) + 4 + Schema_GetSerializedSize (tm_schema tm)"

text \<open>\<open>junks 0\<close> follows the copied table name, \<open>junks (Suc i)\<close> the name of
  column \<open>i\<close>.  An unexpected magic returns 0 and no metadata; a schema that
  fails to deserialise leaves \<open>schema\<close> uninitialised, which is \<open>None\<close>.\<close>

definition TableMetadata_DeserializeFrom ::
  "byte list \<Rightarrow> (nat \<Rightarrow> byte list) \<Rightarrow> (nat \<times> table_metadata option) option" where
  "TableMetadata_DeserializeFrom buf junks =
     (if (MACH_READ_FROM 4 buf 0 :: 32 word) = TABLE_METADATA_MAGIC_NUM then
        (let table_id = MACH_READ_FROM 4 buf 4;
             str_len = unat (MACH_READ_FROM 8 buf 8 :: 64 word);
             table_name = takeWhile (\<lambda>b. b \<noteq> 0) (take str_len (drop 16 buf) @ junks 0);
             root_page_id = sint (MACH_READ_FROM 4 buf (16 + str_len) :: 32 word)
         in do { (n, sch) \<leftarrow> Schema_DeserializeFrom (drop (20 + str_len) buf) (\<lambda>i. junks (Suc i));
                 schema \<leftarrow> sch;
                 Some (20 + str_len + n, Some \<lparr>tm_table_id = table_id, tm_table_name = table_name,
                                             tm_root_page_id = root_page_id, tm_schema = schema\<rparr>) })
      else Some (0, None))"

section \<open>Index metadata\<close>

record index_metadata =
  im_index_id :: index_id
  im_index_name :: "byte list"
  im_table_id :: table_id
  im_key_map :: "32 word list"

fun im_write_keys :: "32 word list \<Rightarrow> nat \<Rightarrow> byte list \<Rightarrow> byte list" where
  "im_write_keys [] off buf = buf"
| "im_write_keys (k # ks) off buf = im_write_keys ks (off + 4) (buf_write off (le_bytes 4 k) buf)"

definition IndexMetadata_SerializeTo :: "index_metadata \<Rightarrow> byte list \<Rightarrow> nat \<times> byte list" where
  "IndexMetadata_SerializeTo im buf =
     (let len = length (im_index_name im);
          b1 = buf_write 0 (le_bytes 4 INDEX_METADATA_MAGIC_NUM) buf;
          b2 = buf_write 4 (le_bytes 4 (im_index_id im)) b1;
          b3 = buf_write 8 (le_bytes 4 (of_nat len :: 32 word)) b2;
          b4 = buf_write 16 (im_index_name im) b3;
          b5 = buf_write (16 + len) (le_bytes 4 (im_table_id im)) b4;
          size = length (im_key_map im);
          b6 = buf_write (20 + len) (le_bytes 4 (of_nat size :: 32 word)) b5
      in (28 + len + 4 * size, im_write_keys (im_key_map im) (28 + len) b6))"

definition IndexMetadata_GetSerializedSize :: "index_metadata \<Rightarrow> nat" where
  "IndexMetadata_GetSerializedSize im = 4 + 4 + 4 + 2 * 8 + length (im_index_name im) + length (im_key_map im) * 4"

definition IndexMetadata_DeserializeFrom ::
  "byte list \<Rightarrow> byte list \<Rightarrow> (nat \<times> index_metadata option) option" where
  "IndexMetadata_DeserializeFrom buf junk =
     (if (MACH_READ_FROM 4 buf 0 :: 32 word) \<noteq> INDEX_METADATA_MAGIC_NUM then Some (0, None)
      else
        (let index_id = MACH_READ_FROM 4 buf 4;
             str_len = unat (MACH_READ_FROM 8 buf 8 :: 64 word)
         in if length buf < 16 + str_len then None
            else
              (let index_name = takeWhile (\<lambda>b. b \<noteq> 0) (take str_len (drop 16 buf) @ junk);
                   offset = 16 + str_len;
                   table_id = MACH_READ_FROM 4 buf offset;
                   size = unat (MACH_READ_FROM 8 buf (offset + 4) :: 64 word);
                   offset1 = offset + 12
               in if length buf < offset1 + 4 * size then None
                  else Some (offset1 + 4 * size,
                             Some \<lparr>im_index_id = index_id, im_index_name = index_name, im_table_id = table_id,
                                   im_key_map = map (\<lambda>i. MACH_READ_FROM 4 buf (offset1 + 4 * i)) [0..<size]\<rparr>))))"

section \<open>Ordered maps\<close>

lemma smap_ok_Cons: "smap_ok ((k, v) # xs) \<longleftrightarrow> (\<forall>k' \<in> fst ` set xs. k < k') \<and> smap_ok xs"
  by (auto simp: smap_ok_def)

lemma smap_insert_last:
  "(\<forall>k' \<in> fst ` set xs. k' < k) \<Longrightarrow> smap_insert k v xs = xs @ [(k, v)]"
  by (induction xs) auto

lemma smap_ok_append_lt:
  "smap_ok (xs @ (k, v) # ys) \<Longrightarrow> \<forall>k' \<in> fst ` set xs. k' < k"
  by (auto simp: smap_ok_def sorted_wrt_append)

lemma smap_ok_length:
  assumes "smap_ok (xs :: (32 word \<times> 'v) list)"
  shows "length xs < 2 ^ 64"
proof -
  have "distinct (map fst xs)" using assms strict_sorted_iff by (auto simp: smap_ok_def)
  then have "length xs = card (set (map fst xs))" using distinct_card[of "map fst xs"] by simp
  also have "\<dots> \<le> CARD(32 word)" by (rule card_mono) simp_all
  finally show ?thesis by (simp add: card_word)
qed

lemma smap_ok_le_last: "smap_ok xs \<Longrightarrow> e \<in> set xs \<Longrightarrow> fst e \<le> fst (last xs)"
  by (induction xs) (auto simp: smap_ok_def less_imp_le)

lemma set_smap_insert: "set (smap_insert k v xs) \<subseteq> insert (k, v) (set xs)"
  by (induction k v xs rule: smap_insert.induct) auto

lemma set_smap_insert_fresh: "k \<notin> fst ` set xs \<Longrightarrow> set (smap_insert k v xs) = insert (k, v) (set xs)"
  by (induction k v xs rule: smap_insert.induct) auto

lemma keys_smap_insert [simp]: "fst ` set (smap_insert k v xs) = insert k (fst ` set xs)"
  by (induction k v xs rule: smap_insert.induct) auto

lemma smap_ok_insert: "smap_ok xs \<Longrightarrow> smap_ok (smap_insert k v xs)"
  by (induction k v xs rule: smap_insert.induct) (auto simp: smap_ok_Cons)

lemma smap_ok_erase: "smap_ok xs \<Longrightarrow> smap_ok (smap_erase k xs)"
  by (induction xs) (auto simp: smap_ok_def smap_erase_def)

lemma set_smap_erase_iff [simp]: "(a, b) \<in> set (smap_erase k xs) \<longleftrightarrow> (a, b) \<in> set xs \<and> a \<noteq> k"
  by (auto simp: smap_erase_def)

lemma keys_smap_erase [simp]: "fst ` set (smap_erase k xs) = fst ` set xs - {k}"
  by (auto simp: smap_erase_def)

lemma smap_ok_filter: "smap_ok xs \<Longrightarrow> smap_ok (filter P xs)"
  by (induction xs) (auto simp: smap_ok_def)

lemma smap_erase_insert_fresh: "k \<notin> fst ` set xs \<Longrightarrow> smap_erase k (smap_insert k v xs) = xs"
  by (induction k v xs rule: smap_insert.induct) (force simp: smap_erase_def filter_id_conv)+

section \<open>Round trip of the catalog meta page\<close>

lemma length_cm_entry_bytes [simp]: "length (cm_entry_bytes e) = 8"
  by (simp add: cm_entry_bytes_def)

lemma length_concat_cm_entries [simp]: "length (concat (map cm_entry_bytes es)) = 8 * length es"
  by (induction es) simp_all

text \<open>The read loop gets back the entries written, in order, each appended to
  the map because the keys arrive in increasing order.\<close>

lemma cm_des_loop_SerializeTo:
  "smap_ok (acc @ es) \<Longrightarrow> (\<forall>e \<in> set es. - (2 ^ 31) \<le> snd e \<and> snd e < 2 ^ 31) \<Longrightarrow>
   cm_des_loop (length es) (pre @ concat (map cm_entry_bytes es) @ rest) (length pre) acc =
   (length pre + 8 * length es, acc @ es)"
proof (induction es arbitrary: pre acc)
  case Nil
  then show ?case by simp
next
  case (Cons e es)
  obtain k v where e: "e = (k, v)" by (cases e)
  have k: "(MACH_READ_FROM 4 (pre @ cm_entry_bytes e @ concat (map cm_entry_bytes es) @ rest) (length pre) :: 32 word) = k"
    using MACH_READ_FROM_append[of pre "length pre" 4 k] by (simp add: cm_entry_bytes_def e)
  have v: "sint (MACH_READ_FROM 4 (pre @ cm_entry_bytes e @ concat (map cm_entry_bytes es) @ rest) (length pre + 4) :: 32 word) = v"
    using MACH_READ_FROM_append[of "pre @ le_bytes 4 k" "length pre + 4" 4 "word_of_int v :: 32 word"]
      Cons.prems(2) sint_word_of_int_32[of v] by (simp add: cm_entry_bytes_def e)
  have ins: "smap_insert k v acc = acc @ [e]"
    using smap_insert_last smap_ok_append_lt[of acc k v es] Cons.prems(1) by (simp add: e)
  have "cm_des_loop (length es) ((pre @ cm_entry_bytes e) @ concat (map cm_entry_bytes es) @ rest)
          (length (pre @ cm_entry_bytes e)) (acc @ [e]) = (length (pre @ cm_entry_bytes e) + 8 * length es, (acc @ [e]) @ es)"
    by (rule Cons.IH) (use Cons.prems in auto)
  then show ?case using k v ins by (simp add: add.assoc)
qed

lemma im_fits_zero_page:
  assumes "IndexMetadata_GetSerializedSize im \<le> PAGE_SIZE"
  shows "IndexMetadata_GetSerializedSize im \<le> length zero_page" "take 4 (drop 12 zero_page) = replicate 4 0"
    "take 4 (drop (24 + length (im_index_name im)) zero_page) = replicate 4 0"
    "length (im_index_name im) < 2 ^ 32" "length (im_key_map im) < 2 ^ 32"
  using assms by (simp_all add: zero_page_def IndexMetadata_GetSerializedSize_def PAGE_SIZE_def)

text \<open>The catalog meta page round-trips: with keys in increasing order (as
  a \<open>std::map\<close> holds them) and page ids within 32 bits, deserialising the
  serialised meta data gives it back, and the bytes written are
  \<open>GetSerializedSize\<close> many.\<close>

lemma CatalogMeta_roundtrip:
  assumes ok: "smap_ok (table_meta_pages cm)" "smap_ok (index_meta_pages cm)"
    and pids: "\<forall>e \<in> set (table_meta_pages cm @ index_meta_pages cm). - (2 ^ 31) \<le> snd e \<and> snd e < 2 ^ 31"
    and lens: "length (table_meta_pages cm) < 2 ^ 64" "length (index_meta_pages cm) < 2 ^ 64"
  shows "CatalogMeta_DeserializeFrom (CatalogMeta_SerializeTo cm @ rest) = Some cm \<and>
         length (CatalogMeta_SerializeTo cm) = CatalogMeta_GetSerializedSize cm"
proof -
  let ?T = "table_meta_pages cm" and ?I = "index_meta_pages cm"
  let ?h1 = "le_bytes 4 CATALOG_METADATA_MAGIC_NUM @ le_bytes 8 (of_nat (length ?T) :: 64 word)"
  let ?h2 = "?h1 @ concat (map cm_entry_bytes ?T) @ le_bytes 8 (of_nat (length ?I) :: 64 word)"
  have buf: "CatalogMeta_SerializeTo cm @ rest = ?h1 @ concat (map cm_entry_bytes ?T) @
               (le_bytes 8 (of_nat (length ?I) :: 64 word) @ concat (map cm_entry_bytes ?I) @ rest)"
    by (simp add: CatalogMeta_SerializeTo_def)
  have l1: "cm_des_loop (length ?T) (CatalogMeta_SerializeTo cm @ rest) 12 [] = (12 + 8 * length ?T, ?T)"
    using cm_des_loop_SerializeTo[of "[]" ?T ?h1] ok(1) pids unfolding buf by simp
  have buf2: "CatalogMeta_SerializeTo cm @ rest = ?h2 @ concat (map cm_entry_bytes ?I) @ rest"
    by (simp add: CatalogMeta_SerializeTo_def)
  have l2: "cm_des_loop (length ?I) (CatalogMeta_SerializeTo cm @ rest) (20 + 8 * length ?T) [] =
            (20 + 8 * length ?T + 8 * length ?I, ?I)"
    using cm_des_loop_SerializeTo[of "[]" ?I ?h2] ok(2) pids unfolding buf2 by (simp add: add.commute)
  have m: "(MACH_READ_FROM 4 (CatalogMeta_SerializeTo cm @ rest) 0 :: 32 word) = CATALOG_METADATA_MAGIC_NUM"
    using MACH_READ_FROM_append[of "[]" 0 4 CATALOG_METADATA_MAGIC_NUM] by (simp add: CatalogMeta_SerializeTo_def)
  have n1: "unat (MACH_READ_FROM 8 (CatalogMeta_SerializeTo cm @ rest) 4 :: 64 word) = length ?T"
    using MACH_READ_FROM_append[of "le_bytes 4 CATALOG_METADATA_MAGIC_NUM" 4 8 "of_nat (length ?T) :: 64 word"] lens(1)
    by (simp add: CatalogMeta_SerializeTo_def)
  have n2: "unat (MACH_READ_FROM 8 (CatalogMeta_SerializeTo cm @ rest) (12 + 8 * length ?T) :: 64 word) = length ?I"
    using MACH_READ_FROM_append[of "?h1 @ concat (map cm_entry_bytes ?T)" "12 + 8 * length ?T" 8
        "of_nat (length ?I) :: 64 word"] lens(2)
    by (simp add: CatalogMeta_SerializeTo_def)
  show ?thesis
    using m n1 n2 l1 l2
    by (simp add: CatalogMeta_DeserializeFrom_def CatalogMeta_SerializeTo_def CatalogMeta_GetSerializedSize_def)
qed

section \<open>Round trip of table metadata\<close>

text \<open>Table metadata round-trips through its serialisation, consuming
  \<open>GetSerializedSize\<close> bytes, except for the name.  Like a column name, the
  table name is copied into an unterminated \<open>char\<close> array, so it comes back
  followed by the non-zero heap bytes after that array.  The schema's column
  names are assumed followed by a zero byte here.\<close>

lemma TableMetadata_DeserializeFrom_SerializeTo:
  assumes sch: "schema_ok (tm_schema tm)" and name: "0 \<notin> set (tm_table_name tm)" "length (tm_table_name tm) < 2 ^ 64"
    and root: "- (2 ^ 31) \<le> tm_root_page_id tm" "tm_root_page_id tm < 2 ^ 31"
    and junk: "\<forall>j < length (sch_columns (tm_schema tm)). takeWhile (\<lambda>b. b \<noteq> 0) (junks (Suc j)) = []"
  shows "TableMetadata_DeserializeFrom (TableMetadata_SerializeTo tm @ rest) junks =
           Some (TableMetadata_GetSerializedSize tm,
                 Some (tm\<lparr>tm_table_name := tm_table_name tm @ takeWhile (\<lambda>b. b \<noteq> 0) (junks 0)\<rparr>)) \<and>
         length (TableMetadata_SerializeTo tm) = TableMetadata_GetSerializedSize tm"
proof -
  let ?n = "tm_table_name tm" and ?S = "Schema_SerializeTo (tm_schema tm)"
  let ?h = "le_bytes 4 TABLE_METADATA_MAGIC_NUM @ le_bytes 4 (tm_table_id tm) @ le_bytes 8 (of_nat (length ?n) :: 64 word)"
  let ?r = "le_bytes 4 (word_of_int (tm_root_page_id tm) :: 32 word)"
  have buf: "TableMetadata_SerializeTo tm @ rest = ?h @ ?n @ ?r @ ?S @ rest"
    by (simp add: TableMetadata_SerializeTo_def)
  have m: "(MACH_READ_FROM 4 (TableMetadata_SerializeTo tm @ rest) 0 :: 32 word) = TABLE_METADATA_MAGIC_NUM"
    using MACH_READ_FROM_append[of "[]" 0 4 TABLE_METADATA_MAGIC_NUM] by (simp add: TableMetadata_SerializeTo_def)
  have i: "(MACH_READ_FROM 4 (TableMetadata_SerializeTo tm @ rest) 4 :: 32 word) = tm_table_id tm"
    using MACH_READ_FROM_append[of "le_bytes 4 TABLE_METADATA_MAGIC_NUM" 4 4 "tm_table_id tm"]
    by (simp add: TableMetadata_SerializeTo_def)
  have l: "unat (MACH_READ_FROM 8 (TableMetadata_SerializeTo tm @ rest) 8 :: 64 word) = length ?n"
    using MACH_READ_FROM_append[of "le_bytes 4 TABLE_METADATA_MAGIC_NUM @ le_bytes 4 (tm_table_id tm)" 8 8
        "of_nat (length ?n) :: 64 word"] name(2) by (simp add: TableMetadata_SerializeTo_def)
  have nm: "take (length ?n) (drop 16 (TableMetadata_SerializeTo tm @ rest)) = ?n"
    unfolding buf by simp
  have r: "sint (MACH_READ_FROM 4 (TableMetadata_SerializeTo tm @ rest) (16 + length ?n) :: 32 word) = tm_root_page_id tm"
    using MACH_READ_FROM_append[of "?h @ ?n" "16 + length ?n" 4 "word_of_int (tm_root_page_id tm) :: 32 word"]
      sint_word_of_int_32[OF root] unfolding buf by simp
  have d: "drop (20 + length ?n) (TableMetadata_SerializeTo tm @ rest) = ?S @ rest"
    unfolding buf by simp
  note sd = Schema_DeserializeFrom_SerializeTo[OF sch junk, of rest]
  show ?thesis
    using m i l nm r d sd takeWhile_nonzero_append[OF name(1), of "junks 0"]
    by (cases tm) (simp add: TableMetadata_DeserializeFrom_def TableMetadata_GetSerializedSize_def
                             TableMetadata_SerializeTo_def)
qed

section \<open>In-place writes\<close>

lemma buf_write_prefix:
  "length a \<le> off \<Longrightarrow> buf_write off bs (a @ rest) = a @ buf_write (off - length a) bs rest"
  by (simp add: buf_write_def)

lemma buf_write_0:
  "length mid = length bs \<Longrightarrow> buf_write 0 bs (mid @ post) = bs @ post"
  by (simp add: buf_write_def)

lemma buf_write_start: "buf_write 0 bs buf = bs @ drop (length bs) buf"
  by (simp add: buf_write_def)

lemma im_write_keys_prefix:
  "length a \<le> off \<Longrightarrow> im_write_keys ks off (a @ rest) = a @ im_write_keys ks (off - length a) rest"
  by (induction ks arbitrary: off rest) (simp_all add: buf_write_prefix)

lemma im_write_keys_0:
  "length mid = 4 * length ks \<Longrightarrow> im_write_keys ks 0 (mid @ post) = concat (map (le_bytes 4) ks) @ post"
proof (induction ks arbitrary: mid post)
  case (Cons k ks)
  have "buf_write 0 (le_bytes 4 k) (mid @ post) = le_bytes 4 k @ (drop 4 mid @ post)"
    using Cons.prems by (simp add: buf_write_def)
  moreover have "im_write_keys ks 4 (le_bytes 4 k @ drop 4 mid @ post) = le_bytes 4 k @ im_write_keys ks 0 (drop 4 mid @ post)"
    using im_write_keys_prefix[of "le_bytes 4 k" 4 ks] by simp
  ultimately show ?case using Cons.IH[of "drop 4 mid" post] Cons.prems by simp
qed simp

text \<open>Cutting a buffer into consecutive segments.\<close>

lemma take_drop_seg: "i \<le> j \<Longrightarrow> j \<le> length xs \<Longrightarrow> take (j - i) (drop i xs) @ drop j xs = drop i xs"
  by (metis append_take_drop_id diff_le_mono drop_drop le_add_diff_inverse2 take_drop)

text \<open>What \<open>IndexMetadata::SerializeTo\<close> leaves in a buffer cut into the
  segments it writes: the fields, with the buffer's own bytes in the two 4-byte
  gaps and after the end.\<close>

lemma IndexMetadata_SerializeTo_segs:
  fixes im :: index_metadata
  assumes "length s0 = 4" "length s1 = 4" "length s2 = 4" "length s3 = 4"
    "length sn = length (im_index_name im)" "length s5 = 4" "length s6 = 4" "length s7 = 4"
    "length sk = 4 * length (im_key_map im)"
  shows "IndexMetadata_SerializeTo im (s0 @ s1 @ s2 @ s3 @ sn @ s5 @ s6 @ s7 @ sk @ r) =
    (28 + length (im_index_name im) + 4 * length (im_key_map im),
     le_bytes 4 INDEX_METADATA_MAGIC_NUM @ le_bytes 4 (im_index_id im) @
     le_bytes 4 (of_nat (length (im_index_name im)) :: 32 word) @ s3 @ im_index_name im @
     le_bytes 4 (im_table_id im) @ le_bytes 4 (of_nat (length (im_key_map im)) :: 32 word) @ s7 @
     concat (map (le_bytes 4) (im_key_map im)) @ r)"
  using assms
  by (simp add: IndexMetadata_SerializeTo_def Let_def buf_write_prefix buf_write_0 im_write_keys_prefix
      im_write_keys_0)

lemma IndexMetadata_SerializeTo_eq:
  fixes im :: index_metadata
  defines "L \<equiv> length (im_index_name im)" and "K \<equiv> length (im_key_map im)"
  assumes len: "28 + L + 4 * K \<le> length buf"
  shows "IndexMetadata_SerializeTo im buf =
    (28 + L + 4 * K,
     le_bytes 4 INDEX_METADATA_MAGIC_NUM @ le_bytes 4 (im_index_id im) @ le_bytes 4 (of_nat L :: 32 word) @
     take 4 (drop 12 buf) @ im_index_name im @ le_bytes 4 (im_table_id im) @ le_bytes 4 (of_nat K :: 32 word) @
     take 4 (drop (24 + L) buf) @ concat (map (le_bytes 4) (im_key_map im)) @ drop (28 + L + 4 * K) buf)"
proof -
  have seg: "buf = take 4 buf @ take 4 (drop 4 buf) @ take 4 (drop 8 buf) @ take 4 (drop 12 buf) @
                   take L (drop 16 buf) @ take 4 (drop (16 + L) buf) @ take 4 (drop (20 + L) buf) @
                   take 4 (drop (24 + L) buf) @ take (4 * K) (drop (28 + L) buf) @ drop (28 + L + 4 * K) buf"
    using len take_drop_seg[of "28 + L" "28 + L + 4 * K" buf] take_drop_seg[of "24 + L" "28 + L" buf]
      take_drop_seg[of "20 + L" "24 + L" buf] take_drop_seg[of "16 + L" "20 + L" buf]
      take_drop_seg[of 16 "16 + L" buf] take_drop_seg[of 12 16 buf] take_drop_seg[of 8 12 buf]
      take_drop_seg[of 4 8 buf] take_drop_seg[of 0 4 buf]
    by (simp add: add.commute)
  have "IndexMetadata_SerializeTo im buf =
        IndexMetadata_SerializeTo im (take 4 buf @ take 4 (drop 4 buf) @ take 4 (drop 8 buf) @ take 4 (drop 12 buf) @
                   take L (drop 16 buf) @ take 4 (drop (16 + L) buf) @ take 4 (drop (20 + L) buf) @
                   take 4 (drop (24 + L) buf) @ take (4 * K) (drop (28 + L) buf) @ drop (28 + L + 4 * K) buf)"
    by (rule arg_cong[where f = "IndexMetadata_SerializeTo im"]) (rule seg)
  also have "\<dots> = (28 + L + 4 * K,
     le_bytes 4 INDEX_METADATA_MAGIC_NUM @ le_bytes 4 (im_index_id im) @ le_bytes 4 (of_nat L :: 32 word) @
     take 4 (drop 12 buf) @ im_index_name im @ le_bytes 4 (im_table_id im) @ le_bytes 4 (of_nat K :: 32 word) @
     take 4 (drop (24 + L) buf) @ concat (map (le_bytes 4) (im_key_map im)) @ drop (28 + L + 4 * K) buf)"
    unfolding L_def K_def by (rule IndexMetadata_SerializeTo_segs) (use len in \<open>simp_all add: L_def K_def\<close>)
  finally show ?thesis .
qed

section \<open>Round trip of index metadata\<close>

lemma le_bytes_of_nat_32_64:
  "le_bytes 4 (of_nat L :: 32 word) = le_bytes 4 (of_nat L :: 64 word)"
  unfolding le_bytes_def by (intro map_cong refl bit_word_eqI) (auto simp: bit_simps)

text \<open>An 8-byte \<open>size_t\<close> read over a 4-byte \<open>MACH_WRITE_UINT32\<close> of \<open>L\<close>
  and the 4 bytes \<open>g\<close> after it: \<open>L\<close> if \<open>g\<close> is zero, at least \<open>2^32\<close>
  otherwise.\<close>

lemma read_size_t_zero:
  assumes "L < 2 ^ 32"
  shows "unat (le_word (le_bytes 4 (of_nat L :: 32 word) @ replicate 4 0) :: 64 word) = L"
proof -
  have "(le_word (le_bytes 4 (of_nat L :: 32 word)) :: 64 word) = of_nat L"
    using assms unfolding le_bytes_of_nat_32_64 le_word_le_bytes_take
    by (simp add: take_bit_of_nat unsigned_of_nat take_bit_nat_eq_self)
  then show ?thesis using assms by (simp add: le_word_append unat_of_nat)
qed

lemma read_size_t_big:
  assumes "length g = 4" "g \<noteq> replicate 4 0"
  shows "2 ^ 32 \<le> unat (le_word (le_bytes 4 (of_nat L :: 32 word) @ g) :: 64 word)"
proof -
  have "(le_word g :: 64 word) \<noteq> 0" using le_word_nonzero[OF assms(1) _ assms(2), where 'a=64] by simp
  then obtain n where n: "bit (le_word g :: 64 word) n" using bit_eq_iff[of "le_word g :: 64 word" 0] by auto
  then have "n < 32" using bit_le_word[of g n] assms(1) by simp
  then have "bit (le_word (le_bytes 4 (of_nat L :: 32 word) @ g) :: 64 word) (32 + n)"
    using n by (simp add: le_word_append bit_simps)
  then have "2 ^ (32 + n) \<le> unat (le_word (le_bytes 4 (of_nat L :: 32 word) @ g) :: 64 word)"
    by (rule bit_unat_ge)
  moreover have "(2::nat) ^ 32 \<le> 2 ^ (32 + n)" by (simp add: power_add)
  ultimately show ?thesis by linarith
qed

lemma length_concat_le_bytes4 [simp]: "length (concat (map (le_bytes 4) (ks :: 32 word list))) = 4 * length ks"
  by (induction ks) simp_all

lemma read_keys:
  "map (\<lambda>i. MACH_READ_FROM 4 (pre @ concat (map (le_bytes 4) ks) @ post) (length pre + 4 * i) :: 32 word)
       [0..<length ks] = ks"
proof (rule nth_equalityI)
  fix i assume "i < length (map (\<lambda>i. MACH_READ_FROM 4 (pre @ concat (map (le_bytes 4) ks) @ post) (length pre + 4 * i) :: 32 word)
       [0..<length ks])"
  then have i: "i < length ks" by simp
  have "concat (map (le_bytes 4) ks) =
        concat (map (le_bytes 4) (take i ks)) @ le_bytes 4 (ks ! i) @ concat (map (le_bytes 4) (drop (Suc i) ks))"
    using id_take_nth_drop[OF i] by (metis concat.simps(2) concat_append list.simps(9) map_append)
  then have "(MACH_READ_FROM 4 (pre @ concat (map (le_bytes 4) ks) @ post) (length pre + 4 * i) :: 32 word) = ks ! i"
    using MACH_READ_FROM_append[of "pre @ concat (map (le_bytes 4) (take i ks))" "length pre + 4 * i" 4 "ks ! i"] i
    by (simp add: min_def)
  then show "map (\<lambda>i. MACH_READ_FROM 4 (pre @ concat (map (le_bytes 4) ks) @ post) (length pre + 4 * i) :: 32 word)
       [0..<length ks] ! i = ks ! i" using i by simp
qed simp

text \<open>Index metadata written into a buffer whose two gap words are zero
  (as in a page fresh from \<open>NewPage\<close>, which zeroes it) round-trips,
  consuming \<open>GetSerializedSize\<close> bytes.  As with table names, the index name
  comes back followed by the non-zero heap bytes after its unterminated copy.\<close>

lemma IndexMetadata_DeserializeFrom_SerializeTo:
  assumes len: "IndexMetadata_GetSerializedSize im \<le> length buf"
    and gaps: "take 4 (drop 12 buf) = replicate 4 0" "take 4 (drop (24 + length (im_index_name im)) buf) = replicate 4 0"
    and name: "0 \<notin> set (im_index_name im)" "length (im_index_name im) < 2 ^ 32"
    and keys: "length (im_key_map im) < 2 ^ 32"
  shows "IndexMetadata_DeserializeFrom (snd (IndexMetadata_SerializeTo im buf)) junk =
           Some (IndexMetadata_GetSerializedSize im,
                 Some (im\<lparr>im_index_name := im_index_name im @ takeWhile (\<lambda>b. b \<noteq> 0) junk\<rparr>)) \<and>
         fst (IndexMetadata_SerializeTo im buf) = IndexMetadata_GetSerializedSize im"
proof -
  let ?L = "length (im_index_name im)" and ?K = "length (im_key_map im)"
  let ?pre = "le_bytes 4 INDEX_METADATA_MAGIC_NUM @ le_bytes 4 (im_index_id im) @ le_bytes 4 (of_nat ?L :: 32 word) @
              replicate 4 0 @ im_index_name im @ le_bytes 4 (im_table_id im) @ le_bytes 4 (of_nat ?K :: 32 word) @
              replicate 4 0"
  have sz: "IndexMetadata_GetSerializedSize im = 28 + ?L + 4 * ?K" by (simp add: IndexMetadata_GetSerializedSize_def)
  have eq: "IndexMetadata_SerializeTo im buf =
            (28 + ?L + 4 * ?K, ?pre @ concat (map (le_bytes 4) (im_key_map im)) @ drop (28 + ?L + 4 * ?K) buf)"
    using IndexMetadata_SerializeTo_eq[of im buf] len gaps sz by simp
  let ?B = "?pre @ concat (map (le_bytes 4) (im_key_map im)) @ drop (28 + ?L + 4 * ?K) buf"
  have lenB: "length ?B = length buf" using len sz by simp
  have m: "(MACH_READ_FROM 4 ?B 0 :: 32 word) = INDEX_METADATA_MAGIC_NUM"
    using MACH_READ_FROM_append[of "[]" 0 4 INDEX_METADATA_MAGIC_NUM] by simp
  have i: "(MACH_READ_FROM 4 ?B 4 :: 32 word) = im_index_id im"
    using MACH_READ_FROM_append[of "le_bytes 4 INDEX_METADATA_MAGIC_NUM" 4 4 "im_index_id im"] by simp
  have l: "unat (MACH_READ_FROM 8 ?B 8 :: 64 word) = ?L"
    using read_size_t_zero[OF name(2)] by (simp add: MACH_READ_FROM_def)
  have n: "take ?L (drop 16 ?B) = im_index_name im" by simp
  have t: "(MACH_READ_FROM 4 ?B (16 + ?L) :: 32 word) = im_table_id im"
    using MACH_READ_FROM_append[of "le_bytes 4 INDEX_METADATA_MAGIC_NUM @ le_bytes 4 (im_index_id im) @
        le_bytes 4 (of_nat ?L :: 32 word) @ replicate 4 0 @ im_index_name im" "16 + ?L" 4 "im_table_id im"] by simp
  have k: "unat (MACH_READ_FROM 8 ?B (16 + ?L + 4) :: 64 word) = ?K"
    using read_size_t_zero[OF keys] by (simp add: MACH_READ_FROM_def)
  have ks: "map (\<lambda>i. MACH_READ_FROM 4 ?B (16 + ?L + 12 + 4 * i) :: 32 word) [0..<?K] = im_key_map im"
    using read_keys[of ?pre "im_key_map im" "drop (28 + ?L + 4 * ?K) buf"] by (simp add: add.commute add.left_commute)
  have "IndexMetadata_DeserializeFrom ?B junk =
          Some (28 + ?L + 4 * ?K, Some (im\<lparr>im_index_name := im_index_name im @ takeWhile (\<lambda>b. b \<noteq> 0) junk\<rparr>))"
    using m i l n t k ks lenB len sz takeWhile_nonzero_append[OF name(1), of junk]
    by (cases im) (simp add: IndexMetadata_DeserializeFrom_def Let_def add.assoc)
  then show ?thesis using eq sz by simp
qed

text \<open>C25: \<open>SerializeTo\<close> writes each 8-byte length with 4 bytes and leaves the
  other 4 bytes as they were, and \<open>DeserializeFrom\<close> reads all 8.  So in a
  buffer of less than 4 GiB (a 4096-byte page), index metadata written over a
  non-zero byte in either gap cannot be read back: the name length or the key
  count read is at least \<open>2^32\<close>, and the copy runs past the end of the
  buffer.\<close>

theorem IndexMetadata_gap_garbage:
  assumes len: "IndexMetadata_GetSerializedSize im \<le> length buf" "length buf < 2 ^ 32"
    and name: "length (im_index_name im) < 2 ^ 32"
    and gap: "take 4 (drop 12 buf) \<noteq> replicate 4 0 \<or> take 4 (drop (24 + length (im_index_name im)) buf) \<noteq> replicate 4 0"
  shows "IndexMetadata_DeserializeFrom (snd (IndexMetadata_SerializeTo im buf)) junk = None"
proof -
  let ?L = "length (im_index_name im)" and ?K = "length (im_key_map im)"
  let ?g1 = "take 4 (drop 12 buf)" and ?g2 = "take 4 (drop (24 + ?L) buf)"
  let ?pre = "le_bytes 4 INDEX_METADATA_MAGIC_NUM @ le_bytes 4 (im_index_id im) @ le_bytes 4 (of_nat ?L :: 32 word) @
              ?g1 @ im_index_name im @ le_bytes 4 (im_table_id im) @ le_bytes 4 (of_nat ?K :: 32 word) @ ?g2"
  have sz: "IndexMetadata_GetSerializedSize im = 28 + ?L + 4 * ?K" by (simp add: IndexMetadata_GetSerializedSize_def)
  let ?B = "?pre @ concat (map (le_bytes 4) (im_key_map im)) @ drop (28 + ?L + 4 * ?K) buf"
  have eq: "snd (IndexMetadata_SerializeTo im buf) = ?B"
    using IndexMetadata_SerializeTo_eq[of im buf] len sz by simp
  have lg: "length ?g1 = 4" "length ?g2 = 4" using len sz by simp_all
  have lenB: "length ?B = length buf" using len sz by simp
  have m: "(MACH_READ_FROM 4 ?B 0 :: 32 word) = INDEX_METADATA_MAGIC_NUM"
    using MACH_READ_FROM_append[of "[]" 0 4 INDEX_METADATA_MAGIC_NUM] by simp
  have rl: "MACH_READ_FROM 8 ?B 8 = (le_word (le_bytes 4 (of_nat ?L :: 32 word) @ ?g1) :: 64 word)"
    using lg by (simp add: MACH_READ_FROM_def)
  show ?thesis
  proof (cases "?g1 = replicate 4 0")
    case False
    then have "2 ^ 32 \<le> unat (MACH_READ_FROM 8 ?B 8 :: 64 word)" using read_size_t_big[OF lg(1) False] rl by simp
    then show ?thesis using m lenB len(2) eq by (simp add: IndexMetadata_DeserializeFrom_def Let_def)
  next
    case True
    then have g2: "?g2 \<noteq> replicate 4 0" using gap by simp
    have l: "unat (MACH_READ_FROM 8 ?B 8 :: 64 word) = ?L" using rl True read_size_t_zero[OF name] by simp
    have "MACH_READ_FROM 8 ?B (16 + ?L + 4) = (le_word (le_bytes 4 (of_nat ?K :: 32 word) @ ?g2) :: 64 word)"
      using lg by (simp add: MACH_READ_FROM_def)
    then have "2 ^ 32 \<le> unat (MACH_READ_FROM 8 ?B (16 + ?L + 4) :: 64 word)"
      using read_size_t_big[OF lg(2) g2] by simp
    then show ?thesis using m l lenB len eq sz by (simp add: IndexMetadata_DeserializeFrom_def Let_def)
  qed
qed

text \<open>C24: table metadata written at the start of a page, as \<open>CreateTable\<close> writes
  it, is read back by \<open>DeserializeFrom\<close>, which consumes \<open>GetSerializedSize\<close>
  bytes.  Like a column name, the table name is copied into an unterminated
  \<open>char\<close> array, so it comes back followed by the non-zero heap bytes after
  that array (\<open>junks 0\<close>); the column names are assumed followed by a zero.\<close>

theorem TableMetadata_roundtrip:
  assumes sch: "schema_ok (tm_schema tm)" and name: "0 \<notin> set (tm_table_name tm)" "length (tm_table_name tm) < 2 ^ 64"
    and root: "- (2 ^ 31) \<le> tm_root_page_id tm" "tm_root_page_id tm < 2 ^ 31"
    and junk: "\<forall>j < length (sch_columns (tm_schema tm)). takeWhile (\<lambda>b. b \<noteq> 0) (junks (Suc j)) = []"
  shows "TableMetadata_DeserializeFrom (buf_write 0 (TableMetadata_SerializeTo tm) page) junks =
           Some (TableMetadata_GetSerializedSize tm,
                 Some (tm\<lparr>tm_table_name := tm_table_name tm @ takeWhile (\<lambda>b. b \<noteq> 0) (junks 0)\<rparr>))"
  unfolding buf_write_start
  by (rule conjunct1[OF TableMetadata_DeserializeFrom_SerializeTo[OF assms]])

text \<open>Index metadata written into a page fresh from \<open>NewPage\<close> (which
  zeroes it), as \<open>CreateIndex\<close> writes it, is read back by \<open>DeserializeFrom\<close>
  whenever it fits the page; the bytes consumed are \<open>GetSerializedSize\<close>, and so
  is the size \<open>SerializeTo\<close> returns.  The index name comes back followed by
  the non-zero heap bytes after its unterminated copy.\<close>

theorem IndexMetadata_roundtrip:
  assumes fits: "IndexMetadata_GetSerializedSize im \<le> PAGE_SIZE"
    and name: "0 \<notin> set (im_index_name im)"
  shows "IndexMetadata_DeserializeFrom (snd (IndexMetadata_SerializeTo im zero_page)) junk =
           Some (IndexMetadata_GetSerializedSize im,
                 Some (im\<lparr>im_index_name := im_index_name im @ takeWhile (\<lambda>b. b \<noteq> 0) junk\<rparr>)) \<and>
         fst (IndexMetadata_SerializeTo im zero_page) = IndexMetadata_GetSerializedSize im"
  using IndexMetadata_DeserializeFrom_SerializeTo[of im zero_page junk] im_fits_zero_page[OF fits] name by simp

section \<open>Witnesses\<close>

lemma CatalogMeta_roundtrip_witness:
  "CatalogMeta_DeserializeFrom (CatalogMeta_SerializeTo
      \<lparr>table_meta_pages = [(0, 5), (1, 7)], index_meta_pages = [(0, 9)]\<rparr>) =
     Some \<lparr>table_meta_pages = [(0, 5), (1, 7)], index_meta_pages = [(0, 9)]\<rparr> \<and>
   length (CatalogMeta_SerializeTo \<lparr>table_meta_pages = [(0, 5), (1, 7)], index_meta_pages = [(0, 9)]\<rparr>) = 44"
  using CatalogMeta_roundtrip[of "\<lparr>table_meta_pages = [(0, 5), (1, 7)], index_meta_pages = [(0, 9)]\<rparr>" "[]"]
  by (simp add: smap_ok_def CatalogMeta_GetSerializedSize_def)

lemma TableMetadata_roundtrip_witness:
  "TableMetadata_DeserializeFrom (buf_write 0 (TableMetadata_SerializeTo
      \<lparr>tm_table_id = 3, tm_table_name = [116], tm_root_page_id = 2,
       tm_schema = \<lparr>sch_columns = [\<lparr>col_name = [97], col_type = kTypeInt, col_len = 4, col_table_ind = 0,
                                   col_nullable = False, col_unique = True\<rparr>]\<rparr>\<rparr>) zero_page) (\<lambda>i. [0]) =
   Some (60, Some \<lparr>tm_table_id = 3, tm_table_name = [116], tm_root_page_id = 2,
       tm_schema = \<lparr>sch_columns = [\<lparr>col_name = [97], col_type = kTypeInt, col_len = 4, col_table_ind = 0,
                                   col_nullable = False, col_unique = True\<rparr>]\<rparr>\<rparr>)"
  using TableMetadata_roundtrip[of "\<lparr>tm_table_id = 3, tm_table_name = [116], tm_root_page_id = 2,
       tm_schema = \<lparr>sch_columns = [\<lparr>col_name = [97], col_type = kTypeInt, col_len = 4, col_table_ind = 0,
                                   col_nullable = False, col_unique = True\<rparr>]\<rparr>\<rparr>" "\<lambda>i. [0]" zero_page]
  by (simp add: schema_ok_def column_ok_def TableMetadata_GetSerializedSize_def Schema_GetSerializedSize_def
      Column_GetSerializedSize_def)

lemma IndexMetadata_roundtrip_witness:
  "IndexMetadata_DeserializeFrom (snd (IndexMetadata_SerializeTo
      \<lparr>im_index_id = 1, im_index_name = [105], im_table_id = 3, im_key_map = [0]\<rparr> zero_page)) [0] =
   Some (33, Some \<lparr>im_index_id = 1, im_index_name = [105], im_table_id = 3, im_key_map = [0]\<rparr>)"
  using IndexMetadata_roundtrip[of "\<lparr>im_index_id = 1, im_index_name = [105], im_table_id = 3, im_key_map = [0]\<rparr>"
      "[0]"]
  by (simp add: IndexMetadata_GetSerializedSize_def zero_page_def PAGE_SIZE_def)

lemma IndexMetadata_gap_garbage_witness:
  "IndexMetadata_DeserializeFrom (snd (IndexMetadata_SerializeTo
      \<lparr>im_index_id = 1, im_index_name = [105], im_table_id = 3, im_key_map = [0]\<rparr>
      (replicate 12 0 @ [1] @ replicate 4083 0))) [0] = None"
proof -
  have "replicate 4 (0::byte) = [0, 0, 0, 0]" "replicate 3 (0::byte) = [0, 0, 0]" by (simp_all add: eval_nat_numeral)
  then show ?thesis
    using IndexMetadata_gap_garbage[of "\<lparr>im_index_id = 1, im_index_name = [105], im_table_id = 3, im_key_map = [0]\<rparr>"
        "replicate 12 0 @ [1] @ replicate 4083 0" "[0]"]
    by (simp add: IndexMetadata_GetSerializedSize_def)
qed

end
