(* ===== verification/Catalog.thy ===== *)
theory Catalog
  imports Catalog_Meta "HOL-Library.AList"
begin

text \<open>
  The catalog manager of \<^verbatim>\<open>src/src/catalog/catalog.cpp\<close>.  Its state is a record
  with these parts:
  \<^item> the pages it reaches through the buffer pool, as a store from page id to
    bytes, and the page id \<open>NewPage\<close> hands out next.  A page fresh from
    \<open>NewPage\<close> is zeroed (\<open>ResetMemory\<close>), and a fetch of a page the store does
    not hold is a \<open>nullptr\<close> dereference, \<open>None\<close>;
  \<^item> the \<open>CatalogMeta\<close> of \<open>Catalog_Meta\<close>;
  \<^item> the four \<open>std::unordered_map\<close>s \<open>table_names_\<close>, \<open>tables_\<close>,
    \<open>index_names_\<close> and \<open>indexes_\<close>, as association lists.  Their
    \<open>insert\<close> keeps an existing key, and \<open>erase\<close> is \<open>AList.delete\<close>;
  \<^item> the next table and index ids.

  A \<open>TableInfo\<close> is its table metadata: the heap it wraps starts at the
  metadata's first page id.  An \<open>IndexInfo\<close> is its index metadata.  The B+
  tree behind an index is outside this model: \<open>Destroy\<close> calls are recorded
  in \<open>cat_destroyed\<close>.  \<open>CreateIndex\<close> then scans the table heap, inserting
  each row's key.  That loop is the \<open>ti_scan\<close> of the table heap followed by
  B+ tree inserts, and enters here only through its outcome: whether every
  insert succeeded.  The unterminated name copies of the metadata readers
  read the heap bytes given by \<open>junks\<close>.
\<close>

section \<open>Errors and maps\<close>

datatype dberr_t =
  DB_SUCCESS | DB_FAILED | DB_TABLE_ALREADY_EXIST | DB_TABLE_NOT_EXIST | DB_INDEX_ALREADY_EXIST
  | DB_INDEX_NOT_FOUND | DB_COLUMN_NAME_NOT_EXIST | DB_KEY_NOT_FOUND

definition umap_insert :: "'k \<Rightarrow> 'v \<Rightarrow> ('k \<times> 'v) list \<Rightarrow> ('k \<times> 'v) list" where
  "umap_insert k v al = (if map_of al k = None then (k, v) # al else al)"

definition CATALOG_META_PAGE_ID :: page_id where "CATALOG_META_PAGE_ID = 0"

text \<open>\<open>Schema::GetColumnIndex\<close> (\<^verbatim>\<open>record/schema.h\<close>, not under src): the index of
  the first column of that name.\<close>

definition Schema_GetColumnIndex :: "schema \<Rightarrow> byte list \<Rightarrow> 32 word option" where
  "Schema_GetColumnIndex sch name =
     (let i = length (takeWhile (\<lambda>c. col_name c \<noteq> name) (sch_columns sch)) in
      if i < length (sch_columns sch) then Some (of_nat i) else None)"

section \<open>The catalog manager\<close>

record catalog_manager =
  cat_pages :: "page_id \<rightharpoonup> byte list"
  cat_next_page_id :: page_id
  cat_meta :: catalog_meta
  cat_table_names :: "(byte list \<times> table_id) list"
  cat_tables :: "(table_id \<times> table_metadata) list"
  cat_index_names :: "(byte list \<times> (byte list \<times> index_id) list) list"
  cat_indexes :: "(index_id \<times> index_metadata) list"
  cat_next_table_id :: table_id
  cat_next_index_id :: index_id
  cat_destroyed :: "index_id list"

definition cat_NewPage :: "catalog_manager \<Rightarrow> page_id \<times> catalog_manager" where
  "cat_NewPage st =
     (let pid = cat_next_page_id st
      in (pid, st\<lparr>cat_pages := (cat_pages st)(pid \<mapsto> zero_page), cat_next_page_id := pid + 1\<rparr>))"

definition cat_empty :: "(page_id \<rightharpoonup> byte list) \<Rightarrow> page_id \<Rightarrow> catalog_meta \<Rightarrow> catalog_manager" where
  "cat_empty pages next_pid cm =
     \<lparr>cat_pages = pages, cat_next_page_id = next_pid, cat_meta = cm, cat_table_names = [], cat_tables = [],
      cat_index_names = [], cat_indexes = [], cat_next_table_id = 0, cat_next_index_id = 0, cat_destroyed = []\<rparr>"

text \<open>The constructor with \<open>init\<close>: an empty catalog written to the catalog meta
  page, which the database file must already hold.\<close>

definition CatalogManager_init :: "(page_id \<rightharpoonup> byte list) \<Rightarrow> page_id \<Rightarrow> catalog_manager option" where
  "CatalogManager_init pages next_pid =
     do { meta_page \<leftarrow> pages CATALOG_META_PAGE_ID;
          let cm = CatalogMeta_NewInstance;
          Some (cat_empty (pages(CATALOG_META_PAGE_ID \<mapsto> buf_write 0 (CatalogMeta_SerializeTo cm) meta_page))
                  next_pid cm) }"

text \<open>\<open>LoadTable\<close> ignores its \<open>table_id\<close> argument and files the table under
  the id and name its metadata page holds.\<close>

definition LoadTable :: "table_id \<Rightarrow> page_id \<Rightarrow> (nat \<Rightarrow> byte list) \<Rightarrow> catalog_manager \<Rightarrow> catalog_manager option" where
  "LoadTable table_id page_id junks st =
     do { meta_page \<leftarrow> cat_pages st page_id;
          (_, r) \<leftarrow> TableMetadata_DeserializeFrom meta_page junks;
          meta_data \<leftarrow> r;
          Some (st\<lparr>cat_table_names := umap_insert (tm_table_name meta_data) (tm_table_id meta_data) (cat_table_names st),
                   cat_tables := umap_insert (tm_table_id meta_data) meta_data (cat_tables st)\<rparr>) }"

definition GetTable_id :: "table_id \<Rightarrow> catalog_manager \<Rightarrow> table_metadata option" where
  "GetTable_id table_id st = map_of (cat_tables st) table_id"

text \<open>Filing an index id under a table name and an index name in
  \<open>index_names_\<close>, as \<open>CreateIndex\<close> and \<open>LoadIndex\<close> both do: a new inner map
  for a table without indexes, else an insert into the table's inner map.\<close>

definition index_names_insert ::
  "byte list \<Rightarrow> byte list \<Rightarrow> index_id \<Rightarrow> (byte list \<times> (byte list \<times> index_id) list) list \<Rightarrow>
   (byte list \<times> (byte list \<times> index_id) list) list" where
  "index_names_insert t i iid names =
     (case map_of names t of
        None \<Rightarrow> umap_insert t [(i, iid)] names
      | Some m \<Rightarrow> AList.update t (umap_insert i iid m) names)"

definition LoadIndex :: "index_id \<Rightarrow> page_id \<Rightarrow> byte list \<Rightarrow> catalog_manager \<Rightarrow> catalog_manager option" where
  "LoadIndex index_id page_id junk st =
     do { meta_page \<leftarrow> cat_pages st page_id;
          (_, r) \<leftarrow> IndexMetadata_DeserializeFrom meta_page junk;
          meta_data \<leftarrow> r;
          table_info \<leftarrow> GetTable_id (im_table_id meta_data) st;
          Some (st\<lparr>cat_index_names := index_names_insert (tm_table_name table_info) (im_index_name meta_data)
                                          (im_index_id meta_data) (cat_index_names st),
                   cat_indexes := umap_insert (im_index_id meta_data) meta_data (cat_indexes st)\<rparr>) }"

text \<open>The two loops of the constructor without \<open>init\<close>, with the running
  maximum as the code computes it: for indexes it compares against, and
  falls back to, \<open>table_max_id\<close>.\<close>

fun cat_load_tables ::
  "(table_id \<times> page_id) list \<Rightarrow> (page_id \<Rightarrow> nat \<Rightarrow> byte list) \<Rightarrow> table_id \<Rightarrow> catalog_manager \<Rightarrow>
   (table_id \<times> catalog_manager) option" where
  "cat_load_tables [] junks table_max_id st = Some (table_max_id, st)"
| "cat_load_tables ((tid, pid) # es) junks table_max_id st =
     do { st' \<leftarrow> LoadTable tid pid (junks pid) st;
          cat_load_tables es junks (if tid > table_max_id then tid else table_max_id) st' }"

fun cat_load_indexes ::
  "(index_id \<times> page_id) list \<Rightarrow> (page_id \<Rightarrow> byte list) \<Rightarrow> table_id \<Rightarrow> index_id \<Rightarrow> catalog_manager \<Rightarrow>
   (index_id \<times> catalog_manager) option" where
  "cat_load_indexes [] junk table_max_id index_max_id st = Some (index_max_id, st)"
| "cat_load_indexes ((iid, pid) # es) junk table_max_id index_max_id st =
     do { st' \<leftarrow> LoadIndex iid pid (junk pid) st;
          cat_load_indexes es junk table_max_id (if iid > table_max_id then iid else table_max_id) st' }"

definition CatalogManager_load ::
  "(page_id \<rightharpoonup> byte list) \<Rightarrow> page_id \<Rightarrow> (page_id \<Rightarrow> nat \<Rightarrow> byte list) \<Rightarrow> (page_id \<Rightarrow> byte list) \<Rightarrow>
   catalog_manager option" where
  "CatalogManager_load pages next_pid tjunks ijunk =
     do { meta_page \<leftarrow> pages CATALOG_META_PAGE_ID;
          cm \<leftarrow> CatalogMeta_DeserializeFrom meta_page;
          (table_max_id, st1) \<leftarrow> cat_load_tables (table_meta_pages cm) tjunks 0 (cat_empty pages next_pid cm);
          let st2 = st1\<lparr>cat_next_table_id := table_max_id + 1\<rparr>;
          (index_max_id, st3) \<leftarrow> cat_load_indexes (index_meta_pages cm) ijunk table_max_id 0 st2;
          Some (st3\<lparr>cat_next_index_id := index_max_id + 1\<rparr>) }"

definition GetTable :: "byte list \<Rightarrow> catalog_manager \<Rightarrow> (dberr_t \<times> table_metadata option) option" where
  "GetTable table_name st =
     (case map_of (cat_table_names st) table_name of
        None \<Rightarrow> Some (DB_TABLE_NOT_EXIST, None)
      | Some tid \<Rightarrow> map_option (\<lambda>tm. (DB_SUCCESS, Some tm)) (map_of (cat_tables st) tid))"

text \<open>\<open>GetTables\<close> clears its output and lists every table; \<open>GetTableIndexes\<close>
  appends the table's indexes to its output in the order of the inner map
  (\<open>indexes_.find(...)->second\<close> of a missing id is undefined).\<close>

definition GetTables :: "catalog_manager \<Rightarrow> dberr_t \<times> table_metadata list" where
  "GetTables st = (DB_SUCCESS, map snd (cat_tables st))"

definition GetTableIndexes ::
  "byte list \<Rightarrow> index_metadata list \<Rightarrow> catalog_manager \<Rightarrow> (dberr_t \<times> index_metadata list) option" where
  "GetTableIndexes table_name indexes st =
     (if map_of (cat_table_names st) table_name = None then Some (DB_TABLE_NOT_EXIST, indexes)
      else (case map_of (cat_index_names st) table_name of
              None \<Rightarrow> Some (DB_SUCCESS, indexes)
            | Some m \<Rightarrow> map_option (\<lambda>ims. (DB_SUCCESS, indexes @ ims))
                          (those (map (\<lambda>(_, iid). map_of (cat_indexes st) iid) m))))"

text \<open>\<open>CreateTable\<close>: \<open>TableHeap::Create\<close> allocates the heap's first page (its
  contents belong to the table heap model), then the metadata goes to a second
  new page.\<close>

definition CreateTable :: "byte list \<Rightarrow> schema \<Rightarrow> catalog_manager \<Rightarrow> (dberr_t \<times> catalog_manager) option" where
  "CreateTable table_name schema st =
     do { (r, _) \<leftarrow> GetTable table_name st;
          if r = DB_SUCCESS then Some (DB_TABLE_ALREADY_EXIST, st)
          else do {
            let (first_page_id, st1) = cat_NewPage st;
            let (meta_page_id, st2) = cat_NewPage st1;
            let tid = cat_next_table_id st2;
            let table_meta = \<lparr>tm_table_id = tid, tm_table_name = table_name, tm_root_page_id = first_page_id,
                              tm_schema = schema\<rparr>;
            meta_page \<leftarrow> cat_pages st2 meta_page_id;
            Some (DB_SUCCESS,
                  st2\<lparr>cat_pages := (cat_pages st2)(meta_page_id \<mapsto> buf_write 0 (TableMetadata_SerializeTo table_meta) meta_page),
                      cat_meta := (cat_meta st2)\<lparr>table_meta_pages := smap_insert tid meta_page_id (table_meta_pages (cat_meta st2))\<rparr>,
                      cat_table_names := umap_insert table_name tid (cat_table_names st2),
                      cat_tables := umap_insert tid table_meta (cat_tables st2),
                      cat_next_table_id := tid + 1\<rparr>) } }"

definition GetIndex :: "byte list \<Rightarrow> byte list \<Rightarrow> catalog_manager \<Rightarrow> (dberr_t \<times> index_metadata option) option" where
  "GetIndex table_name index_name st =
     (case map_of (cat_index_names st) table_name of
        None \<Rightarrow> Some (DB_INDEX_NOT_FOUND, None)
      | Some m \<Rightarrow>
          (case map_of m index_name of
             None \<Rightarrow> Some (DB_INDEX_NOT_FOUND, None)
           | Some iid \<Rightarrow> map_option (\<lambda>im. (DB_SUCCESS, Some im)) (map_of (cat_indexes st) iid)))"

text \<open>\<open>DropIndex\<close> destroys the index's tree through \<open>indexes_[index_id]\<close>, a
  null pointer if the id were missing.\<close>

definition DropIndex :: "byte list \<Rightarrow> byte list \<Rightarrow> catalog_manager \<Rightarrow> (dberr_t \<times> catalog_manager) option" where
  "DropIndex table_name index_name st =
     (case map_of (cat_index_names st) table_name of
        None \<Rightarrow> Some (DB_TABLE_NOT_EXIST, st)
      | Some m \<Rightarrow>
          (case map_of m index_name of
             None \<Rightarrow> Some (DB_INDEX_NOT_FOUND, st)
           | Some index_id \<Rightarrow>
               (case map_of (cat_indexes st) index_id of
                  None \<Rightarrow> None
                | Some _ \<Rightarrow>
                    Some (DB_SUCCESS,
                          st\<lparr>cat_destroyed := index_id # cat_destroyed st,
                              cat_indexes := AList.delete index_id (cat_indexes st),
                              cat_meta := (cat_meta st)\<lparr>index_meta_pages := smap_erase index_id (index_meta_pages (cat_meta st))\<rparr>,
                              cat_index_names := AList.update table_name (AList.delete index_name m) (cat_index_names st)\<rparr>))))"

text \<open>\<open>CreateIndex\<close> up to the scan that fills the new tree; \<open>entries_ok\<close> is
  whether every \<open>InsertEntry\<close> of that scan succeeded.  On a failed insert
  it drops the index again and returns \<open>DB_FAILED\<close>.\<close>

definition CreateIndex ::
  "byte list \<Rightarrow> byte list \<Rightarrow> byte list list \<Rightarrow> bool \<Rightarrow> catalog_manager \<Rightarrow> (dberr_t \<times> catalog_manager) option" where
  "CreateIndex table_name index_name index_keys entries_ok st =
     (case map_of (cat_table_names st) table_name of
        None \<Rightarrow> Some (DB_TABLE_NOT_EXIST, st)
      | Some tid \<Rightarrow> do {
          (r, _) \<leftarrow> GetIndex table_name index_name st;
          if r = DB_SUCCESS then Some (DB_INDEX_ALREADY_EXIST, st)
          else do {
            (_, tmo) \<leftarrow> GetTable table_name st;
            table_info \<leftarrow> tmo;
            (case those (map (Schema_GetColumnIndex (tm_schema table_info)) index_keys) of
               None \<Rightarrow> Some (DB_COLUMN_NAME_NOT_EXIST, st)
             | Some key_map \<Rightarrow> do {
                 let iid = cat_next_index_id st;
                 let index_meta = \<lparr>im_index_id = iid, im_index_name = index_name, im_table_id = tid, im_key_map = key_map\<rparr>;
                 let st1 = st\<lparr>cat_index_names := index_names_insert table_name index_name iid (cat_index_names st),
                               cat_indexes := umap_insert iid index_meta (cat_indexes st)\<rparr>;
                 let (meta_page_id, st2) = cat_NewPage st1;
                 meta_page \<leftarrow> cat_pages st2 meta_page_id;
                 let st3 = st2\<lparr>cat_pages := (cat_pages st2)(meta_page_id \<mapsto> snd (IndexMetadata_SerializeTo index_meta meta_page)),
                               cat_meta := (cat_meta st2)\<lparr>index_meta_pages := smap_insert iid meta_page_id (index_meta_pages (cat_meta st2))\<rparr>,
                               cat_next_index_id := iid + 1\<rparr>;
                 if entries_ok then Some (DB_SUCCESS, st3)
                 else do { (_, st4) \<leftarrow> DropIndex table_name index_name st3; Some (DB_FAILED, st4) } }) } })"

text \<open>\<open>DropTable\<close> removes the table, its indexes and their meta page entries;
  it calls no \<open>Destroy\<close> on the indexes' trees.\<close>

definition drop_table_indexes :: "(byte list \<times> index_id) list \<Rightarrow> catalog_manager \<Rightarrow> catalog_manager" where
  "drop_table_indexes m st =
     fold (\<lambda>(_, iid) s. s\<lparr>cat_indexes := AList.delete iid (cat_indexes s),
                          cat_meta := (cat_meta s)\<lparr>index_meta_pages := smap_erase iid (index_meta_pages (cat_meta s))\<rparr>\<rparr>) m st"

definition DropTable :: "byte list \<Rightarrow> catalog_manager \<Rightarrow> dberr_t \<times> catalog_manager" where
  "DropTable table_name st =
     (case map_of (cat_table_names st) table_name of
        None \<Rightarrow> (DB_TABLE_NOT_EXIST, st)
      | Some tid \<Rightarrow>
          (let st1 = st\<lparr>cat_table_names := AList.delete table_name (cat_table_names st),
                        cat_tables := AList.delete tid (cat_tables st)\<rparr>;
               st2 = (case map_of (cat_index_names st1) table_name of
                        None \<Rightarrow> st1
                      | Some m \<Rightarrow> (drop_table_indexes m st1)\<lparr>cat_index_names := AList.delete table_name (cat_index_names st1)\<rparr>)
           in (DB_SUCCESS, st2\<lparr>cat_meta := (cat_meta st2)\<lparr>table_meta_pages := smap_erase tid (table_meta_pages (cat_meta st2))\<rparr>\<rparr>)))"

definition FlushCatalogMetaPage :: "catalog_manager \<Rightarrow> catalog_manager option" where
  "FlushCatalogMetaPage st =
     do { meta_page \<leftarrow> cat_pages st CATALOG_META_PAGE_ID;
          Some (st\<lparr>cat_pages := (cat_pages st)(CATALOG_META_PAGE_ID \<mapsto>
                                   buf_write 0 (CatalogMeta_SerializeTo (cat_meta st)) meta_page)\<rparr>) }"

section \<open>Catalog invariant and abstraction\<close>

text \<open>What \<open>GetIndex\<close> looks up: the index id filed under a table name and an
  index name.\<close>

definition cat_index_lookup :: "catalog_manager \<Rightarrow> byte list \<Rightarrow> byte list \<Rightarrow> index_id option" where
  "cat_index_lookup st t i = (case map_of (cat_index_names st) t of None \<Rightarrow> None | Some m \<Rightarrow> map_of m i)"

text \<open>The catalog as its clients see it: the meta data that goes to the meta
  page, the two table maps, and the two index maps.\<close>

definition cat_abs ::
  "catalog_manager \<Rightarrow> catalog_meta \<times> (byte list \<rightharpoonup> table_id) \<times> (table_id \<rightharpoonup> table_metadata) \<times>
                      (byte list \<Rightarrow> byte list \<Rightarrow> index_id option) \<times> (index_id \<rightharpoonup> index_metadata)" where
  "cat_abs st = (cat_meta st, map_of (cat_table_names st), map_of (cat_tables st), cat_index_lookup st,
                 map_of (cat_indexes st))"

definition tm_ok :: "table_metadata \<Rightarrow> bool" where
  "tm_ok tm \<longleftrightarrow> schema_ok (tm_schema tm) \<and> 0 \<notin> set (tm_table_name tm) \<and> length (tm_table_name tm) < 2 ^ 64 \<and>
                0 \<le> tm_root_page_id tm \<and> tm_root_page_id tm < 2 ^ 31"

definition im_ok :: "index_metadata \<Rightarrow> bool" where
  "im_ok im \<longleftrightarrow> 0 \<notin> set (im_index_name im) \<and> IndexMetadata_GetSerializedSize im \<le> PAGE_SIZE"

text \<open>A well-formed catalog: the meta maps are sorted, every entry of them has
  its metadata written on its own page, allocated before \<open>next_page_id\<close> and
  never the catalog meta page, which lies below it; the name maps agree with the metadata; every
  id is below the next id to hand out.\<close>

definition cat_ok :: "catalog_manager \<Rightarrow> bool" where
  "cat_ok st \<longleftrightarrow>
     smap_ok (table_meta_pages (cat_meta st)) \<and> smap_ok (index_meta_pages (cat_meta st)) \<and>
     cat_pages st CATALOG_META_PAGE_ID \<noteq> None \<and> CATALOG_META_PAGE_ID < cat_next_page_id st \<and>
     cat_next_page_id st \<le> 2 ^ 31 \<and>
     set (map fst (cat_tables st)) = set (map fst (table_meta_pages (cat_meta st))) \<and>
     (\<forall>(tid, pid) \<in> set (table_meta_pages (cat_meta st)). 0 < pid \<and> pid < cat_next_page_id st \<and>
        (case map_of (cat_tables st) tid of
           None \<Rightarrow> False
         | Some tm \<Rightarrow> tm_table_id tm = tid \<and> tm_ok tm \<and>
                      cat_pages st pid = Some (buf_write 0 (TableMetadata_SerializeTo tm) zero_page))) \<and>
     (\<forall>(n, tid) \<in> set (cat_table_names st). map_option tm_table_name (map_of (cat_tables st) tid) = Some n) \<and>
     (\<forall>(tid, tm) \<in> set (cat_tables st).
        map_of (cat_table_names st) (tm_table_name tm) = Some tid \<and> tid < cat_next_table_id st) \<and>
     set (map fst (cat_indexes st)) = set (map fst (index_meta_pages (cat_meta st))) \<and>
     (\<forall>(iid, pid) \<in> set (index_meta_pages (cat_meta st)). 0 < pid \<and> pid < cat_next_page_id st \<and>
        (case map_of (cat_indexes st) iid of
           None \<Rightarrow> False
         | Some im \<Rightarrow> im_index_id im = iid \<and> im_ok im \<and>
                      cat_pages st pid = Some (snd (IndexMetadata_SerializeTo im zero_page)))) \<and>
     distinct (map fst (cat_index_names st)) \<and>
     (\<forall>(t, m) \<in> set (cat_index_names st). \<forall>(i, iid) \<in> set m.
        (case map_of (cat_indexes st) iid of
           None \<Rightarrow> False
         | Some im \<Rightarrow> im_index_name im = i \<and> map_of (cat_table_names st) t = Some (im_table_id im))) \<and>
     (\<forall>(iid, im) \<in> set (cat_indexes st). iid < cat_next_index_id st \<and>
        (case map_of (cat_tables st) (im_table_id im) of
           None \<Rightarrow> False
         | Some tm \<Rightarrow> cat_index_lookup st (tm_table_name tm) (im_index_name im) = Some iid))"

section \<open>Sequences of catalog operations\<close>

text \<open>The calls the execution engine makes on the catalog, and a run of them.\<close>

datatype cat_op =
    Op_CreateTable "byte list" schema
  | Op_CreateIndex "byte list" "byte list" "byte list list" bool
  | Op_DropTable "byte list"
  | Op_DropIndex "byte list" "byte list"
  | Op_Flush

fun cat_step :: "cat_op \<Rightarrow> catalog_manager \<Rightarrow> (dberr_t \<times> catalog_manager) option" where
  "cat_step (Op_CreateTable n sch) st = CreateTable n sch st"
| "cat_step (Op_CreateIndex t i ks ok) st = CreateIndex t i ks ok st"
| "cat_step (Op_DropTable t) st = Some (DropTable t st)"
| "cat_step (Op_DropIndex t i) st = DropIndex t i st"
| "cat_step Op_Flush st = map_option (Pair DB_SUCCESS) (FlushCatalogMetaPage st)"

fun cat_run :: "cat_op list \<Rightarrow> catalog_manager \<Rightarrow> catalog_manager option" where
  "cat_run [] st = Some st"
| "cat_run (op # ops) st = do { (_, st') \<leftarrow> cat_step op st; cat_run ops st' }"

text \<open>Arguments the metadata serialisation can carry: names without a zero
  byte, a schema whose column names have none, and index metadata that fits a
  page.\<close>

fun cat_op_ok :: "cat_op \<Rightarrow> bool" where
  "cat_op_ok (Op_CreateTable n sch) \<longleftrightarrow> 0 \<notin> set n \<and> length n < 2 ^ 64 \<and> schema_ok sch"
| "cat_op_ok (Op_CreateIndex t i ks ok) \<longleftrightarrow> 0 \<notin> set i \<and> 28 + length i + 4 * length ks \<le> PAGE_SIZE"
| "cat_op_ok _ \<longleftrightarrow> True"

text \<open>An example catalog: table \<open>t\<close> with an \<open>INT\<close> column \<open>a\<close>, its heap's
  first page 1, its metadata on page 2, and index \<open>i\<close> on \<open>a\<close> with its metadata
  on page 3.\<close>

definition cat_example_table :: table_metadata where
  "cat_example_table =
     \<lparr>tm_table_id = 0, tm_table_name = [116], tm_root_page_id = 1,
      tm_schema = \<lparr>sch_columns = [\<lparr>col_name = [97], col_type = kTypeInt, col_len = 4, col_table_ind = 0,
                                  col_nullable = False, col_unique = True\<rparr>]\<rparr>\<rparr>"

definition cat_example_index :: index_metadata where
  "cat_example_index = \<lparr>im_index_id = 0, im_index_name = [105], im_table_id = 0, im_key_map = [0]\<rparr>"

definition cat_example :: catalog_manager where
  "cat_example =
     \<lparr>cat_pages = [0 \<mapsto> zero_page, 1 \<mapsto> zero_page,
                   2 \<mapsto> buf_write 0 (TableMetadata_SerializeTo cat_example_table) zero_page,
                   3 \<mapsto> snd (IndexMetadata_SerializeTo cat_example_index zero_page)],
      cat_next_page_id = 4,
      cat_meta = \<lparr>table_meta_pages = [(0, 2)], index_meta_pages = [(0, 3)]\<rparr>,
      cat_table_names = [([116], 0)], cat_tables = [(0, cat_example_table)],
      cat_index_names = [([116], [([105], 0)])], cat_indexes = [(0, cat_example_index)],
      cat_next_table_id = 1, cat_next_index_id = 1, cat_destroyed = []\<rparr>"

section \<open>Loading the catalog\<close>

lemma map_of_umap_insert [simp]:
  "map_of (umap_insert k v al) k' = (case map_of al k' of Some x \<Rightarrow> Some x | None \<Rightarrow> if k' = k then Some v else None)"
  by (auto simp: umap_insert_def split: option.split)

lemma map_of_foldl_umap_insert:
  "map_of (foldl (\<lambda>acc x. umap_insert (f x) (g x) acc) acc0 xs) k =
     (case map_of acc0 k of Some v \<Rightarrow> Some v | None \<Rightarrow> map_option g (find (\<lambda>x. f x = k) xs))"
  by (induction xs arbitrary: acc0) (auto split: option.split)

lemma cat_index_lookup_other [simp]:
  "cat_index_lookup (st\<lparr>cat_indexes := x\<rparr>) = cat_index_lookup st"
  "cat_index_lookup (st\<lparr>cat_tables := y\<rparr>) = cat_index_lookup st"
  "cat_index_lookup (st\<lparr>cat_table_names := z\<rparr>) = cat_index_lookup st"
  "cat_index_lookup (st\<lparr>cat_next_index_id := n\<rparr>) = cat_index_lookup st"
  "cat_index_lookup (st\<lparr>cat_next_table_id := n'\<rparr>) = cat_index_lookup st"
  "cat_index_lookup (st\<lparr>cat_pages := ps\<rparr>) = cat_index_lookup st"
  "cat_index_lookup (st\<lparr>cat_next_page_id := np\<rparr>) = cat_index_lookup st"
  "cat_index_lookup (st\<lparr>cat_meta := cm\<rparr>) = cat_index_lookup st"
  "cat_index_lookup (st\<lparr>cat_destroyed := ds\<rparr>) = cat_index_lookup st"
  by (simp_all add: cat_index_lookup_def fun_eq_iff)

lemma cat_index_lookup_insert:
  "cat_index_lookup (st\<lparr>cat_index_names := index_names_insert t i iid (cat_index_names st)\<rparr>) t' i' =
     (case cat_index_lookup st t' i' of Some v \<Rightarrow> Some v | None \<Rightarrow> if t' = t \<and> i' = i then Some iid else None)"
  by (auto simp: cat_index_lookup_def index_names_insert_def update_conv' split: option.split)

lemma LoadTable_ok:
  assumes "cat_pages st pid = Some (buf_write 0 (TableMetadata_SerializeTo tm) zero_page)" "tm_ok tm"
    and "\<forall>j. takeWhile (\<lambda>b. b \<noteq> 0) (junks j) = []"
  shows "LoadTable tid pid junks st =
           Some (st\<lparr>cat_table_names := umap_insert (tm_table_name tm) (tm_table_id tm) (cat_table_names st),
                    cat_tables := umap_insert (tm_table_id tm) tm (cat_tables st)\<rparr>)"
proof -
  have "TableMetadata_DeserializeFrom (buf_write 0 (TableMetadata_SerializeTo tm) zero_page) junks =
          Some (TableMetadata_GetSerializedSize tm, Some tm)"
    using TableMetadata_DeserializeFrom_SerializeTo[of tm junks] assms(2,3)
    by (simp add: tm_ok_def buf_write_start)
  then show ?thesis using assms(1) by (simp add: LoadTable_def)
qed

lemma LoadIndex_ok:
  assumes "cat_pages st pid = Some (snd (IndexMetadata_SerializeTo im zero_page))" "im_ok im"
    and "takeWhile (\<lambda>b. b \<noteq> 0) junk = []" "map_of (cat_tables st) (im_table_id im) = Some tm"
  shows "LoadIndex iid pid junk st =
           Some (st\<lparr>cat_index_names := index_names_insert (tm_table_name tm) (im_index_name im) (im_index_id im)
                                          (cat_index_names st),
                    cat_indexes := umap_insert (im_index_id im) im (cat_indexes st)\<rparr>)"
proof -
  have "IndexMetadata_DeserializeFrom (snd (IndexMetadata_SerializeTo im zero_page)) junk =
          Some (IndexMetadata_GetSerializedSize im, Some im)"
    using IndexMetadata_DeserializeFrom_SerializeTo[of im zero_page junk] im_fits_zero_page[of im] assms(2,3)
    by (simp add: im_ok_def)
  then show ?thesis using assms(1,4) by (simp add: LoadIndex_def GetTable_id_def)
qed

lemma cat_load_tables_ok:
  assumes "\<forall>(tid, pid) \<in> set es. \<exists>tm. T tid = Some tm \<and> tm_table_id tm = tid \<and> tm_ok tm \<and>
             cat_pages st pid = Some (buf_write 0 (TableMetadata_SerializeTo tm) zero_page)"
    and junk: "\<forall>pid j. takeWhile (\<lambda>b. b \<noteq> 0) (junks pid j) = []"
  shows "cat_load_tables es junks mx st =
           Some (foldl (\<lambda>m e. if m < fst e then fst e else m) mx es,
                 st\<lparr>cat_table_names := foldl (\<lambda>acc e. umap_insert (tm_table_name (the (T (fst e)))) (fst e) acc)
                                          (cat_table_names st) es,
                    cat_tables := foldl (\<lambda>acc e. umap_insert (fst e) (the (T (fst e))) acc) (cat_tables st) es\<rparr>)"
  using assms(1)
proof (induction es arbitrary: mx st)
  case (Cons e es)
  obtain tid pid where e: "e = (tid, pid)" by (cases e)
  obtain tm where tm: "T tid = Some tm" "tm_table_id tm = tid" "tm_ok tm"
    "cat_pages st pid = Some (buf_write 0 (TableMetadata_SerializeTo tm) zero_page)"
    using Cons.prems e by auto
  have "LoadTable tid pid (junks pid) st =
          Some (st\<lparr>cat_table_names := umap_insert (tm_table_name tm) tid (cat_table_names st),
                   cat_tables := umap_insert tid tm (cat_tables st)\<rparr>)"
    using LoadTable_ok[OF tm(4,3)] junk tm(2) by simp
  moreover have "\<forall>(tid, pid) \<in> set es. \<exists>tm. T tid = Some tm \<and> tm_table_id tm = tid \<and> tm_ok tm \<and>
             cat_pages st pid = Some (buf_write 0 (TableMetadata_SerializeTo tm) zero_page)"
    using Cons.prems by simp
  ultimately show ?case using Cons.IH tm(1) e by (simp add: less_le)
qed simp

lemma cat_load_indexes_ok:
  assumes "\<forall>(iid, pid) \<in> set es. \<exists>im tm. I iid = Some im \<and> im_index_id im = iid \<and> im_ok im \<and>
             cat_pages st pid = Some (snd (IndexMetadata_SerializeTo im zero_page)) \<and>
             map_of (cat_tables st) (im_table_id im) = Some tm"
    and junk: "\<forall>pid. takeWhile (\<lambda>b. b \<noteq> 0) (junk pid) = []"
  shows "\<exists>st'. cat_load_indexes es junk tmax mx st =
                 Some (foldl (\<lambda>m e. if tmax < fst e then fst e else tmax) mx es, st') \<and>
               st' = st\<lparr>cat_index_names := cat_index_names st', cat_indexes := cat_indexes st'\<rparr> \<and>
               cat_indexes st' = foldl (\<lambda>acc e. umap_insert (fst e) (the (I (fst e))) acc) (cat_indexes st) es \<and>
               (\<forall>t i. cat_index_lookup st' t i =
                  (case cat_index_lookup st t i of
                     Some v \<Rightarrow> Some v
                   | None \<Rightarrow> map_option fst (find (\<lambda>e. tm_table_name (the (map_of (cat_tables st) (im_table_id (the (I (fst e)))))) = t \<and>
                                                  im_index_name (the (I (fst e))) = i) es)))"
  using assms(1)
proof (induction es arbitrary: mx st)
  case Nil
  show ?case by (auto split: option.split)
next
  case (Cons e es)
  obtain iid pid where e: "e = (iid, pid)" by (cases e)
  obtain im tm where im: "I iid = Some im" "im_index_id im = iid" "im_ok im"
    "cat_pages st pid = Some (snd (IndexMetadata_SerializeTo im zero_page))" "map_of (cat_tables st) (im_table_id im) = Some tm"
    using Cons.prems e by auto
  define st1 where "st1 = st\<lparr>cat_index_names := index_names_insert (tm_table_name tm) (im_index_name im) iid (cat_index_names st),
                              cat_indexes := umap_insert iid im (cat_indexes st)\<rparr>"
  have ld: "LoadIndex iid pid (junk pid) st = Some st1"
    using LoadIndex_ok[OF im(4,3) _ im(5)] junk im(2) by (simp add: st1_def)
  have "\<forall>(iid, pid) \<in> set es. \<exists>im tm. I iid = Some im \<and> im_index_id im = iid \<and> im_ok im \<and>
             cat_pages st1 pid = Some (snd (IndexMetadata_SerializeTo im zero_page)) \<and>
             map_of (cat_tables st1) (im_table_id im) = Some tm"
    using Cons.prems by (simp add: st1_def)
  from Cons.IH[OF this, of "if tmax < iid then iid else tmax"] obtain st' where
    st': "cat_load_indexes es junk tmax (if tmax < iid then iid else tmax) st1 =
            Some (foldl (\<lambda>m e. if tmax < fst e then fst e else tmax) (if tmax < iid then iid else tmax) es, st')"
    "st' = st1\<lparr>cat_index_names := cat_index_names st', cat_indexes := cat_indexes st'\<rparr>"
    "cat_indexes st' = foldl (\<lambda>acc e. umap_insert (fst e) (the (I (fst e))) acc) (cat_indexes st1) es"
    "\<forall>t i. cat_index_lookup st' t i =
       (case cat_index_lookup st1 t i of
          Some v \<Rightarrow> Some v
        | None \<Rightarrow> map_option fst (find (\<lambda>e. tm_table_name (the (map_of (cat_tables st1) (im_table_id (the (I (fst e)))))) = t \<and>
                                       im_index_name (the (I (fst e))) = i) es))"
    by blast
  have tabs: "cat_tables st1 = cat_tables st" by (simp add: st1_def)
  have lk: "cat_index_lookup st1 t i =
              (case cat_index_lookup st t i of Some v \<Rightarrow> Some v
               | None \<Rightarrow> if t = tm_table_name tm \<and> i = im_index_name im then Some iid else None)" for t i
    unfolding st1_def using cat_index_lookup_insert[where st=st and t="tm_table_name tm" and i="im_index_name im" and iid=iid and t'=t and i'=i] by simp
  show ?case
  proof (intro exI conjI)
    show "cat_load_indexes (e # es) junk tmax mx st =
            Some (foldl (\<lambda>m e. if tmax < fst e then fst e else tmax) mx (e # es), st')"
      using ld st'(1) e by (simp add: less_le)
    show "st' = st\<lparr>cat_index_names := cat_index_names st', cat_indexes := cat_indexes st'\<rparr>"
      using st'(2) by (simp add: st1_def)
    show "cat_indexes st' = foldl (\<lambda>acc e. umap_insert (fst e) (the (I (fst e))) acc) (cat_indexes st) (e # es)"
      using st'(3) e im(1) by (simp add: st1_def)
    show "\<forall>t i. cat_index_lookup st' t i =
       (case cat_index_lookup st t i of
          Some v \<Rightarrow> Some v
        | None \<Rightarrow> map_option fst (find (\<lambda>e. tm_table_name (the (map_of (cat_tables st) (im_table_id (the (I (fst e)))))) = t \<and>
                                       im_index_name (the (I (fst e))) = i) (e # es)))"
      using st'(4) lk tabs e im(1,5) by (auto split: option.split)
  qed
qed

lemma cat_okD:
  assumes "cat_ok st"
  shows cat_ok_smap: "smap_ok (table_meta_pages (cat_meta st))" "smap_ok (index_meta_pages (cat_meta st))"
    and cat_ok_meta_page: "cat_pages st CATALOG_META_PAGE_ID \<noteq> None"
    and cat_ok_meta_below: "CATALOG_META_PAGE_ID < cat_next_page_id st"
    and cat_ok_next_page: "cat_next_page_id st \<le> 2 ^ 31"
    and cat_ok_table_keys: "set (map fst (cat_tables st)) = set (map fst (table_meta_pages (cat_meta st)))"
    and cat_ok_index_keys: "set (map fst (cat_indexes st)) = set (map fst (index_meta_pages (cat_meta st)))"
    and cat_ok_index_names_distinct: "distinct (map fst (cat_index_names st))"
  using assms by (simp_all add: cat_ok_def)

lemma cat_ok_table_page:
  assumes "cat_ok st" "(tid, pid) \<in> set (table_meta_pages (cat_meta st))"
  shows "\<exists>tm. map_of (cat_tables st) tid = Some tm \<and> tm_table_id tm = tid \<and> tm_ok tm \<and>
           cat_pages st pid = Some (buf_write 0 (TableMetadata_SerializeTo tm) zero_page) \<and>
           0 < pid \<and> pid < cat_next_page_id st"
proof -
  have "\<forall>(tid, pid) \<in> set (table_meta_pages (cat_meta st)). 0 < pid \<and> pid < cat_next_page_id st \<and>
        (case map_of (cat_tables st) tid of
           None \<Rightarrow> False
         | Some tm \<Rightarrow> tm_table_id tm = tid \<and> tm_ok tm \<and>
                      cat_pages st pid = Some (buf_write 0 (TableMetadata_SerializeTo tm) zero_page))"
    using assms(1) unfolding cat_ok_def by blast
  then show ?thesis using assms(2) by (fastforce split: option.splits)
qed

lemma cat_ok_index_page:
  assumes "cat_ok st" "(iid, pid) \<in> set (index_meta_pages (cat_meta st))"
  shows "\<exists>im. map_of (cat_indexes st) iid = Some im \<and> im_index_id im = iid \<and> im_ok im \<and>
           cat_pages st pid = Some (snd (IndexMetadata_SerializeTo im zero_page)) \<and>
           0 < pid \<and> pid < cat_next_page_id st"
proof -
  have "\<forall>(iid, pid) \<in> set (index_meta_pages (cat_meta st)). 0 < pid \<and> pid < cat_next_page_id st \<and>
        (case map_of (cat_indexes st) iid of
           None \<Rightarrow> False
         | Some im \<Rightarrow> im_index_id im = iid \<and> im_ok im \<and>
                      cat_pages st pid = Some (snd (IndexMetadata_SerializeTo im zero_page)))"
    using assms(1) unfolding cat_ok_def by blast
  then show ?thesis using assms(2) by (fastforce split: option.splits)
qed

lemma cat_ok_name:
  assumes "cat_ok st" "(n, tid) \<in> set (cat_table_names st)"
  shows "\<exists>tm. map_of (cat_tables st) tid = Some tm \<and> tm_table_name tm = n"
proof -
  have "\<forall>(n, tid) \<in> set (cat_table_names st). map_option tm_table_name (map_of (cat_tables st) tid) = Some n"
    using assms(1) unfolding cat_ok_def by blast
  then show ?thesis using assms(2) by fastforce
qed

lemma cat_ok_table:
  assumes "cat_ok st" "(tid, tm) \<in> set (cat_tables st)"
  shows "map_of (cat_table_names st) (tm_table_name tm) = Some tid \<and> tid < cat_next_table_id st"
proof -
  have "\<forall>(tid, tm) \<in> set (cat_tables st). map_of (cat_table_names st) (tm_table_name tm) = Some tid \<and>
          tid < cat_next_table_id st"
    using assms(1) unfolding cat_ok_def by blast
  then show ?thesis using assms(2) by fastforce
qed

lemma cat_ok_index_name:
  assumes "cat_ok st" "(t, m) \<in> set (cat_index_names st)" "(i, iid) \<in> set m"
  shows "\<exists>im. map_of (cat_indexes st) iid = Some im \<and> im_index_name im = i \<and>
           map_of (cat_table_names st) t = Some (im_table_id im)"
proof -
  have "\<forall>(t, m) \<in> set (cat_index_names st). \<forall>(i, iid) \<in> set m.
        (case map_of (cat_indexes st) iid of
           None \<Rightarrow> False
         | Some im \<Rightarrow> im_index_name im = i \<and> map_of (cat_table_names st) t = Some (im_table_id im))"
    using assms(1) unfolding cat_ok_def by blast
  then show ?thesis using assms(2,3) by (fastforce split: option.splits)
qed

lemma cat_ok_index:
  assumes "cat_ok st" "(iid, im) \<in> set (cat_indexes st)"
  shows "iid < cat_next_index_id st \<and>
         (\<exists>tm. map_of (cat_tables st) (im_table_id im) = Some tm \<and>
               cat_index_lookup st (tm_table_name tm) (im_index_name im) = Some iid)"
proof -
  have "\<forall>(iid, im) \<in> set (cat_indexes st). iid < cat_next_index_id st \<and>
        (case map_of (cat_tables st) (im_table_id im) of
           None \<Rightarrow> False
         | Some tm \<Rightarrow> cat_index_lookup st (tm_table_name tm) (im_index_name im) = Some iid)"
    using assms(1) unfolding cat_ok_def by blast
  then show ?thesis using assms(2) by (fastforce split: option.splits)
qed

lemma map_of_load_keys:
  assumes "set (map fst es) = set (map fst al)"
  shows "map_of (foldl (\<lambda>acc e. umap_insert (fst e) (the (map_of al (fst e))) acc) [] es) = map_of al"
proof
  fix k
  show "map_of (foldl (\<lambda>acc e. umap_insert (fst e) (the (map_of al (fst e))) acc) [] es) k = map_of al k"
  proof (cases "find (\<lambda>e. fst e = k) es")
    case None
    then have "k \<notin> set (map fst es)" by (force simp: find_None_iff)
    then have "map_of al k = None" using assms by (simp add: map_of_eq_None_iff)
    then show ?thesis using None by (simp add: map_of_foldl_umap_insert)
  next
    case (Some e)
    then have "fst e = k" "k \<in> set (map fst al)" using assms by (auto simp: find_Some_iff)
    then show ?thesis using Some by (auto simp: map_of_foldl_umap_insert dest: weak_map_of_SomeI)
  qed
qed

lemma load_names_eq:
  assumes ok: "cat_ok st"
  shows "map_of (foldl (\<lambda>acc e. umap_insert (tm_table_name (the (map_of (cat_tables st) (fst e)))) (fst e) acc) []
                  (table_meta_pages (cat_meta st))) = map_of (cat_table_names st)"
proof
  fix n
  let ?P = "\<lambda>e. tm_table_name (the (map_of (cat_tables st) (fst e))) = n"
  show "map_of (foldl (\<lambda>acc e. umap_insert (tm_table_name (the (map_of (cat_tables st) (fst e)))) (fst e) acc) []
                  (table_meta_pages (cat_meta st))) n = map_of (cat_table_names st) n"
  proof (cases "find ?P (table_meta_pages (cat_meta st))")
    case None
    have "map_of (cat_table_names st) n = None"
    proof (rule ccontr)
      assume "map_of (cat_table_names st) n \<noteq> None"
      then obtain tid where "(n, tid) \<in> set (cat_table_names st)" by (auto dest: map_of_SomeD)
      then obtain tm where tm: "map_of (cat_tables st) tid = Some tm" "tm_table_name tm = n"
        using cat_ok_name[OF ok] by blast
      then have "tid \<in> set (map fst (table_meta_pages (cat_meta st)))"
        using cat_ok_table_keys[OF ok] by (force dest: map_of_SomeD)
      then obtain pid where "(tid, pid) \<in> set (table_meta_pages (cat_meta st))" by auto
      then show False using None tm by (auto simp: find_None_iff)
    qed
    then show ?thesis using None by (simp add: map_of_foldl_umap_insert)
  next
    case (Some e)
    then have e: "e \<in> set (table_meta_pages (cat_meta st))" "?P e" by (auto simp: find_Some_iff)
    obtain tm where "map_of (cat_tables st) (fst e) = Some tm"
      using cat_ok_table_page[OF ok, of "fst e" "snd e"] e(1) by auto
    then have "map_of (cat_table_names st) n = Some (fst e)"
      using cat_ok_table[OF ok, of "fst e" tm] e(2) by (auto dest: map_of_SomeD)
    then show ?thesis using Some by (simp add: map_of_foldl_umap_insert)
  qed
qed

lemma load_lookup_eq:
  assumes ok: "cat_ok st"
  shows "map_option fst (find (\<lambda>e. tm_table_name (the (map_of (cat_tables st) (im_table_id (the (map_of (cat_indexes st) (fst e)))))) = t \<and>
                                  im_index_name (the (map_of (cat_indexes st) (fst e))) = i) (index_meta_pages (cat_meta st))) =
         cat_index_lookup st t i"
    (is "map_option fst (find ?P ?es) = _")
proof (cases "find ?P ?es")
  case None
  have "cat_index_lookup st t i = None"
  proof (rule ccontr)
    assume "cat_index_lookup st t i \<noteq> None"
    then obtain m iid where "(t, m) \<in> set (cat_index_names st)" "(i, iid) \<in> set m"
      by (auto simp: cat_index_lookup_def split: option.splits dest: map_of_SomeD)
    then obtain im where im: "map_of (cat_indexes st) iid = Some im" "im_index_name im = i"
        "map_of (cat_table_names st) t = Some (im_table_id im)"
      using cat_ok_index_name[OF ok] by blast
    obtain tm where tm: "map_of (cat_tables st) (im_table_id im) = Some tm" "tm_table_name tm = t"
      using cat_ok_name[OF ok] im(3) by (blast dest: map_of_SomeD)
    have "iid \<in> set (map fst ?es)" using cat_ok_index_keys[OF ok] im(1) by (force dest: map_of_SomeD)
    then obtain pid where "(iid, pid) \<in> set ?es" by auto
    moreover have "?P (iid, pid)" using im tm by simp
    ultimately show False using None unfolding find_None_iff by blast
  qed
  then show ?thesis using None by simp
next
  case (Some e)
  then have e: "e \<in> set ?es" "?P e" by (auto simp: find_Some_iff)
  obtain im where im: "map_of (cat_indexes st) (fst e) = Some im"
    using cat_ok_index_page[OF ok, of "fst e" "snd e"] e(1) by auto
  obtain tm where "map_of (cat_tables st) (im_table_id im) = Some tm"
      "cat_index_lookup st (tm_table_name tm) (im_index_name im) = Some (fst e)"
    using cat_ok_index[OF ok, of "fst e" im] im by (auto dest: map_of_SomeD)
  then show ?thesis using Some e(2) im by simp
qed

lemma cat_load_tables_of_ok:
  assumes ok: "cat_ok st" and pg: "\<forall>pid. 0 < pid \<longrightarrow> P pid = cat_pages st pid"
    and junk: "\<forall>pid j. takeWhile (\<lambda>b. b \<noteq> 0) (tjunks pid j) = []"
  shows "\<exists>tmax st'. cat_load_tables (table_meta_pages (cat_meta st)) tjunks 0 (cat_empty P np cm) = Some (tmax, st') \<and>
           st' = (cat_empty P np cm)\<lparr>cat_table_names := cat_table_names st', cat_tables := cat_tables st'\<rparr> \<and>
           map_of (cat_table_names st') = map_of (cat_table_names st) \<and> map_of (cat_tables st') = map_of (cat_tables st) \<and>
           (tmax = 0 \<or> tmax < cat_next_table_id st) \<and> (\<forall>tid \<in> set (map fst (cat_tables st)). tid \<le> tmax)"
proof -
  let ?T = "map_of (cat_tables st)" and ?es = "table_meta_pages (cat_meta st)"
  have pre: "\<forall>(tid, pid) \<in> set ?es. \<exists>tm. ?T tid = Some tm \<and> tm_table_id tm = tid \<and> tm_ok tm \<and>
               cat_pages (cat_empty P np cm) pid = Some (buf_write 0 (TableMetadata_SerializeTo tm) zero_page)"
    using cat_ok_table_page[OF ok] pg by (fastforce simp: cat_empty_def)
  let ?tmax = "foldl (\<lambda>m e. if m < fst e then fst e else m) 0 ?es"
  have mx: "?tmax = 0 \<or> ?tmax < cat_next_table_id st"
    using foldl_running_max_in[of 0 ?es] cat_ok_table_page[OF ok] cat_ok_table[OF ok]
    by (fastforce dest: map_of_SomeD)
  have ge: "\<forall>tid \<in> set (map fst (cat_tables st)). tid \<le> ?tmax"
    using foldl_running_max_ge[of 0 ?es] cat_ok_table_keys[OF ok] by auto
  let ?N = "foldl (\<lambda>acc e. umap_insert (tm_table_name (the (?T (fst e)))) (fst e) acc) [] ?es"
  let ?Tb = "foldl (\<lambda>acc e. umap_insert (fst e) (the (?T (fst e))) acc) [] ?es"
  have l: "cat_load_tables ?es tjunks 0 (cat_empty P np cm) =
             Some (?tmax, (cat_empty P np cm)\<lparr>cat_table_names := ?N, cat_tables := ?Tb\<rparr>)"
    using cat_load_tables_ok[OF pre junk, of 0] by (simp add: cat_empty_def)
  show ?thesis
  proof (intro exI conjI)
    show "map_of (cat_table_names ((cat_empty P np cm)\<lparr>cat_table_names := ?N, cat_tables := ?Tb\<rparr>)) =
          map_of (cat_table_names st)" using load_names_eq[OF ok] by simp
    show "map_of (cat_tables ((cat_empty P np cm)\<lparr>cat_table_names := ?N, cat_tables := ?Tb\<rparr>)) = map_of (cat_tables st)"
      using map_of_load_keys[of ?es "cat_tables st"] cat_ok_table_keys[OF ok] by simp
  qed (use l mx ge in simp_all)
qed

lemma cat_load_indexes_of_ok:
  assumes ok: "cat_ok st" and pg: "\<forall>pid. 0 < pid \<longrightarrow> cat_pages st' pid = cat_pages st pid"
    and junk: "\<forall>pid. takeWhile (\<lambda>b. b \<noteq> 0) (ijunk pid) = []"
    and st': "map_of (cat_tables st') = map_of (cat_tables st)" "cat_index_names st' = []" "cat_indexes st' = []"
    and tmax: "tmax = 0 \<or> tmax < cat_next_table_id st"
  shows "\<exists>imax st''. cat_load_indexes (index_meta_pages (cat_meta st)) ijunk tmax 0 st' = Some (imax, st'') \<and>
           st'' = st'\<lparr>cat_index_names := cat_index_names st'', cat_indexes := cat_indexes st''\<rparr> \<and>
           cat_index_lookup st'' = cat_index_lookup st \<and> map_of (cat_indexes st'') = map_of (cat_indexes st) \<and>
           (imax = 0 \<or> imax < cat_next_table_id st \<or> imax < cat_next_index_id st) \<and>
           (\<forall>iid \<in> set (map fst (cat_indexes st)). iid \<le> imax)"
proof -
  let ?I = "map_of (cat_indexes st)" and ?es = "index_meta_pages (cat_meta st)"
  have pre: "\<forall>(iid, pid) \<in> set ?es. \<exists>im tm. ?I iid = Some im \<and> im_index_id im = iid \<and> im_ok im \<and>
             cat_pages st' pid = Some (snd (IndexMetadata_SerializeTo im zero_page)) \<and>
             map_of (cat_tables st') (im_table_id im) = Some tm"
  proof (intro ballI, clarify)
    fix iid pid assume e: "(iid, pid) \<in> set ?es"
    obtain im where im: "?I iid = Some im" "im_index_id im = iid" "im_ok im"
        "cat_pages st pid = Some (snd (IndexMetadata_SerializeTo im zero_page))" "0 < pid"
      using cat_ok_index_page[OF ok e] by blast
    obtain tm where "map_of (cat_tables st) (im_table_id im) = Some tm"
      using cat_ok_index[OF ok, of iid im] im(1) by (blast dest: map_of_SomeD)
    then show "\<exists>im tm. ?I iid = Some im \<and> im_index_id im = iid \<and> im_ok im \<and>
             cat_pages st' pid = Some (snd (IndexMetadata_SerializeTo im zero_page)) \<and>
             map_of (cat_tables st') (im_table_id im) = Some tm"
      using im pg st'(1) by auto
  qed
  let ?imax = "foldl (\<lambda>m e. if tmax < fst e then fst e else tmax) 0 ?es"
  have last: "?es \<noteq> [] \<Longrightarrow> fst (last ?es) < cat_next_index_id st"
    using cat_ok_index_keys[OF ok] cat_ok_index[OF ok] last_in_set[of ?es] by (fastforce dest: map_of_SomeD)
  have mx: "?imax = 0 \<or> ?imax < cat_next_table_id st \<or> ?imax < cat_next_index_id st"
    using foldl_last_max[of tmax 0 ?es] last tmax by auto
  have ge: "\<forall>iid \<in> set (map fst (cat_indexes st)). iid \<le> ?imax"
    using foldl_last_max[of tmax 0 ?es] cat_ok_index_keys[OF ok] smap_ok_le_last[OF cat_ok_smap(2)[OF ok]]
    by (fastforce intro: order_trans less_imp_le)
  obtain st'' where l: "cat_load_indexes ?es ijunk tmax 0 st' = Some (?imax, st'')"
      "st'' = st'\<lparr>cat_index_names := cat_index_names st'', cat_indexes := cat_indexes st''\<rparr>"
      "cat_indexes st'' = foldl (\<lambda>acc e. umap_insert (fst e) (the (?I (fst e))) acc) [] ?es"
      "\<forall>t i. cat_index_lookup st'' t i =
         map_option fst (find (\<lambda>e. tm_table_name (the (map_of (cat_tables st) (im_table_id (the (?I (fst e)))))) = t \<and>
                                   im_index_name (the (?I (fst e))) = i) ?es)"
    using cat_load_indexes_ok[OF pre junk, of tmax 0] st' by (auto simp: cat_index_lookup_def)
  show ?thesis
  proof (intro exI conjI)
    show "cat_index_lookup st'' = cat_index_lookup st" using l(4) load_lookup_eq[OF ok] by (simp add: fun_eq_iff)
    show "map_of (cat_indexes st'') = map_of (cat_indexes st)"
      using l(3) map_of_load_keys[of ?es "cat_indexes st"] cat_ok_index_keys[OF ok] by simp
  qed (use l mx ge in simp_all)
qed

lemma FlushCatalogMetaPage_ok:
  assumes "cat_ok st"
  shows "\<exists>p0. cat_pages st CATALOG_META_PAGE_ID = Some p0 \<and>
           FlushCatalogMetaPage st = Some (st\<lparr>cat_pages := (cat_pages st)(CATALOG_META_PAGE_ID \<mapsto>
                                              buf_write 0 (CatalogMeta_SerializeTo (cat_meta st)) p0)\<rparr>)"
  using cat_ok_meta_page[OF assms] by (auto simp: FlushCatalogMetaPage_def)

lemma cat_ok_meta_roundtrip:
  assumes ok: "cat_ok st"
  shows "CatalogMeta_DeserializeFrom (buf_write 0 (CatalogMeta_SerializeTo (cat_meta st)) p0) = Some (cat_meta st)"
proof -
  have "\<forall>e \<in> set (table_meta_pages (cat_meta st) @ index_meta_pages (cat_meta st)). - (2 ^ 31) \<le> snd e \<and> snd e < 2 ^ 31"
    using cat_ok_table_page[OF ok] cat_ok_index_page[OF ok] cat_ok_next_page[OF ok] by fastforce
  then show ?thesis
    using CatalogMeta_roundtrip[OF cat_ok_smap[OF ok] _ smap_ok_length smap_ok_length] cat_ok_smap[OF ok]
    by (simp add: buf_write_start)
qed

text \<open>C20: the catalog persists: flushing a well-formed catalog and constructing a
  catalog manager without \<open>init\<close> on the pages it leaves reloads it.  The meta
  data, both table maps and both index maps come back as they were, and the
  next table and index ids handed out are fresh, though the next index id is
  computed from the largest table id.  Names are read back exactly when the
  heap bytes after their unterminated copies start with a zero.\<close>

theorem Catalog_persistence:
  assumes ok: "cat_ok st" and fl: "FlushCatalogMetaPage st = Some st1"
    and tj: "\<forall>pid j. takeWhile (\<lambda>b. b \<noteq> 0) (tjunks pid j) = []"
    and ij: "\<forall>pid. takeWhile (\<lambda>b. b \<noteq> 0) (ijunk pid) = []"
  shows "\<exists>st2. CatalogManager_load (cat_pages st1) np tjunks ijunk = Some st2 \<and> cat_abs st2 = cat_abs st \<and>
           (\<forall>tid \<in> set (map fst (cat_tables st2)). tid < cat_next_table_id st2) \<and>
           (\<forall>iid \<in> set (map fst (cat_indexes st2)). iid < cat_next_index_id st2)"
proof -
  obtain p0 where p0: "cat_pages st CATALOG_META_PAGE_ID = Some p0" and
      st1: "cat_pages st1 = (cat_pages st)(CATALOG_META_PAGE_ID \<mapsto> buf_write 0 (CatalogMeta_SerializeTo (cat_meta st)) p0)"
    using FlushCatalogMetaPage_ok[OF ok] fl by auto
  let ?P = "cat_pages st1"
  have pg: "\<forall>pid. 0 < pid \<longrightarrow> ?P pid = cat_pages st pid" using st1 by (simp add: CATALOG_META_PAGE_ID_def)
  have cm: "CatalogMeta_DeserializeFrom (the (?P CATALOG_META_PAGE_ID)) = Some (cat_meta st)"
    using cat_ok_meta_roundtrip[OF ok] st1 by simp
  obtain tmax sta where lt: "cat_load_tables (table_meta_pages (cat_meta st)) tjunks 0 (cat_empty ?P np (cat_meta st)) =
        Some (tmax, sta)"
      and sta: "sta = (cat_empty ?P np (cat_meta st))\<lparr>cat_table_names := cat_table_names sta, cat_tables := cat_tables sta\<rparr>"
        "map_of (cat_table_names sta) = map_of (cat_table_names st)" "map_of (cat_tables sta) = map_of (cat_tables st)"
      and tmax: "tmax = 0 \<or> tmax < cat_next_table_id st" "\<forall>tid \<in> set (map fst (cat_tables st)). tid \<le> tmax"
    using cat_load_tables_of_ok[OF ok pg tj] by blast
  let ?stb = "sta\<lparr>cat_next_table_id := tmax + 1\<rparr>"
  have sta_f: "cat_pages sta = ?P" "cat_index_names sta = []" "cat_indexes sta = []" "cat_meta sta = cat_meta st"
    using arg_cong[OF sta(1), of cat_pages] arg_cong[OF sta(1), of cat_index_names] arg_cong[OF sta(1), of cat_indexes]
      arg_cong[OF sta(1), of cat_meta] by (simp_all add: cat_empty_def)
  have stb: "\<forall>pid. 0 < pid \<longrightarrow> cat_pages ?stb pid = cat_pages st pid" "map_of (cat_tables ?stb) = map_of (cat_tables st)"
      "cat_index_names ?stb = []" "cat_indexes ?stb = []"
    using pg sta(3) sta_f by simp_all
  obtain imax st3 where li: "cat_load_indexes (index_meta_pages (cat_meta st)) ijunk tmax 0 ?stb = Some (imax, st3)"
      and st3: "st3 = ?stb\<lparr>cat_index_names := cat_index_names st3, cat_indexes := cat_indexes st3\<rparr>"
        "cat_index_lookup st3 = cat_index_lookup st" "map_of (cat_indexes st3) = map_of (cat_indexes st)"
      and imax: "imax = 0 \<or> imax < cat_next_table_id st \<or> imax < cat_next_index_id st"
        "\<forall>iid \<in> set (map fst (cat_indexes st)). iid \<le> imax"
    using cat_load_indexes_of_ok[OF ok stb(1) ij stb(2-4) tmax(1)] by blast
  let ?st2 = "st3\<lparr>cat_next_index_id := imax + 1\<rparr>"
  have load: "CatalogManager_load ?P np tjunks ijunk = Some ?st2"
    using p0 st1 cm lt li by (simp add: CatalogManager_load_def)
  have st3_f: "cat_meta st3 = cat_meta st" "cat_tables st3 = cat_tables sta" "cat_table_names st3 = cat_table_names sta"
      "cat_next_table_id st3 = tmax + 1"
    using arg_cong[OF st3(1), of cat_meta] arg_cong[OF st3(1), of cat_tables] arg_cong[OF st3(1), of cat_table_names]
      arg_cong[OF st3(1), of cat_next_table_id] sta_f by simp_all
  have keys: "set (map fst (cat_tables ?st2)) = set (map fst (cat_tables st))"
      "set (map fst (cat_indexes ?st2)) = set (map fst (cat_indexes st))"
    using st3_f(2) sta(3) st3(3) by (simp_all flip: dom_map_of_conv_image_fst)
  show ?thesis
  proof (intro exI conjI)
    show "CatalogManager_load ?P np tjunks ijunk = Some ?st2" by (rule load)
    show "cat_abs ?st2 = cat_abs st" using st3_f st3(2,3) sta(2,3) by (simp add: cat_abs_def)
    show "\<forall>tid \<in> set (map fst (cat_tables ?st2)). tid < cat_next_table_id ?st2"
      using keys(1) tmax st3_f(4) word_fresh_succ[of _ tmax "cat_next_table_id st"] by simp
    show "\<forall>iid \<in> set (map fst (cat_indexes ?st2)). iid < cat_next_index_id ?st2"
      using keys(2) imax word_fresh_succ[of _ imax "cat_next_table_id st"] word_fresh_succ[of _ imax "cat_next_index_id st"]
      by auto
  qed
qed

section \<open>Witnesses\<close>

lemma cat_example_ok: "cat_ok cat_example"
  by (simp add: cat_ok_def cat_example_def cat_example_table_def cat_example_index_def tm_ok_def im_ok_def
      schema_ok_def column_ok_def smap_ok_def cat_index_lookup_def CATALOG_META_PAGE_ID_def
      IndexMetadata_GetSerializedSize_def PAGE_SIZE_def)

lemma Catalog_persistence_witness:
  "cat_ok cat_example \<and>
   (\<exists>st2. CatalogManager_load (cat_pages (the (FlushCatalogMetaPage cat_example))) 4 (\<lambda>_ _. []) (\<lambda>_. []) = Some st2 \<and>
          cat_abs st2 = cat_abs cat_example)"
proof -
  have fl: "FlushCatalogMetaPage cat_example = Some (the (FlushCatalogMetaPage cat_example))"
    by (simp add: FlushCatalogMetaPage_def cat_example_def CATALOG_META_PAGE_ID_def)
  show ?thesis using Catalog_persistence[OF cat_example_ok fl, of "\<lambda>_ _. []" "\<lambda>_. []" 4] cat_example_ok by auto
qed

end
