(* ===== verification/Catalog_Inv.thy ===== *)
theory Catalog_Inv
  imports Catalog
begin

text \<open>
  The catalog's well-formedness \<open>cat_ok\<close> is kept by every operation of the
  manager: \<open>CreateTable\<close>, \<open>CreateIndex\<close> (on each of its guards and on both
  outcomes of its scan), \<open>DropTable\<close>, \<open>DropIndex\<close> and \<open>FlushCatalogMetaPage\<close>,
  provided page and id numbers stay in range (\<open>cat_room\<close>: the next page id
  stays at most \<open>2^31\<close>, and the 32-bit next ids do not wrap).  Under \<open>cat_ok\<close>
  none of them reaches the undefined behaviour the model writes as \<open>None\<close>.
  The theory also shows what \<open>CreateIndex\<close>'s rollback and \<open>DropTable\<close> leave
  behind.
\<close>

definition cat_room :: "nat \<Rightarrow> catalog_manager \<Rightarrow> bool" where
  "cat_room k st \<longleftrightarrow> cat_next_page_id st + 2 * int k \<le> 2 ^ 31 \<and>
     unat (cat_next_table_id st) + k < 2 ^ 32 \<and> unat (cat_next_index_id st) + k < 2 ^ 32"


lemma cat_okI:
  assumes "smap_ok (table_meta_pages (cat_meta st))" "smap_ok (index_meta_pages (cat_meta st))"
    and "cat_pages st CATALOG_META_PAGE_ID \<noteq> None" "CATALOG_META_PAGE_ID < cat_next_page_id st"
    and "cat_next_page_id st \<le> 2 ^ 31"
    and "fst ` set (cat_tables st) = fst ` set (table_meta_pages (cat_meta st))"
    and "\<And>tid pid. (tid, pid) \<in> set (table_meta_pages (cat_meta st)) \<Longrightarrow>
           \<exists>tm. map_of (cat_tables st) tid = Some tm \<and> tm_table_id tm = tid \<and> tm_ok tm \<and>
           cat_pages st pid = Some (buf_write 0 (TableMetadata_SerializeTo tm) zero_page) \<and>
           0 < pid \<and> pid < cat_next_page_id st"
    and "\<And>n tid. (n, tid) \<in> set (cat_table_names st) \<Longrightarrow>
           \<exists>tm. map_of (cat_tables st) tid = Some tm \<and> tm_table_name tm = n"
    and "\<And>tid tm. (tid, tm) \<in> set (cat_tables st) \<Longrightarrow>
           map_of (cat_table_names st) (tm_table_name tm) = Some tid \<and> tid < cat_next_table_id st"
    and "fst ` set (cat_indexes st) = fst ` set (index_meta_pages (cat_meta st))"
    and "\<And>iid pid. (iid, pid) \<in> set (index_meta_pages (cat_meta st)) \<Longrightarrow>
           \<exists>im. map_of (cat_indexes st) iid = Some im \<and> im_index_id im = iid \<and> im_ok im \<and>
           cat_pages st pid = Some (snd (IndexMetadata_SerializeTo im zero_page)) \<and>
           0 < pid \<and> pid < cat_next_page_id st"
    and "distinct (map fst (cat_index_names st))"
    and "\<And>t m i iid. (t, m) \<in> set (cat_index_names st) \<Longrightarrow> (i, iid) \<in> set m \<Longrightarrow>
           \<exists>im. map_of (cat_indexes st) iid = Some im \<and> im_index_name im = i \<and>
           map_of (cat_table_names st) t = Some (im_table_id im)"
    and "\<And>iid im. (iid, im) \<in> set (cat_indexes st) \<Longrightarrow>
           iid < cat_next_index_id st \<and>
           (\<exists>tm. map_of (cat_tables st) (im_table_id im) = Some tm \<and>
                 cat_index_lookup st (tm_table_name tm) (im_index_name im) = Some iid)"
  shows "cat_ok st"
  unfolding cat_ok_def
proof (intro conjI ballI; (clarify)?)
  fix tid pid assume "(tid, pid) \<in> set (table_meta_pages (cat_meta st))"
  then show "0 < pid \<and> pid < cat_next_page_id st \<and>
        (case map_of (cat_tables st) tid of None \<Rightarrow> False
         | Some tm \<Rightarrow> tm_table_id tm = tid \<and> tm_ok tm \<and>
                      cat_pages st pid = Some (buf_write 0 (TableMetadata_SerializeTo tm) zero_page))"
    using assms(7) by fastforce
next
  fix iid pid assume "(iid, pid) \<in> set (index_meta_pages (cat_meta st))"
  then show "0 < pid \<and> pid < cat_next_page_id st \<and>
        (case map_of (cat_indexes st) iid of None \<Rightarrow> False
         | Some im \<Rightarrow> im_index_id im = iid \<and> im_ok im \<and>
                      cat_pages st pid = Some (snd (IndexMetadata_SerializeTo im zero_page)))"
    using assms(11) by fastforce
next
  fix t m i iid assume "(t, m) \<in> set (cat_index_names st)" "(i, iid) \<in> set m"
  then show "case map_of (cat_indexes st) iid of None \<Rightarrow> False
         | Some im \<Rightarrow> im_index_name im = i \<and> map_of (cat_table_names st) t = Some (im_table_id im)"
    using assms(13) by fastforce
next
  fix iid im assume "(iid, im) \<in> set (cat_indexes st)"
  then show "iid < cat_next_index_id st \<and>
        (case map_of (cat_tables st) (im_table_id im) of None \<Rightarrow> False
         | Some tm \<Rightarrow> cat_index_lookup st (tm_table_name tm) (im_index_name im) = Some iid)"
    using assms(14) by fastforce
qed (use assms in \<open>fastforce+\<close>)

lemma cat_ok_table_fresh: "cat_ok st \<Longrightarrow> map_of (cat_tables st) (cat_next_table_id st) = None"
  using cat_ok_table by (fastforce simp: map_of_eq_None_iff)

lemma cat_ok_index_fresh: "cat_ok st \<Longrightarrow> map_of (cat_indexes st) (cat_next_index_id st) = None"
  using cat_ok_index by (fastforce simp: map_of_eq_None_iff)

lemma FlushCatalogMetaPage_inv:
  assumes ok: "cat_ok st" and fl: "FlushCatalogMetaPage st = Some st'"
  shows "cat_ok st'"
proof -
  obtain p0 where st': "st' = st\<lparr>cat_pages := (cat_pages st)(CATALOG_META_PAGE_ID \<mapsto>
                                              buf_write 0 (CatalogMeta_SerializeTo (cat_meta st)) p0)\<rparr>"
    using FlushCatalogMetaPage_ok[OF ok] fl by auto
  have pg: "0 < pid \<Longrightarrow> cat_pages st' pid = cat_pages st pid" for pid by (simp add: st' CATALOG_META_PAGE_ID_def)
  show ?thesis
  proof (rule cat_okI)
    show "\<exists>tm. map_of (cat_tables st') tid = Some tm \<and> tm_table_id tm = tid \<and> tm_ok tm \<and>
           cat_pages st' pid = Some (buf_write 0 (TableMetadata_SerializeTo tm) zero_page) \<and>
           0 < pid \<and> pid < cat_next_page_id st'"
      if "(tid, pid) \<in> set (table_meta_pages (cat_meta st'))" for tid pid
      using cat_ok_table_page[OF ok, of tid pid] that pg by (auto simp: st' CATALOG_META_PAGE_ID_def)
    show "\<exists>im. map_of (cat_indexes st') iid = Some im \<and> im_index_id im = iid \<and> im_ok im \<and>
           cat_pages st' pid = Some (snd (IndexMetadata_SerializeTo im zero_page)) \<and>
           0 < pid \<and> pid < cat_next_page_id st'"
      if "(iid, pid) \<in> set (index_meta_pages (cat_meta st'))" for iid pid
      using cat_ok_index_page[OF ok, of iid pid] that pg by (auto simp: st' CATALOG_META_PAGE_ID_def)
  qed (use ok cat_okD[OF ok] cat_ok_name[OF ok] cat_ok_table[OF ok] cat_ok_index_name[OF ok] cat_ok_index[OF ok]
       in \<open>auto simp: st'\<close>)
qed

lemma CreateTable_exists:
  assumes ok: "cat_ok st" and n: "map_of (cat_table_names st) n = Some tid"
  shows "CreateTable n sch st = Some (DB_TABLE_ALREADY_EXIST, st)"
proof -
  obtain tm where "map_of (cat_tables st) tid = Some tm" using cat_ok_name[OF ok] n by (blast dest: map_of_SomeD)
  then show ?thesis using n by (simp add: CreateTable_def GetTable_def)
qed

lemma CreateTable_new:
  assumes ok: "cat_ok st" and n: "map_of (cat_table_names st) n = None"
  shows "CreateTable n sch st =
           Some (DB_SUCCESS,
                 st\<lparr>cat_pages := (cat_pages st)(cat_next_page_id st \<mapsto> zero_page, cat_next_page_id st + 1 \<mapsto>
                        buf_write 0 (TableMetadata_SerializeTo
                          \<lparr>tm_table_id = cat_next_table_id st, tm_table_name = n, tm_root_page_id = cat_next_page_id st,
                           tm_schema = sch\<rparr>) zero_page),
                    cat_next_page_id := cat_next_page_id st + 2,
                    cat_meta := (cat_meta st)\<lparr>table_meta_pages :=
                       smap_insert (cat_next_table_id st) (cat_next_page_id st + 1) (table_meta_pages (cat_meta st))\<rparr>,
                    cat_table_names := (n, cat_next_table_id st) # cat_table_names st,
                    cat_tables := (cat_next_table_id st, \<lparr>tm_table_id = cat_next_table_id st, tm_table_name = n,
                                     tm_root_page_id = cat_next_page_id st, tm_schema = sch\<rparr>) # cat_tables st,
                    cat_next_table_id := cat_next_table_id st + 1\<rparr>)"
  using n cat_ok_table_fresh[OF ok]
  by (simp add: CreateTable_def GetTable_def cat_NewPage_def umap_insert_def Let_def)

lemma CreateTable_inv:
  assumes ok: "cat_ok st" and n: "map_of (cat_table_names st) n = None"
    and args: "0 \<notin> set n" "length n < 2 ^ 64" "schema_ok sch"
    and room: "cat_next_page_id st + 2 \<le> 2 ^ 31" "cat_next_table_id st \<noteq> - 1"
  shows "\<exists>st'. CreateTable n sch st = Some (DB_SUCCESS, st') \<and> cat_ok st'"
proof -
  define np where "np = cat_next_page_id st"
  define tid where "tid = cat_next_table_id st"
  define tm where "tm = \<lparr>tm_table_id = tid, tm_table_name = n, tm_root_page_id = np, tm_schema = sch\<rparr>"
  define st' where "st' = st\<lparr>cat_pages := (cat_pages st)(np \<mapsto> zero_page, np + 1 \<mapsto> buf_write 0 (TableMetadata_SerializeTo tm) zero_page),
                    cat_next_page_id := np + 2,
                    cat_meta := (cat_meta st)\<lparr>table_meta_pages := smap_insert tid (np + 1) (table_meta_pages (cat_meta st))\<rparr>,
                    cat_table_names := (n, tid) # cat_table_names st,
                    cat_tables := (tid, tm) # cat_tables st,
                    cat_next_table_id := tid + 1\<rparr>"
  have ct: "CreateTable n sch st = Some (DB_SUCCESS, st')"
    using CreateTable_new[OF ok n, of sch] by (simp add: st'_def np_def tid_def tm_def)
  have np0: "0 < np" using cat_ok_meta_below[OF ok] by (simp add: np_def CATALOG_META_PAGE_ID_def)
  have pg: "pid < np \<Longrightarrow> cat_pages st' pid = cat_pages st pid" for pid by (simp add: st'_def)
  have fresh: "map_of (cat_tables st) tid = None" using cat_ok_table_fresh[OF ok] by (simp add: tid_def)
  have fresh_k: "tid \<notin> fst ` set (table_meta_pages (cat_meta st))"
    using fresh cat_ok_table_keys[OF ok] by (force simp: map_of_eq_None_iff)
  have tid_max: "tid < - 1" using room(2) by (simp add: tid_def) (metis max_word_max order_le_less)
  have lt: "x \<le> tid \<Longrightarrow> x < tid + 1" for x using word_lt_succ[OF tid_max] by blast
  have tmok: "tm_ok tm" using args np0 room(1) by (simp add: tm_ok_def tm_def np_def)
  have tabs': "map_of (cat_tables st') x = (if x = tid then Some tm else map_of (cat_tables st) x)" for x
    by (simp add: st'_def)
  have old_tid: "map_of (cat_tables st) x = Some y \<Longrightarrow> x \<noteq> tid" for x y using fresh by auto
  have old_name: "map_of (cat_table_names st) x = Some y \<Longrightarrow> x \<noteq> n" for x y using n by auto
  have "cat_ok st'"
  proof (rule cat_okI)
    show "\<exists>tm'. map_of (cat_tables st') t = Some tm' \<and> tm_table_id tm' = t \<and> tm_ok tm' \<and>
           cat_pages st' pid = Some (buf_write 0 (TableMetadata_SerializeTo tm') zero_page) \<and>
           0 < pid \<and> pid < cat_next_page_id st'"
      if "(t, pid) \<in> set (table_meta_pages (cat_meta st'))" for t pid
    proof -
      have "(t, pid) = (tid, np + 1) \<or> (t, pid) \<in> set (table_meta_pages (cat_meta st))"
        using that set_smap_insert_fresh[OF fresh_k] by (auto simp: st'_def)
      then show ?thesis
      proof
        assume "(t, pid) = (tid, np + 1)"
        then show ?thesis using tmok np0 by (simp add: st'_def tm_def)
      next
        assume old: "(t, pid) \<in> set (table_meta_pages (cat_meta st))"
        then show ?thesis using cat_ok_table_page[OF ok old] pg tabs' old_tid
          by (fastforce simp: st'_def np_def)
      qed
    qed
    show "\<exists>tm'. map_of (cat_tables st') t = Some tm' \<and> tm_table_name tm' = n'"
      if "(n', t) \<in> set (cat_table_names st')" for n' t
      using that cat_ok_name[OF ok, of n' t] tabs' old_tid by (auto simp: st'_def tm_def)
    show "map_of (cat_table_names st') (tm_table_name tm') = Some t \<and> t < cat_next_table_id st'"
      if "(t, tm') \<in> set (cat_tables st')" for t tm'
      using that cat_ok_table[OF ok, of t tm'] lt[of t] old_name by (auto simp: st'_def tm_def tid_def)
    show "\<exists>im. map_of (cat_indexes st') iid = Some im \<and> im_index_id im = iid \<and> im_ok im \<and>
           cat_pages st' pid = Some (snd (IndexMetadata_SerializeTo im zero_page)) \<and>
           0 < pid \<and> pid < cat_next_page_id st'"
      if "(iid, pid) \<in> set (index_meta_pages (cat_meta st'))" for iid pid
      using that cat_ok_index_page[OF ok, of iid pid] pg by (fastforce simp: st'_def np_def)
    show "\<exists>im. map_of (cat_indexes st') iid = Some im \<and> im_index_name im = i \<and>
           map_of (cat_table_names st') t = Some (im_table_id im)"
      if "(t, m) \<in> set (cat_index_names st')" "(i, iid) \<in> set m" for t m i iid
      using that cat_ok_index_name[OF ok, of t m i iid] old_name by (auto simp: st'_def)
    show "iid < cat_next_index_id st' \<and>
           (\<exists>tm'. map_of (cat_tables st') (im_table_id im) = Some tm' \<and>
                 cat_index_lookup st' (tm_table_name tm') (im_index_name im) = Some iid)"
      if "(iid, im) \<in> set (cat_indexes st')" for iid im
      using that cat_ok_index[OF ok, of iid im] tabs' old_tid by (auto simp: st'_def)
  qed (use ok cat_okD[OF ok] np0 room(1) smap_ok_insert in \<open>auto simp: st'_def np_def CATALOG_META_PAGE_ID_def\<close>)
  then show ?thesis using ct by blast
qed

lemma set_update_distinct:
  "distinct (map fst al) \<Longrightarrow> (k', v') \<in> set (AList.update k v al) \<Longrightarrow>
     (k' = k \<and> v' = v) \<or> (k' \<noteq> k \<and> (k', v') \<in> set al)"
  by (induction al) (force split: if_splits)+

lemma set_delete_iff [simp]: "(a, b) \<in> set (AList.delete k al) \<longleftrightarrow> (a, b) \<in> set al \<and> a \<noteq> k"
  by (auto simp: AList.delete_eq)

lemma keys_delete [simp]: "fst ` set (AList.delete k al) = fst ` set al - {k}"
  by (auto simp: AList.delete_eq)

lemma cat_index_lookup_drop:
  assumes "map_of (cat_index_names st) t = Some m"
  shows "cat_index_lookup (st\<lparr>cat_index_names := AList.update t (AList.delete i m) (cat_index_names st)\<rparr>) t' i' =
           (if t' = t \<and> i' = i then None else cat_index_lookup st t' i')"
  using assms by (simp add: cat_index_lookup_def update_conv' delete_conv')

lemma cat_ok_index_name_table:
  assumes ok: "cat_ok st" "(t, m) \<in> set (cat_index_names st)" "(t', m') \<in> set (cat_index_names st)"
    "(i, iid) \<in> set m" "(i', iid) \<in> set m'"
  shows "t' = t"
proof -
  obtain im where "map_of (cat_indexes st) iid = Some im" "map_of (cat_table_names st) t = Some (im_table_id im)"
      "map_of (cat_table_names st) t' = Some (im_table_id im)"
    using cat_ok_index_name[OF ok(1,2,4)] cat_ok_index_name[OF ok(1,3,5)] by auto
  then show ?thesis using cat_ok_name[OF ok(1)] by (metis map_of_SomeD option.inject)
qed

lemma DropIndex_found:
  assumes ok: "cat_ok st" and m: "map_of (cat_index_names st) t = Some m" and iid: "map_of m i = Some iid"
  shows "\<exists>im. map_of (cat_indexes st) iid = Some im \<and>
    DropIndex t i st =
      Some (DB_SUCCESS, st\<lparr>cat_destroyed := iid # cat_destroyed st,
                           cat_indexes := AList.delete iid (cat_indexes st),
                           cat_meta := (cat_meta st)\<lparr>index_meta_pages := smap_erase iid (index_meta_pages (cat_meta st))\<rparr>,
                           cat_index_names := AList.update t (AList.delete i m) (cat_index_names st)\<rparr>)"
  using cat_ok_index_name[OF ok map_of_SomeD[OF m] map_of_SomeD[OF iid]] m iid by (auto simp: DropIndex_def)

lemma DropIndex_inv:
  assumes ok: "cat_ok st" and m: "map_of (cat_index_names st) t = Some m" and iid: "map_of m i = Some iid"
  defines "st' \<equiv> st\<lparr>cat_destroyed := iid # cat_destroyed st,
                    cat_indexes := AList.delete iid (cat_indexes st),
                    cat_meta := (cat_meta st)\<lparr>index_meta_pages := smap_erase iid (index_meta_pages (cat_meta st))\<rparr>,
                    cat_index_names := AList.update t (AList.delete i m) (cat_index_names st)\<rparr>"
  shows "cat_ok st'"
proof -
  have tm: "(t, m) \<in> set (cat_index_names st)" "(i, iid) \<in> set m" using m iid by (auto dest: map_of_SomeD)
  obtain im where im: "map_of (cat_indexes st) iid = Some im" "im_index_name im = i"
    using cat_ok_index_name[OF ok tm] by blast
  have lk: "cat_index_lookup st' t' i' = (if t' = t \<and> i' = i then None else cat_index_lookup st t' i')" for t' i'
    using m by (simp add: st'_def cat_index_lookup_def update_conv' delete_conv')
  have lk_iid: "cat_index_lookup st t i = Some iid" using m iid by (simp add: cat_index_lookup_def)
  have dist: "distinct (map fst (cat_index_names st))" by (rule cat_ok_index_names_distinct[OF ok])
  show ?thesis
  proof (rule cat_okI)
    show "\<exists>im. map_of (cat_indexes st') x = Some im \<and> im_index_id im = x \<and> im_ok im \<and>
           cat_pages st' pid = Some (snd (IndexMetadata_SerializeTo im zero_page)) \<and>
           0 < pid \<and> pid < cat_next_page_id st'"
      if "(x, pid) \<in> set (index_meta_pages (cat_meta st'))" for x pid
      using that cat_ok_index_page[OF ok, of x pid] by (auto simp: st'_def delete_conv')
    show "\<exists>im'. map_of (cat_indexes st') x = Some im' \<and> im_index_name im' = i' \<and>
           map_of (cat_table_names st') t' = Some (im_table_id im')"
      if "(t', m') \<in> set (cat_index_names st')" "(i', x) \<in> set m'" for t' m' i' x
    proof -
      from set_update_distinct[OF dist] that(1) consider
          "t' = t" "m' = AList.delete i m" | "t' \<noteq> t" "(t', m') \<in> set (cat_index_names st)"
        by (auto simp: st'_def)
      then show ?thesis
      proof cases
        case 1
        then have x: "(i', x) \<in> set m" "i' \<noteq> i" using that(2) by auto
        obtain im' where "map_of (cat_indexes st) x = Some im'" "im_index_name im' = i'"
            "map_of (cat_table_names st) t = Some (im_table_id im')"
          using cat_ok_index_name[OF ok tm(1) x(1)] by blast
        then show ?thesis using 1 x im by (auto simp: st'_def delete_conv')
      next
        case 2
        have "x \<noteq> iid" using cat_ok_index_name_table[OF ok tm(1) 2(2) tm(2)] that(2) 2(1) by auto
        then show ?thesis using cat_ok_index_name[OF ok 2(2) that(2)] by (auto simp: st'_def delete_conv')
      qed
    qed
    show "x < cat_next_index_id st' \<and>
           (\<exists>tm. map_of (cat_tables st') (im_table_id im') = Some tm \<and>
                 cat_index_lookup st' (tm_table_name tm) (im_index_name im') = Some x)"
      if "(x, im') \<in> set (cat_indexes st')" for x im'
    proof -
      have x: "(x, im') \<in> set (cat_indexes st)" "x \<noteq> iid" using that by (auto simp: st'_def)
      obtain tm where tm: "map_of (cat_tables st) (im_table_id im') = Some tm"
          "cat_index_lookup st (tm_table_name tm) (im_index_name im') = Some x" "x < cat_next_index_id st"
        using cat_ok_index[OF ok x(1)] by blast
      have "\<not> (tm_table_name tm = t \<and> im_index_name im' = i)" using tm(2) lk_iid x(2) by auto
      then have "cat_index_lookup st' (tm_table_name tm) (im_index_name im') = Some x" using lk tm(2) by simp
      then show ?thesis using tm by (auto simp: st'_def)
    qed
  qed (use ok cat_okD[OF ok] cat_ok_name[OF ok] cat_ok_table[OF ok] cat_ok_table_page[OF ok] smap_ok_erase
         distinct_update[OF dist] in \<open>auto simp: st'_def\<close>)
qed

lemma set_index_names_insert:
  assumes "distinct (map fst ns)" "(t', m') \<in> set (index_names_insert t i iid ns)" "(i', x) \<in> set m'"
  shows "(t' = t \<and> i' = i \<and> x = iid) \<or> (\<exists>m''. (t', m'') \<in> set ns \<and> (i', x) \<in> set m'')"
proof (cases "map_of ns t")
  case None
  then show ?thesis using assms(2,3) by (auto simp: index_names_insert_def umap_insert_def)
next
  case (Some m)
  then have "(t', m') = (t, umap_insert i iid m) \<or> (t', m') \<in> set ns"
    using set_update_distinct[OF assms(1)] assms(2) by (fastforce simp: index_names_insert_def)
  then show ?thesis using assms(3) Some by (auto simp: umap_insert_def split: if_splits dest: map_of_SomeD)
qed

lemma distinct_index_names_insert:
  "distinct (map fst ns) \<Longrightarrow> distinct (map fst (index_names_insert t i iid ns))"
  by (auto simp: index_names_insert_def umap_insert_def distinct_update map_of_eq_None_iff split: option.split)

lemma CreateIndex_new:
  assumes ok: "cat_ok st" and t: "map_of (cat_table_names st) t = Some tid" and lk: "cat_index_lookup st t i = None"
    and tm: "map_of (cat_tables st) tid = Some tm"
    and km: "those (map (Schema_GetColumnIndex (tm_schema tm)) ks) = Some km"
  defines "im \<equiv> \<lparr>im_index_id = cat_next_index_id st, im_index_name = i, im_table_id = tid, im_key_map = km\<rparr>"
  defines "st3 \<equiv> st\<lparr>cat_index_names := index_names_insert t i (cat_next_index_id st) (cat_index_names st),
                    cat_indexes := (cat_next_index_id st, im) # cat_indexes st,
                    cat_next_page_id := cat_next_page_id st + 1,
                    cat_pages := (cat_pages st)(cat_next_page_id st \<mapsto> snd (IndexMetadata_SerializeTo im zero_page)),
                    cat_meta := (cat_meta st)\<lparr>index_meta_pages :=
                       smap_insert (cat_next_index_id st) (cat_next_page_id st) (index_meta_pages (cat_meta st))\<rparr>,
                    cat_next_index_id := cat_next_index_id st + 1\<rparr>"
  shows "CreateIndex t i ks entries_ok st =
           (if entries_ok then Some (DB_SUCCESS, st3)
            else do { (_, st4) \<leftarrow> DropIndex t i st3; Some (DB_FAILED, st4) })"
proof -
  have gi: "GetIndex t i st = Some (DB_INDEX_NOT_FOUND, None)"
    using lk by (auto simp: GetIndex_def cat_index_lookup_def split: option.split)
  have gt: "GetTable t st = Some (DB_SUCCESS, Some tm)" using t tm by (simp add: GetTable_def)
  show ?thesis
    using t gi gt km cat_ok_index_fresh[OF ok]
    by (simp add: CreateIndex_def cat_NewPage_def umap_insert_def Let_def im_def st3_def)
qed

lemma CreateIndex_inv:
  assumes ok: "cat_ok st" and t: "map_of (cat_table_names st) t = Some tid" and lk: "cat_index_lookup st t i = None"
    and tm: "map_of (cat_tables st) tid = Some tm"
    and km: "those (map (Schema_GetColumnIndex (tm_schema tm)) ks) = Some km"
    and args: "0 \<notin> set i" "28 + length i + 4 * length ks \<le> PAGE_SIZE"
    and room: "cat_next_page_id st + 1 \<le> 2 ^ 31" "cat_next_index_id st \<noteq> - 1"
  defines "im \<equiv> \<lparr>im_index_id = cat_next_index_id st, im_index_name = i, im_table_id = tid, im_key_map = km\<rparr>"
  defines "st3 \<equiv> st\<lparr>cat_index_names := index_names_insert t i (cat_next_index_id st) (cat_index_names st),
                    cat_indexes := (cat_next_index_id st, im) # cat_indexes st,
                    cat_next_page_id := cat_next_page_id st + 1,
                    cat_pages := (cat_pages st)(cat_next_page_id st \<mapsto> snd (IndexMetadata_SerializeTo im zero_page)),
                    cat_meta := (cat_meta st)\<lparr>index_meta_pages :=
                       smap_insert (cat_next_index_id st) (cat_next_page_id st) (index_meta_pages (cat_meta st))\<rparr>,
                    cat_next_index_id := cat_next_index_id st + 1\<rparr>"
  shows "cat_ok st3"
proof -
  let ?np = "cat_next_page_id st" and ?iid = "cat_next_index_id st"
  have np0: "0 < ?np" using cat_ok_meta_below[OF ok] by (simp add: CATALOG_META_PAGE_ID_def)
  have pg: "pid < ?np \<Longrightarrow> cat_pages st3 pid = cat_pages st pid" for pid by (simp add: st3_def)
  have fresh: "map_of (cat_indexes st) ?iid = None" by (rule cat_ok_index_fresh[OF ok])
  have fresh_k: "?iid \<notin> fst ` set (index_meta_pages (cat_meta st))"
    using fresh cat_ok_index_keys[OF ok] by (force simp: map_of_eq_None_iff)
  have iid_max: "?iid < - 1" using room(2) by (metis max_word_max order_le_less)
  have lt: "x \<le> ?iid \<Longrightarrow> x < ?iid + 1" for x using word_lt_succ[OF iid_max] by blast
  have imok: "im_ok im" using args those_length[OF km] by (simp add: im_ok_def im_def IndexMetadata_GetSerializedSize_def)
  have idx': "map_of (cat_indexes st3) x = (if x = ?iid then Some im else map_of (cat_indexes st) x)" for x
    by (simp add: st3_def)
  have old_iid: "map_of (cat_indexes st) x = Some y \<Longrightarrow> x \<noteq> ?iid" for x y using fresh by auto
  have lk3: "cat_index_lookup st3 t' i' =
               (case cat_index_lookup st t' i' of Some v \<Rightarrow> Some v | None \<Rightarrow> if t' = t \<and> i' = i then Some ?iid else None)"
    for t' i' unfolding st3_def using cat_index_lookup_insert[where st=st and t=t and i=i and iid="?iid" and t'=t' and i'=i']
    by simp
  have dist: "distinct (map fst (cat_index_names st))" by (rule cat_ok_index_names_distinct[OF ok])
  have tname: "tm_table_name tm = t" using cat_ok_name[OF ok map_of_SomeD[OF t]] tm by auto
  show ?thesis
  proof (rule cat_okI)
    show "\<exists>tm'. map_of (cat_tables st3) x = Some tm' \<and> tm_table_id tm' = x \<and> tm_ok tm' \<and>
           cat_pages st3 pid = Some (buf_write 0 (TableMetadata_SerializeTo tm') zero_page) \<and>
           0 < pid \<and> pid < cat_next_page_id st3"
      if "(x, pid) \<in> set (table_meta_pages (cat_meta st3))" for x pid
      using that cat_ok_table_page[OF ok, of x pid] pg by (fastforce simp: st3_def)
    show "\<exists>im'. map_of (cat_indexes st3) x = Some im' \<and> im_index_id im' = x \<and> im_ok im' \<and>
           cat_pages st3 pid = Some (snd (IndexMetadata_SerializeTo im' zero_page)) \<and>
           0 < pid \<and> pid < cat_next_page_id st3"
      if "(x, pid) \<in> set (index_meta_pages (cat_meta st3))" for x pid
    proof -
      have "(x, pid) = (?iid, ?np) \<or> (x, pid) \<in> set (index_meta_pages (cat_meta st))"
        using that set_smap_insert_fresh[OF fresh_k] by (auto simp: st3_def)
      then show ?thesis
      proof
        assume "(x, pid) = (?iid, ?np)"
        then show ?thesis using imok np0 by (simp add: st3_def im_def)
      next
        assume old: "(x, pid) \<in> set (index_meta_pages (cat_meta st))"
        then show ?thesis using cat_ok_index_page[OF ok old] pg idx' old_iid by (fastforce simp: st3_def)
      qed
    qed
    show "\<exists>im'. map_of (cat_indexes st3) x = Some im' \<and> im_index_name im' = i' \<and>
           map_of (cat_table_names st3) t' = Some (im_table_id im')"
      if "(t', m') \<in> set (cat_index_names st3)" "(i', x) \<in> set m'" for t' m' i' x
    proof -
      have "(t' = t \<and> i' = i \<and> x = ?iid) \<or> (\<exists>m''. (t', m'') \<in> set (cat_index_names st) \<and> (i', x) \<in> set m'')"
        using set_index_names_insert[OF dist] that by (simp add: st3_def)
      then show ?thesis
      proof
        assume "t' = t \<and> i' = i \<and> x = ?iid"
        then show ?thesis using t by (simp add: st3_def im_def)
      next
        assume "\<exists>m''. (t', m'') \<in> set (cat_index_names st) \<and> (i', x) \<in> set m''"
        then obtain m'' where "(t', m'') \<in> set (cat_index_names st)" "(i', x) \<in> set m''" by blast
        then show ?thesis using cat_ok_index_name[OF ok] idx' old_iid by (fastforce simp: st3_def)
      qed
    qed
    show "x < cat_next_index_id st3 \<and>
           (\<exists>tm'. map_of (cat_tables st3) (im_table_id im') = Some tm' \<and>
                 cat_index_lookup st3 (tm_table_name tm') (im_index_name im') = Some x)"
      if "(x, im') \<in> set (cat_indexes st3)" for x im'
    proof -
      have "(x, im') = (?iid, im) \<or> (x, im') \<in> set (cat_indexes st)" using that by (simp add: st3_def)
      then show ?thesis
      proof
        assume "(x, im') = (?iid, im)"
        then show ?thesis using tm tname lk lk3[of t i] lt[of ?iid] by (simp add: st3_def im_def)
      next
        assume old: "(x, im') \<in> set (cat_indexes st)"
        then show ?thesis using cat_ok_index[OF ok old] lk3 lt[of x] by (fastforce simp: st3_def)
      qed
    qed
  qed (use ok cat_okD[OF ok] cat_ok_name[OF ok] cat_ok_table[OF ok] np0 room(1) smap_ok_insert
         distinct_index_names_insert[OF dist] fresh_k cat_ok_index_keys[OF ok] in \<open>auto simp: st3_def CATALOG_META_PAGE_ID_def\<close>)
qed

lemma drop_table_indexes_eq:
  "drop_table_indexes m st =
     st\<lparr>cat_indexes := filter (\<lambda>p. fst p \<notin> snd ` set m) (cat_indexes st),
        cat_meta := (cat_meta st)\<lparr>index_meta_pages := filter (\<lambda>p. fst p \<notin> snd ` set m) (index_meta_pages (cat_meta st))\<rparr>\<rparr>"
proof (induction m arbitrary: st)
  case Nil
  then show ?case by (simp add: drop_table_indexes_def)
next
  case (Cons e m)
  obtain a b where e: "e = (a, b)" by (cases e)
  show ?case using Cons.IH
    by (simp add: drop_table_indexes_def AList.delete_eq smap_erase_def case_prod_beta e)
       (simp add: eq_commute[of b])
qed

text \<open>\<open>DropTable\<close> of a table in the catalog, with its effect on each field;
  \<open>D\<close> is the set of the ids of the table's indexes.\<close>

lemma DropTable_found:
  assumes n: "map_of (cat_table_names st) n = Some tid"
  shows "DropTable n st =
           (DB_SUCCESS,
            st\<lparr>cat_table_names := AList.delete n (cat_table_names st),
               cat_tables := AList.delete tid (cat_tables st),
               cat_indexes := filter (\<lambda>p. fst p \<notin> (case map_of (cat_index_names st) n of None \<Rightarrow> {} | Some m \<Rightarrow> snd ` set m))
                                (cat_indexes st),
               cat_meta := (cat_meta st)\<lparr>
                 index_meta_pages := filter (\<lambda>p. fst p \<notin> (case map_of (cat_index_names st) n of None \<Rightarrow> {} | Some m \<Rightarrow> snd ` set m))
                                       (index_meta_pages (cat_meta st)),
                 table_meta_pages := smap_erase tid (table_meta_pages (cat_meta st))\<rparr>,
               cat_index_names := (case map_of (cat_index_names st) n of None \<Rightarrow> cat_index_names st
                                   | Some m \<Rightarrow> AList.delete n (cat_index_names st))\<rparr>)"
  using n by (auto simp: DropTable_def drop_table_indexes_eq Let_def split: option.split)

lemma DropTable_inv:
  assumes ok: "cat_ok st"
  shows "cat_ok (snd (DropTable n st))"
proof (cases "map_of (cat_table_names st) n")
  case None
  then show ?thesis using ok by (simp add: DropTable_def)
next
  case (Some tid)
  define D where "D = (case map_of (cat_index_names st) n of None \<Rightarrow> {} | Some m \<Rightarrow> snd ` set m)"
  define ns where "ns = (case map_of (cat_index_names st) n of None \<Rightarrow> cat_index_names st
                         | Some m \<Rightarrow> AList.delete n (cat_index_names st))"
  define st' where "st' = snd (DropTable n st)"
  have f: "cat_table_names st' = AList.delete n (cat_table_names st)" "cat_tables st' = AList.delete tid (cat_tables st)"
    "cat_indexes st' = filter (\<lambda>p. fst p \<notin> D) (cat_indexes st)"
    "index_meta_pages (cat_meta st') = filter (\<lambda>p. fst p \<notin> D) (index_meta_pages (cat_meta st))"
    "table_meta_pages (cat_meta st') = smap_erase tid (table_meta_pages (cat_meta st))"
    "cat_index_names st' = ns" "cat_pages st' = cat_pages st" "cat_next_page_id st' = cat_next_page_id st"
    "cat_next_table_id st' = cat_next_table_id st" "cat_next_index_id st' = cat_next_index_id st"
    using DropTable_found[OF Some] by (simp_all add: st'_def D_def ns_def)
  obtain tm0 where tm0: "map_of (cat_tables st) tid = Some tm0" "tm_table_name tm0 = n"
    using cat_ok_name[OF ok map_of_SomeD[OF Some]] by blast
  have name_inj: "map_of (cat_table_names st) x = Some tid \<Longrightarrow> x = n" for x
    using cat_ok_name[OF ok] tm0 by (fastforce dest: map_of_SomeD)
  have ns_set: "(t', m') \<in> set ns \<Longrightarrow> t' \<noteq> n \<and> (t', m') \<in> set (cat_index_names st)" for t' m'
    by (auto simp: ns_def split: option.splits dest: weak_map_of_SomeI)
  have ns_map: "t' \<noteq> n \<Longrightarrow> map_of ns t' = map_of (cat_index_names st) t'" for t'
    by (simp add: ns_def delete_conv' split: option.split)
  have lk': "cat_index_lookup st' t' i' = (if t' = n then None else cat_index_lookup st t' i')" for t' i'
  proof (cases "t' = n")
    case True
    then show ?thesis
      by (simp add: cat_index_lookup_def f(6) ns_def delete_conv' split: option.split)
  qed (simp add: cat_index_lookup_def f(6) ns_map)
  have inD: "(x, im) \<in> set (cat_indexes st) \<Longrightarrow> im_table_id im = tid \<Longrightarrow> x \<in> D" for x im
  proof -
    assume x: "(x, im) \<in> set (cat_indexes st)" "im_table_id im = tid"
    then have "cat_index_lookup st n (im_index_name im) = Some x" using cat_ok_index[OF ok x(1)] tm0 by auto
    then show "x \<in> D" by (auto simp: D_def cat_index_lookup_def image_iff split: option.splits dest!: map_of_SomeD) force
  qed
  have Dtab: "x \<in> D \<Longrightarrow> map_of (cat_indexes st) x = Some im \<Longrightarrow> im_table_id im = tid" for x im
  proof -
    assume "x \<in> D" "map_of (cat_indexes st) x = Some im"
    then obtain m i where "(n, m) \<in> set (cat_index_names st)" "(i, x) \<in> set m"
      by (auto simp: D_def split: option.splits dest: map_of_SomeD)
    then show "im_table_id im = tid" using cat_ok_index_name[OF ok] Some \<open>map_of (cat_indexes st) x = Some im\<close> by fastforce
  qed
  have "cat_ok st'"
  proof (rule cat_okI)
    show "fst ` set (cat_indexes st') = fst ` set (index_meta_pages (cat_meta st'))"
      unfolding f keys_filter_key using cat_ok_index_keys[OF ok] by simp
    show "\<exists>tm. map_of (cat_tables st') x = Some tm \<and> tm_table_id tm = x \<and> tm_ok tm \<and>
           cat_pages st' pid = Some (buf_write 0 (TableMetadata_SerializeTo tm) zero_page) \<and>
           0 < pid \<and> pid < cat_next_page_id st'"
      if "(x, pid) \<in> set (table_meta_pages (cat_meta st'))" for x pid
      using that cat_ok_table_page[OF ok, of x pid] by (auto simp: f delete_conv')
    show "\<exists>tm. map_of (cat_tables st') x = Some tm \<and> tm_table_name tm = n'"
      if "(n', x) \<in> set (cat_table_names st')" for n' x
    proof -
      have x: "(n', x) \<in> set (cat_table_names st)" "n' \<noteq> n" using that by (auto simp: f)
      then have "x \<noteq> tid" using name_inj by (fastforce dest: weak_map_of_SomeI cat_ok_name[OF ok]
          simp: tm0 map_of_SomeD)
      then show ?thesis using cat_ok_name[OF ok x(1)] by (simp add: f delete_conv')
    qed
    show "map_of (cat_table_names st') (tm_table_name tm) = Some x \<and> x < cat_next_table_id st'"
      if "(x, tm) \<in> set (cat_tables st')" for x tm
    proof -
      have x: "(x, tm) \<in> set (cat_tables st)" "x \<noteq> tid" using that by (auto simp: f)
      then have "tm_table_name tm \<noteq> n" using cat_ok_table[OF ok x(1)] Some by auto
      then show ?thesis using cat_ok_table[OF ok x(1)] by (simp add: f delete_conv')
    qed
    show "\<exists>im. map_of (cat_indexes st') x = Some im \<and> im_index_id im = x \<and> im_ok im \<and>
           cat_pages st' pid = Some (snd (IndexMetadata_SerializeTo im zero_page)) \<and>
           0 < pid \<and> pid < cat_next_page_id st'"
      if "(x, pid) \<in> set (index_meta_pages (cat_meta st'))" for x pid
      using that cat_ok_index_page[OF ok, of x pid] by (auto simp: f map_of_filter_notin)
    show "\<exists>im. map_of (cat_indexes st') x = Some im \<and> im_index_name im = i \<and>
           map_of (cat_table_names st') t = Some (im_table_id im)"
      if tm_in: "(t, m) \<in> set (cat_index_names st')" and ix: "(i, x) \<in> set m" for t m i x
    proof -
      have t: "t \<noteq> n" "(t, m) \<in> set (cat_index_names st)" using ns_set tm_in by (auto simp: f)
      obtain im where im: "map_of (cat_indexes st) x = Some im" "im_index_name im = i"
          "map_of (cat_table_names st) t = Some (im_table_id im)"
        using cat_ok_index_name[OF ok t(2) ix] by blast
      have "x \<notin> D" using Dtab[OF _ im(1)] im(3) name_inj t(1) by blast
      then show ?thesis using im t(1) by (simp add: f map_of_filter_notin delete_conv')
    qed
    show "x < cat_next_index_id st' \<and>
           (\<exists>tm. map_of (cat_tables st') (im_table_id im) = Some tm \<and>
                 cat_index_lookup st' (tm_table_name tm) (im_index_name im) = Some x)"
      if "(x, im) \<in> set (cat_indexes st')" for x im
    proof -
      have x: "(x, im) \<in> set (cat_indexes st)" "x \<notin> D" using that by (auto simp: f)
      then have ntid: "im_table_id im \<noteq> tid" using inD by blast
      obtain tm where tm: "map_of (cat_tables st) (im_table_id im) = Some tm"
          "cat_index_lookup st (tm_table_name tm) (im_index_name im) = Some x" "x < cat_next_index_id st"
        using cat_ok_index[OF ok x(1)] by blast
      have "tm_table_name tm \<noteq> n"
        using cat_ok_table[OF ok map_of_SomeD[OF tm(1)]] Some ntid by auto
      then show ?thesis using tm ntid lk' by (simp add: f delete_conv')
    qed
  qed (use ok cat_okD[OF ok] smap_ok_erase smap_ok_filter cat_ok_table_keys[OF ok] in
       \<open>auto simp: f ns_def distinct_delete keys_filter_key split: option.split\<close>)
  then show ?thesis by (simp add: st'_def)
qed

lemma cat_room_same:
  "cat_room (Suc k) st \<Longrightarrow> cat_next_page_id st' = cat_next_page_id st \<Longrightarrow>
   cat_next_table_id st' = cat_next_table_id st \<Longrightarrow> cat_next_index_id st' = cat_next_index_id st \<Longrightarrow> cat_room k st'"
  by (simp add: cat_room_def)

lemma cat_room_table:
  "cat_room (Suc k) st \<Longrightarrow> cat_next_page_id st' = cat_next_page_id st + 2 \<Longrightarrow>
   cat_next_table_id st' = cat_next_table_id st + 1 \<Longrightarrow> cat_next_index_id st' = cat_next_index_id st \<Longrightarrow> cat_room k st'"
  using unat_succ[of "cat_next_table_id st"] by (simp add: cat_room_def)

lemma cat_room_index:
  "cat_room (Suc k) st \<Longrightarrow> cat_next_page_id st' = cat_next_page_id st + 1 \<Longrightarrow>
   cat_next_table_id st' = cat_next_table_id st \<Longrightarrow> cat_next_index_id st' = cat_next_index_id st + 1 \<Longrightarrow> cat_room k st'"
  using unat_succ[of "cat_next_index_id st"] by (simp add: cat_room_def)

lemma cat_room_bounds:
  assumes "cat_room (Suc k) st"
  shows "cat_next_page_id st + 2 \<le> 2 ^ 31" "cat_next_table_id st \<noteq> - 1" "cat_next_index_id st \<noteq> - 1"
  using assms unat_succ_ne_max[of "cat_next_table_id st"] unat_succ_ne_max[of "cat_next_index_id st"]
  by (simp_all add: cat_room_def)

lemma DropIndex_step:
  assumes ok: "cat_ok st"
  shows "\<exists>r st'. DropIndex t i st = Some (r, st') \<and> cat_ok st' \<and> cat_next_page_id st' = cat_next_page_id st \<and>
           cat_next_table_id st' = cat_next_table_id st \<and> cat_next_index_id st' = cat_next_index_id st"
proof (cases "map_of (cat_index_names st) t")
  case (Some m)
  show ?thesis
  proof (cases "map_of m i")
    case (Some iid)
    then show ?thesis using DropIndex_found[OF ok \<open>map_of (cat_index_names st) t = Some m\<close> Some]
        DropIndex_inv[OF ok \<open>map_of (cat_index_names st) t = Some m\<close> Some] by auto
  qed (use ok \<open>map_of (cat_index_names st) t = Some m\<close> in \<open>simp add: DropIndex_def\<close>)
qed (use ok in \<open>simp add: DropIndex_def\<close>)

lemma CreateIndex_step:
  assumes ok: "cat_ok st" and args: "0 \<notin> set i" "28 + length i + 4 * length ks \<le> PAGE_SIZE"
    and room: "cat_room (Suc k) st"
  shows "\<exists>r st'. CreateIndex t i ks entries_ok st = Some (r, st') \<and> cat_ok st' \<and> cat_room k st'"
proof (cases "map_of (cat_table_names st) t")
  case None
  then show ?thesis using ok cat_room_same[OF room] by (auto simp: CreateIndex_def)
next
  case (Some tid)
  obtain tm where tm: "map_of (cat_tables st) tid = Some tm" using cat_ok_name[OF ok map_of_SomeD[OF Some]] by blast
  show ?thesis
  proof (cases "cat_index_lookup st t i")
    case (Some iid)
    then obtain m where "map_of (cat_index_names st) t = Some m" "map_of m i = Some iid"
      by (auto simp: cat_index_lookup_def split: option.splits)
    then have "GetIndex t i st \<noteq> None \<and> fst (the (GetIndex t i st)) = DB_SUCCESS"
      using cat_ok_index_name[OF ok map_of_SomeD map_of_SomeD] by (fastforce simp: GetIndex_def)
    then show ?thesis using ok cat_room_same[OF room] \<open>map_of (cat_table_names st) t = Some tid\<close>
      by (auto simp: CreateIndex_def)
  next
    case None
    note lk = None
    show ?thesis
    proof (cases "those (map (Schema_GetColumnIndex (tm_schema tm)) ks)")
      case None
      have "GetIndex t i st = Some (DB_INDEX_NOT_FOUND, None)"
        using lk by (auto simp: GetIndex_def cat_index_lookup_def split: option.split)
      then show ?thesis using ok cat_room_same[OF room] \<open>map_of (cat_table_names st) t = Some tid\<close> tm None
        by (auto simp: CreateIndex_def GetTable_def)
    next
      case (Some km)
      note shape = CreateIndex_new[OF ok \<open>map_of (cat_table_names st) t = Some tid\<close> lk tm Some, of entries_ok]
      note inv = CreateIndex_inv[OF ok \<open>map_of (cat_table_names st) t = Some tid\<close> lk tm Some args
          _ cat_room_bounds(3)[OF room]]
      let ?st3 = "st\<lparr>cat_index_names := index_names_insert t i (cat_next_index_id st) (cat_index_names st),
                    cat_indexes := (cat_next_index_id st, \<lparr>im_index_id = cat_next_index_id st, im_index_name = i,
                                    im_table_id = tid, im_key_map = km\<rparr>) # cat_indexes st,
                    cat_next_page_id := cat_next_page_id st + 1,
                    cat_pages := (cat_pages st)(cat_next_page_id st \<mapsto> snd (IndexMetadata_SerializeTo
                                    \<lparr>im_index_id = cat_next_index_id st, im_index_name = i,
                                     im_table_id = tid, im_key_map = km\<rparr> zero_page)),
                    cat_meta := (cat_meta st)\<lparr>index_meta_pages :=
                       smap_insert (cat_next_index_id st) (cat_next_page_id st) (index_meta_pages (cat_meta st))\<rparr>,
                    cat_next_index_id := cat_next_index_id st + 1\<rparr>"
      have ok3: "cat_ok ?st3" using inv cat_room_bounds(1)[OF room] by simp
      have room3: "cat_room k ?st3" by (rule cat_room_index[OF room]) simp_all
      show ?thesis
      proof (cases entries_ok)
        case True
        then show ?thesis using shape ok3 room3 by simp
      next
        case False
        obtain r st4 where "DropIndex t i ?st3 = Some (r, st4)" "cat_ok st4" "cat_next_page_id st4 = cat_next_page_id ?st3"
            "cat_next_table_id st4 = cat_next_table_id ?st3" "cat_next_index_id st4 = cat_next_index_id ?st3"
          using DropIndex_step[OF ok3, of t i] by blast
        moreover have "cat_room k st4" using room3 calculation(3-5) by (simp add: cat_room_def)
        ultimately show ?thesis using shape False by simp
      qed
    qed
  qed
qed

lemma DropTable_counters:
  "cat_next_page_id (snd (DropTable n st)) = cat_next_page_id st \<and>
   cat_next_table_id (snd (DropTable n st)) = cat_next_table_id st \<and>
   cat_next_index_id (snd (DropTable n st)) = cat_next_index_id st"
  by (simp add: DropTable_def drop_table_indexes_eq Let_def split: option.split)

lemma cat_step_ok:
  assumes ok: "cat_ok st" and op: "cat_op_ok op" and room: "cat_room (Suc k) st"
  shows "\<exists>r st'. cat_step op st = Some (r, st') \<and> cat_ok st' \<and> cat_room k st'"
proof (cases op)
  case (Op_CreateTable n sch)
  show ?thesis
  proof (cases "map_of (cat_table_names st) n")
    case None
    obtain st' where st': "CreateTable n sch st = Some (DB_SUCCESS, st')" "cat_ok st'"
      using CreateTable_inv[OF ok None _ _ _ cat_room_bounds(1,2)[OF room]] op Op_CreateTable by auto
    then have "cat_room k st'" using CreateTable_new[OF ok None, of sch] cat_room_table[OF room] by auto
    then show ?thesis using st' Op_CreateTable by simp
  qed (use CreateTable_exists[OF ok] ok cat_room_same[OF room] Op_CreateTable in auto)
next
  case (Op_CreateIndex t i ks eok)
  then show ?thesis using CreateIndex_step[OF ok _ _ room] op by simp
next
  case (Op_DropTable n)
  then show ?thesis using DropTable_inv[OF ok, of n] DropTable_counters[of n st] cat_room_same[OF room]
    by (cases "DropTable n st") auto
next
  case (Op_DropIndex t i)
  then show ?thesis using DropIndex_step[OF ok, of t i] cat_room_same[OF room] by fastforce
next
  case Op_Flush
  obtain st' where "FlushCatalogMetaPage st = Some st'" "cat_pages st CATALOG_META_PAGE_ID \<noteq> None"
    "cat_next_page_id st' = cat_next_page_id st" "cat_next_table_id st' = cat_next_table_id st"
    "cat_next_index_id st' = cat_next_index_id st"
    using FlushCatalogMetaPage_ok[OF ok] by auto
  then show ?thesis using FlushCatalogMetaPage_inv[OF ok] cat_room_same[OF room] Op_Flush by auto
qed

lemma cat_run_inv:
  "cat_ok st \<Longrightarrow> \<forall>op \<in> set ops. cat_op_ok op \<Longrightarrow> cat_room (length ops) st \<Longrightarrow>
   \<exists>st'. cat_run ops st = Some st' \<and> cat_ok st'"
proof (induction ops arbitrary: st)
  case (Cons op ops)
  obtain r st' where "cat_step op st = Some (r, st')" "cat_ok st'" "cat_room (length ops) st'"
    using cat_step_ok[OF Cons.prems(1)] Cons.prems(2,3) by fastforce
  then show ?case using Cons.IH[of st'] Cons.prems(2) by simp
qed simp

lemma CatalogManager_init_ok:
  assumes "pages CATALOG_META_PAGE_ID \<noteq> None" "CATALOG_META_PAGE_ID < np" "np \<le> 2 ^ 31"
  shows "\<exists>st. CatalogManager_init pages np = Some st \<and> cat_ok st \<and>
           cat_next_page_id st = np \<and> cat_next_table_id st = 0 \<and> cat_next_index_id st = 0"
  using assms by (auto simp: CatalogManager_init_def cat_empty_def cat_ok_def CatalogMeta_NewInstance_def smap_ok_def Let_def)

text \<open>C21: the catalog's operations keep it well formed and never reach undefined
  behaviour.  From the constructor with \<open>init\<close>, any sequence of \<open>CreateTable\<close>,
  \<open>CreateIndex\<close> (whatever its scan yields), \<open>DropTable\<close>, \<open>DropIndex\<close> and
  \<open>FlushCatalogMetaPage\<close> calls with serialisable arguments returns at every
  step and ends in a catalog satisfying \<open>cat_ok\<close>, as long as page and id
  numbers stay in range.\<close>

theorem Catalog_run_ok:
  assumes pages: "pages CATALOG_META_PAGE_ID \<noteq> None" "CATALOG_META_PAGE_ID < np"
    and room: "np + 2 * int (length ops) \<le> 2 ^ 31" "length ops < 2 ^ 32"
    and args: "\<forall>op \<in> set ops. cat_op_ok op"
  shows "\<exists>st0 st. CatalogManager_init pages np = Some st0 \<and> cat_run ops st0 = Some st \<and> cat_ok st"
proof -
  have "np \<le> 2 ^ 31" using room(1) by simp
  then obtain st0 where st0: "CatalogManager_init pages np = Some st0" "cat_ok st0" "cat_next_page_id st0 = np"
      "cat_next_table_id st0 = 0" "cat_next_index_id st0 = 0"
    using CatalogManager_init_ok[of pages np, OF pages] by blast
  have "cat_room (length ops) st0" using st0(3-5) room by (simp add: cat_room_def)
  then show ?thesis using cat_run_inv[OF st0(2) args] st0(1) by blast
qed

lemma index_names_insert_at:
  assumes "cat_index_lookup st t i = None"
  shows "\<exists>m'. map_of (index_names_insert t i iid (cat_index_names st)) t = Some m' \<and> map_of m' i = Some iid \<and>
           (\<forall>i'. i' \<noteq> i \<longrightarrow> map_of m' i' = cat_index_lookup st t i')"
  using assms by (auto simp: index_names_insert_def cat_index_lookup_def update_conv' split: option.splits)

text \<open>C22: when the scan of \<open>CreateIndex\<close> hits a duplicate key, the compensating
  \<open>DropIndex\<close> undoes the index as clients see it: the result is
  \<open>DB_FAILED\<close>, the catalog's meta data, table maps and index maps are as before,
  and the new index's tree is destroyed.  The index id is used up, and the
  metadata page allocated for it is neither freed nor recorded anywhere.\<close>

theorem CreateIndex_failed_rollback:
  assumes ok: "cat_ok st" and t: "map_of (cat_table_names st) t = Some tid" and lk: "cat_index_lookup st t i = None"
    and tm: "map_of (cat_tables st) tid = Some tm"
    and km: "those (map (Schema_GetColumnIndex (tm_schema tm)) ks) \<noteq> None"
  shows "\<exists>st'. CreateIndex t i ks False st = Some (DB_FAILED, st') \<and> cat_abs st' = cat_abs st \<and>
           cat_destroyed st' = cat_next_index_id st # cat_destroyed st \<and>
           cat_next_page_id st' = cat_next_page_id st + 1 \<and> cat_next_index_id st' = cat_next_index_id st + 1"
proof -
  obtain km' where km': "those (map (Schema_GetColumnIndex (tm_schema tm)) ks) = Some km'" using km by blast
  let ?iid = "cat_next_index_id st" and ?np = "cat_next_page_id st"
  let ?im = "\<lparr>im_index_id = ?iid, im_index_name = i, im_table_id = tid, im_key_map = km'\<rparr>"
  let ?ns = "index_names_insert t i ?iid (cat_index_names st)"
  obtain m' where m': "map_of ?ns t = Some m'" "map_of m' i = Some ?iid"
      "\<forall>i'. i' \<noteq> i \<longrightarrow> map_of m' i' = cat_index_lookup st t i'"
    using index_names_insert_at[OF lk] by blast
  have fresh: "map_of (cat_indexes st) ?iid = None" by (rule cat_ok_index_fresh[OF ok])
  have fresh_k: "?iid \<notin> fst ` set (index_meta_pages (cat_meta st))"
    using fresh cat_ok_index_keys[OF ok] by (force simp: map_of_eq_None_iff)
  define st' where "st' = st\<lparr>cat_index_names := AList.update t (AList.delete i m') ?ns,
      cat_indexes := AList.delete ?iid ((?iid, ?im) # cat_indexes st),
      cat_next_page_id := ?np + 1,
      cat_pages := (cat_pages st)(?np \<mapsto> snd (IndexMetadata_SerializeTo ?im zero_page)),
      cat_meta := cat_meta st, cat_next_index_id := ?iid + 1, cat_destroyed := ?iid # cat_destroyed st\<rparr>"
  have ci: "CreateIndex t i ks False st = Some (DB_FAILED, st')"
    using CreateIndex_new[OF ok t lk tm km', of False] m' fresh_k
    by (simp add: DropIndex_def st'_def smap_erase_insert_fresh)
  have lk': "cat_index_lookup st' t' i' = cat_index_lookup st t' i'" for t' i'
    using m' cat_index_lookup_insert[where st=st and t=t and i=i and iid="?iid" and t'=t' and i'=i'] lk
    by (auto simp: st'_def cat_index_lookup_def update_conv' delete_conv' split: option.splits)
  have ix: "map_of (cat_indexes st') = map_of (cat_indexes st)"
    using fresh by (simp add: st'_def delete_conv' fun_eq_iff)
  show ?thesis using ci lk' ix by (auto simp: st'_def cat_abs_def fun_eq_iff)
qed

text \<open>C23: \<open>DropTable\<close> of a table of a well-formed catalog succeeds and keeps it
  well formed; the table's name and id and all its indexes leave the catalog,
  but unlike \<open>DropIndex\<close> it destroys none of the indexes' trees, so their
  pages stay allocated.\<close>

theorem DropTable_no_destroy:
  assumes ok: "cat_ok st" and n: "map_of (cat_table_names st) n = Some tid"
  shows "fst (DropTable n st) = DB_SUCCESS \<and> cat_ok (snd (DropTable n st)) \<and>
         map_of (cat_table_names (snd (DropTable n st))) n = None \<and> map_of (cat_tables (snd (DropTable n st))) tid = None \<and>
         (\<forall>i iid. cat_index_lookup st n i = Some iid \<longrightarrow>
            cat_index_lookup (snd (DropTable n st)) n i = None \<and> map_of (cat_indexes (snd (DropTable n st))) iid = None) \<and>
         cat_destroyed (snd (DropTable n st)) = cat_destroyed st"
proof -
  have lk: "cat_index_lookup st n i = Some iid \<Longrightarrow>
              cat_index_lookup (snd (DropTable n st)) n i = None \<and> map_of (cat_indexes (snd (DropTable n st))) iid = None"
    for i iid
    using DropTable_found[OF n]
    by (auto simp: cat_index_lookup_def map_of_filter_notin delete_conv' image_iff split: option.splits
        dest!: map_of_SomeD)
  show ?thesis using DropTable_found[OF n] DropTable_inv[OF ok, of n] lk by (simp add: delete_conv')
qed

section \<open>Witnesses\<close>

text \<open>\<open>GetTableIndexes\<close> of a table of a well-formed catalog succeeds and
  appends to its output exactly the indexes whose metadata names that table.\<close>

theorem GetTableIndexes_correct:
  assumes ok: "cat_ok st" and t: "map_of (cat_table_names st) t = Some tid"
  shows "\<exists>ims. GetTableIndexes t xs st = Some (DB_SUCCESS, xs @ ims) \<and>
           set ims = {im. \<exists>iid. map_of (cat_indexes st) iid = Some im \<and> im_table_id im = tid}"
proof -
  obtain tm where tm: "map_of (cat_tables st) tid = Some tm" "tm_table_name tm = t"
    using cat_ok_name[OF ok map_of_SomeD[OF t]] by blast
  have lk: "cat_index_lookup st t (im_index_name im) = Some iid"
    if "map_of (cat_indexes st) iid = Some im" "im_table_id im = tid" for iid im
    using cat_ok_index[OF ok map_of_SomeD[OF that(1)]] that(2) tm by auto
  show ?thesis
  proof (cases "map_of (cat_index_names st) t")
    case None
    then have "{im. \<exists>iid. map_of (cat_indexes st) iid = Some im \<and> im_table_id im = tid} = {}"
      using lk by (auto simp: cat_index_lookup_def)
    then show ?thesis using None t by (simp add: GetTableIndexes_def)
  next
    case (Some m)
    have tm_in: "(t, m) \<in> set (cat_index_names st)" using Some by (rule map_of_SomeD)
    have found: "\<exists>im. map_of (cat_indexes st) iid = Some im \<and> im_index_name im = i \<and> im_table_id im = tid"
      if "(i, iid) \<in> set m" for i iid
      using cat_ok_index_name[OF ok tm_in that] t by auto
    define ims where "ims = map (\<lambda>x. the ((\<lambda>(_, iid). map_of (cat_indexes st) iid) x)) m"
    have "those (map (\<lambda>(_, iid). map_of (cat_indexes st) iid) m) = Some ims"
      unfolding ims_def by (rule those_map_Some) (use found in fastforce)
    moreover have "set ims = {im. \<exists>iid. map_of (cat_indexes st) iid = Some im \<and> im_table_id im = tid}"
    proof
      show "set ims \<subseteq> {im. \<exists>iid. map_of (cat_indexes st) iid = Some im \<and> im_table_id im = tid}"
        unfolding ims_def using found by fastforce
    next
      show "{im. \<exists>iid. map_of (cat_indexes st) iid = Some im \<and> im_table_id im = tid} \<subseteq> set ims"
      proof
        fix im assume "im \<in> {im. \<exists>iid. map_of (cat_indexes st) iid = Some im \<and> im_table_id im = tid}"
        then obtain iid where im: "map_of (cat_indexes st) iid = Some im" "im_table_id im = tid" by blast
        then have "(im_index_name im, iid) \<in> set m"
          using lk[OF im] Some by (auto simp: cat_index_lookup_def dest: map_of_SomeD)
        then show "im \<in> set ims" unfolding ims_def using im(1) by force
      qed
    qed
    ultimately show ?thesis using Some t by (simp add: GetTableIndexes_def)
  qed
qed

lemma Catalog_run_ok_witness:
  "\<exists>st0 st. CatalogManager_init [0 \<mapsto> zero_page] 1 = Some st0 \<and>
     cat_run [Op_CreateTable [116] (tm_schema cat_example_table), Op_CreateIndex [116] [105] [[97]] True,
              Op_DropIndex [116] [105], Op_Flush] st0 = Some st \<and> cat_ok st"
  using Catalog_run_ok[of "[0 \<mapsto> zero_page]" 1
      "[Op_CreateTable [116] (tm_schema cat_example_table), Op_CreateIndex [116] [105] [[97]] True,
        Op_DropIndex [116] [105], Op_Flush]"]
  by (simp add: CATALOG_META_PAGE_ID_def cat_example_table_def schema_ok_def column_ok_def PAGE_SIZE_def)

lemma CreateIndex_failed_rollback_witness:
  "\<exists>st'. CreateIndex [116] [106] [[97]] False cat_example = Some (DB_FAILED, st') \<and>
     cat_abs st' = cat_abs cat_example \<and> cat_destroyed st' = [1] \<and> cat_next_page_id st' = 5"
proof -
  have h: "map_of (cat_table_names cat_example) [116] = Some 0" "cat_index_lookup cat_example [116] [106] = None"
    "map_of (cat_tables cat_example) 0 = Some cat_example_table"
    "those (map (Schema_GetColumnIndex (tm_schema cat_example_table)) [[97]]) \<noteq> None"
    by (simp_all add: cat_example_def cat_index_lookup_def Schema_GetColumnIndex_def cat_example_table_def)
  have c: "cat_next_index_id cat_example = 1" "cat_destroyed cat_example = []" "cat_next_page_id cat_example = 4"
    by (simp_all add: cat_example_def)
  show ?thesis using CreateIndex_failed_rollback[OF cat_example_ok h] c by auto
qed

lemma DropTable_no_destroy_witness:
  "fst (DropTable [116] cat_example) = DB_SUCCESS \<and> map_of (cat_indexes (snd (DropTable [116] cat_example))) 0 = None \<and>
   cat_destroyed (snd (DropTable [116] cat_example)) = []"
proof -
  have "cat_index_lookup cat_example [116] [105] = Some 0" by (simp add: cat_example_def cat_index_lookup_def)
  moreover have "map_of (cat_table_names cat_example) [116] = Some 0" by (simp add: cat_example_def)
  ultimately show ?thesis using DropTable_no_destroy[OF cat_example_ok, of "[116]" 0]
    by (simp add: cat_example_def)
qed

lemma GetTableIndexes_correct_witness:
  "\<exists>ims. GetTableIndexes [116] [] cat_example = Some (DB_SUCCESS, [] @ ims) \<and>
     set ims = {im. \<exists>iid. map_of (cat_indexes cat_example) iid = Some im \<and> im_table_id im = 0}"
  using GetTableIndexes_correct[OF cat_example_ok, of "[116]" 0 "[]"] by (simp add: cat_example_def)

end
