(* ===== verification/Executor.thy ===== *)
theory Executor
  imports Catalog Table_Heap
begin

text \<open>
  Row insertion by the execution engine (\<^verbatim>\<open>src/src/executor/execute_engine.cpp\<close>,
  \<open>ExecuteEngine::ExecuteInsert\<close>): the point where the catalog, a table heap
  and the table's indexes meet.  The syntax tree comes from the generated
  parser (not under src); of it the model keeps what the insert reads, the
  table name and the list of value nodes, each with its node type and text.
  \<open>Field\<close> constructors (\<^verbatim>\<open>record/field.h\<close>, not under src) are an interface:
  \<open>std::stoi\<close> and \<open>std::stof\<close> throw on text that is not a number, which
  is \<open>None\<close>.  An index (\<open>BPlusTreeIndex\<close>, not under src) is an interface on
  an index state \<open>'ix\<close>; \<open>map_index\<close> instantiates it with the key-to-row-id
  map a B+ tree with unique keys implements (\<open>BPlus_Tree\<close>).  The engine's
  database is a record of the catalog, the heap of each table, the index of
  each index id, and the context's count of affected rows.
\<close>

section \<open>Interfaces\<close>

text \<open>The node types of the parser's value nodes that \<open>ExecuteInsert\<close> tells
  apart (\<^verbatim>\<open>parser/syntax_tree.h\<close>, not under src); any other type behaves like
  \<open>kNodeIdentifier\<close>.\<close>

datatype SyntaxNodeType = kNodeNull | kNodeNumber | kNodeString | kNodeIdentifier

record 'f field_ctor =
  Field_null :: "TypeId \<Rightarrow> 'f"
  Field_int :: "byte list \<Rightarrow> 'f option"
  Field_float :: "byte list \<Rightarrow> 'f option"
  Field_char :: "byte list \<Rightarrow> 'f"

record ('f, 'ix) index_iface =
  ix_new :: 'ix
  ix_InsertEntry :: "'f list \<Rightarrow> row_id \<Rightarrow> 'ix \<Rightarrow> dberr_t \<times> 'ix"
  ix_RemoveEntry :: "'f list \<Rightarrow> row_id \<Rightarrow> 'ix \<Rightarrow> dberr_t \<times> 'ix"
  ix_ScanKey :: "'f list \<Rightarrow> 'ix \<Rightarrow> dberr_t \<times> row_id list"
  ix_Destroy :: "'ix \<Rightarrow> dberr_t \<times> 'ix"

text \<open>A unique-key index as the map from key to row id: a new index is empty,
  inserting a key already present fails, removing an absent key fails, a
  key scan finds at most one row id, and \<open>Destroy\<close> empties the index.\<close>

definition map_index :: "('f, 'f list \<rightharpoonup> row_id) index_iface" where
  "map_index =
     \<lparr>ix_new = Map.empty,
      ix_InsertEntry = (\<lambda>k rid m. if m k = None then (DB_SUCCESS, m(k \<mapsto> rid)) else (DB_FAILED, m)),
      ix_RemoveEntry = (\<lambda>k rid m. if m k = None then (DB_FAILED, m) else (DB_SUCCESS, m(k := None))),
      ix_ScanKey = (\<lambda>k m. case m k of None \<Rightarrow> (DB_KEY_NOT_FOUND, []) | Some rid \<Rightarrow> (DB_SUCCESS, [rid])),
      ix_Destroy = (\<lambda>m. (DB_SUCCESS, Map.empty))\<rparr>"

record ('f, 'ix) exec_state =
  ex_catalog :: catalog_manager
  ex_heaps :: "table_id \<rightharpoonup> 'f row table_heap"
  ex_index :: "index_id \<rightharpoonup> 'ix"
  ex_affected :: nat

section \<open>ExecuteInsert\<close>

text \<open>The loop that turns the value nodes into fields, one per column, with
  its checks: a missing value, a null for a column that is not nullable, a
  value node of the wrong type, a string of the wrong length, a column of
  another type, and values left over are each \<open>DB_FAILED\<close>.\<close>

fun ex_insert_values ::
  "'f field_ctor \<Rightarrow> column list \<Rightarrow> (SyntaxNodeType \<times> byte list) list \<Rightarrow> (dberr_t + 'f list) option" where
  "ex_insert_values fc [] vs = Some (if vs = [] then Inr [] else Inl DB_FAILED)"
| "ex_insert_values fc (c # cs) [] = Some (Inl DB_FAILED)"
| "ex_insert_values fc (c # cs) ((nt, v) # vs) =
     (let ty = col_type c;
          cont = (\<lambda>f. map_option (map_sum id (Cons f)) (ex_insert_values fc cs vs))
      in if nt = kNodeNull then (if col_nullable c then cont (Field_null fc ty) else Some (Inl DB_FAILED))
         else if ty = kTypeInt then
           (if nt \<noteq> kNodeNumber then Some (Inl DB_FAILED) else do { f \<leftarrow> Field_int fc v; cont f })
         else if ty = kTypeFloat then
           (if nt \<noteq> kNodeNumber then Some (Inl DB_FAILED) else do { f \<leftarrow> Field_float fc v; cont f })
         else if ty = kTypeChar then
           (if nt \<noteq> kNodeString then Some (Inl DB_FAILED)
            else if length v \<noteq> unat (col_len c) then Some (Inl DB_FAILED)
            else cont (Field_char fc v))
         else Some (Inl DB_FAILED))"

text \<open>The column positions of an index's key: the key schema holds the table
  columns \<open>key_map\<close> names (\<open>IndexInfo::Init\<close>, not under src), and each is
  looked up again by name.\<close>

definition ex_key_columns :: "schema \<Rightarrow> index_metadata \<Rightarrow> (dberr_t + 32 word list) option" where
  "ex_key_columns sch im =
     (if list_all (\<lambda>k. unat k < length (sch_columns sch)) (im_key_map im)
      then Some (case those (map (\<lambda>k. Schema_GetColumnIndex sch (col_name (sch_columns sch ! unat k))) (im_key_map im)) of
                   None \<Rightarrow> Inl DB_COLUMN_NAME_NOT_EXIST
                 | Some inds \<Rightarrow> Inr inds)
      else None)"

text \<open>The key of an index for the converted row: the fields at the column
  positions of its key (\<open>columns[indexColumns[i]]\<close>).\<close>

definition ex_index_key :: "schema \<Rightarrow> 'f list \<Rightarrow> index_metadata \<Rightarrow> (dberr_t + 'f list) option" where
  "ex_index_key sch columns im =
     do { kc \<leftarrow> ex_key_columns sch im;
          (case kc of
             Inl status \<Rightarrow> Some (Inl status)
           | Inr inds \<Rightarrow> if list_all (\<lambda>j. unat j < length columns) inds
                         then Some (Inr (map (\<lambda>j. columns ! unat j) inds)) else None) }"

text \<open>The loop over the table's indexes: each gets the row's key; the first
  \<open>InsertEntry\<close> that fails makes the insert mark and apply the delete of the
  row in the heap and return that status.\<close>

fun ex_insert_index_loop ::
  "('f, 'ix) index_iface \<Rightarrow> 'f field_iface \<Rightarrow> schema \<Rightarrow> 'f list \<Rightarrow> row_id \<Rightarrow> table_id \<Rightarrow> index_metadata list \<Rightarrow>
   ('f, 'ix) exec_state \<Rightarrow> (dberr_t \<times> ('f, 'ix) exec_state) option" where
  "ex_insert_index_loop ii fi sch columns rid tid [] st = Some (DB_SUCCESS, st)"
| "ex_insert_index_loop ii fi sch columns rid tid (im # ims) st =
     do { k \<leftarrow> ex_index_key sch columns im;
          (case k of
             Inl status \<Rightarrow> Some (status, st)
           | Inr key \<Rightarrow> do {
               ix \<leftarrow> ex_index st (im_index_id im);
               let (status, ix') = ix_InsertEntry ii key rid ix;
               let st1 = st\<lparr>ex_index := (ex_index st)(im_index_id im \<mapsto> ix')\<rparr>;
               if status \<noteq> DB_SUCCESS then do {
                 h \<leftarrow> ex_heaps st1 tid;
                 (_, h1) \<leftarrow> TH_MarkDelete rid h;
                 h2 \<leftarrow> TH_ApplyDelete (Row_GetSerializedSize fi) rid h1;
                 Some (status, st1\<lparr>ex_heaps := (ex_heaps st1)(tid \<mapsto> h2)\<rparr>) }
               else ex_insert_index_loop ii fi sch columns rid tid ims st1 }) }"

text \<open>\<open>ExecuteInsert\<close> once a database is selected: the row gets the row id
  \<open>InsertTuple\<close> assigns it, or keeps \<open>INVALID_ROWID\<close> when \<open>InsertTuple\<close>
  stores it nowhere.\<close>

definition ExecuteInsert ::
  "'f field_ctor \<Rightarrow> 'f field_iface \<Rightarrow> ('f, 'ix) index_iface \<Rightarrow> byte list \<Rightarrow> (SyntaxNodeType \<times> byte list) list \<Rightarrow>
   ('f, 'ix) exec_state \<Rightarrow> (dberr_t \<times> ('f, 'ix) exec_state) option" where
  "ExecuteInsert fc fi ii table_name values st =
     do { (status, tmo) \<leftarrow> GetTable table_name (ex_catalog st);
          if status \<noteq> DB_SUCCESS then Some (status, st)
          else do {
            table_info \<leftarrow> tmo;
            conv \<leftarrow> ex_insert_values fc (sch_columns (tm_schema table_info)) values;
            (case conv of
               Inl err \<Rightarrow> Some (err, st)
             | Inr columns \<Rightarrow> do {
                 (_, indexes) \<leftarrow> GetTableIndexes table_name [] (ex_catalog st);
                 h \<leftarrow> ex_heaps st (tm_table_id table_info);
                 (ok, rido, h1) \<leftarrow> TH_InsertTuple (Row_GetSerializedSize fi)
                                     \<lparr>row_rid = INVALID_ROWID, row_fields = columns\<rparr> h;
                 let st1 = st\<lparr>ex_heaps := (ex_heaps st)(tm_table_id table_info \<mapsto> h1)\<rparr>;
                 if \<not> ok then Some (DB_FAILED, st1)
                 else do {
                   (r, st2) \<leftarrow> ex_insert_index_loop ii fi (tm_schema table_info) columns
                                 (case rido of None \<Rightarrow> INVALID_ROWID | Some rid \<Rightarrow> rid) (tm_table_id table_info) indexes st1;
                   Some (r, if r = DB_SUCCESS then st2\<lparr>ex_affected := ex_affected st2 + 1\<rparr> else st2) } }) } }"

section \<open>What an insert promises\<close>

text \<open>Every index of the list has a key for the row, under an id of its own,
  and the key is not yet in it.\<close>

definition ex_keys_fresh ::
  "schema \<Rightarrow> 'f list \<Rightarrow> index_metadata list \<Rightarrow> (index_id \<rightharpoonup> ('f list \<rightharpoonup> row_id)) \<Rightarrow> bool" where
  "ex_keys_fresh sch columns ims ix \<longleftrightarrow> distinct (map im_index_id ims) \<and>
     list_all (\<lambda>im. case (ex_index_key sch columns im, ix (im_index_id im)) of
                      (Some (Inr key), Some m) \<Rightarrow> m key = None
                    | _ \<Rightarrow> False) ims"

text \<open>The indexes of the list have gained the row's key, mapped to \<open>rid\<close>, and
  no other index has changed.\<close>

definition ex_index_gains ::
  "schema \<Rightarrow> 'f list \<Rightarrow> row_id \<Rightarrow> index_metadata list \<Rightarrow> (index_id \<rightharpoonup> ('f list \<rightharpoonup> row_id)) \<Rightarrow>
   (index_id \<rightharpoonup> ('f list \<rightharpoonup> row_id)) \<Rightarrow> bool" where
  "ex_index_gains sch columns rid ims ix ix' \<longleftrightarrow>
     (\<forall>im\<in>set ims. \<forall>key. ex_index_key sch columns im = Some (Inr key) \<longrightarrow>
        ix' (im_index_id im) = map_option (\<lambda>m. m(key \<mapsto> rid)) (ix (im_index_id im))) \<and>
     (\<forall>i. i \<notin> im_index_id ` set ims \<longrightarrow> ix' i = ix i)"

section \<open>Examples\<close>

text \<open>Fields as their text, numbers as decimal digits; a catalog holding one
  table named \<open>t\<close> with the given indexes, an engine state over it with an
  empty one-page heap for table 0, and a second index on the same column.\<close>

definition ex_ctor :: "byte list field_ctor" where
  "ex_ctor = \<lparr>Field_null = (\<lambda>_. []),
              Field_int = (\<lambda>v. if v \<noteq> [] \<and> list_all (\<lambda>c. 48 \<le> c \<and> c \<le> 57) v then Some v else None),
              Field_float = (\<lambda>v. if v \<noteq> [] \<and> list_all (\<lambda>c. 48 \<le> c \<and> c \<le> 57) v then Some v else None),
              Field_char = (\<lambda>v. v)\<rparr>"

definition ex_fields :: "byte list field_iface" where
  "ex_fields = \<lparr>fld_SerializeTo = (\<lambda>v. v), fld_GetSerializedSize = length, fld_IsNull = (\<lambda>v. v = []),
                fld_DeserializeFrom = (\<lambda>_ _ _. None)\<rparr>"

definition ex_cat :: "table_metadata \<Rightarrow> index_metadata list \<Rightarrow> catalog_manager" where
  "ex_cat tm ims = cat_example\<lparr>cat_tables := [(0, tm)],
     cat_index_names := [([116], map (\<lambda>im. (im_index_name im, im_index_id im)) ims)],
     cat_indexes := map (\<lambda>im. (im_index_id im, im)) ims\<rparr>"

definition ex_heap :: "byte list row table_heap" where
  "ex_heap = \<lparr>th_first_page_id = 0, th_pages = [0 \<mapsto> TablePage_Init 0 INVALID_PAGE_ID new_table_page],
              th_next_page_id = 1\<rparr>"

definition ex_state ::
  "catalog_manager \<Rightarrow> (index_id \<rightharpoonup> (byte list list \<rightharpoonup> row_id)) \<Rightarrow> (byte list, byte list list \<rightharpoonup> row_id) exec_state" where
  "ex_state c ix = \<lparr>ex_catalog = c, ex_heaps = [0 \<mapsto> ex_heap], ex_index = ix, ex_affected = 0\<rparr>"

definition ex_index2 :: index_metadata where
  "ex_index2 = \<lparr>im_index_id = 1, im_index_name = [106], im_table_id = 0, im_key_map = [0]\<rparr>"

definition ex_big_table :: table_metadata where
  "ex_big_table = cat_example_table\<lparr>tm_schema := \<lparr>sch_columns = [\<lparr>col_name = [97], col_type = kTypeChar,
     col_len = 4100, col_table_ind = 0, col_nullable = False, col_unique = False\<rparr>]\<rparr>\<rparr>"

section \<open>The index loop\<close>

lemma ex_keys_fresh_Cons:
  assumes "ex_keys_fresh sch cols (im # ims) ix"
  obtains key m where "ex_index_key sch cols im = Some (Inr key)" "ix (im_index_id im) = Some m" "m key = None"
    "im_index_id im \<notin> im_index_id ` set ims" "\<And>m'. ex_keys_fresh sch cols ims (ix(im_index_id im \<mapsto> m'))"
proof -
  obtain key m where k: "ex_index_key sch cols im = Some (Inr key)" "ix (im_index_id im) = Some m" "m key = None"
    using assms by (auto simp: ex_keys_fresh_def split: option.splits sum.splits)
  have "im_index_id im \<notin> im_index_id ` set ims" using assms by (simp add: ex_keys_fresh_def)
  moreover have "ex_keys_fresh sch cols ims (ix(im_index_id im \<mapsto> m'))" for m'
  proof -
    have "\<forall>im'\<in>set ims. im_index_id im' \<noteq> im_index_id im" using calculation by (auto simp: image_iff)
    then show ?thesis using assms by (auto simp: ex_keys_fresh_def list_all_iff)
  qed
  ultimately show thesis using that k by blast
qed

lemma ex_index_gains_Cons:
  assumes g: "ex_index_gains sch cols rid ims (ix(im_index_id im \<mapsto> m(key \<mapsto> rid))) ix'"
    and k: "ex_index_key sch cols im = Some (Inr key)" and m: "ix (im_index_id im) = Some m"
    and nin: "im_index_id im \<notin> im_index_id ` set ims"
  shows "ex_index_gains sch cols rid (im # ims) ix ix'"
  using g k m nin unfolding ex_index_gains_def by (auto split: if_splits) (metis image_eqI)+

lemma ex_insert_loop_fresh:
  "ex_index_key sch cols im = Some (Inr key) \<Longrightarrow> ex_index st (im_index_id im) = Some m \<Longrightarrow> m key = None \<Longrightarrow>
   ex_insert_index_loop map_index fi sch cols rid tid (im # ims) st =
   ex_insert_index_loop map_index fi sch cols rid tid ims (st\<lparr>ex_index := (ex_index st)(im_index_id im \<mapsto> m(key \<mapsto> rid))\<rparr>)"
  by (simp add: map_index_def)

lemma ex_insert_loop_success:
  assumes "ex_keys_fresh sch cols ims (ex_index st)"
  shows "\<exists>st'. ex_insert_index_loop map_index fi sch cols rid tid ims st = Some (DB_SUCCESS, st') \<and>
           ex_heaps st' = ex_heaps st \<and> ex_catalog st' = ex_catalog st \<and> ex_affected st' = ex_affected st \<and>
           ex_index_gains sch cols rid ims (ex_index st) (ex_index st')"
  using assms
proof (induction ims arbitrary: st)
  case Nil
  then show ?case by (simp add: ex_index_gains_def)
next
  case (Cons im ims)
  obtain key m where k: "ex_index_key sch cols im = Some (Inr key)" and m: "ex_index st (im_index_id im) = Some m"
    and fr: "m key = None" and nin: "im_index_id im \<notin> im_index_id ` set ims"
    and tl: "\<And>m'. ex_keys_fresh sch cols ims ((ex_index st)(im_index_id im \<mapsto> m'))"
    using ex_keys_fresh_Cons[OF Cons.prems] by metis
  define st1 where "st1 = st\<lparr>ex_index := (ex_index st)(im_index_id im \<mapsto> m(key \<mapsto> rid))\<rparr>"
  have e1: "ex_index st1 = (ex_index st)(im_index_id im \<mapsto> m(key \<mapsto> rid))" "ex_heaps st1 = ex_heaps st"
    "ex_catalog st1 = ex_catalog st" "ex_affected st1 = ex_affected st" by (simp_all add: st1_def)
  obtain st' where IH: "ex_insert_index_loop map_index fi sch cols rid tid ims st1 = Some (DB_SUCCESS, st')"
    "ex_heaps st' = ex_heaps st1" "ex_catalog st' = ex_catalog st1" "ex_affected st' = ex_affected st1"
    "ex_index_gains sch cols rid ims (ex_index st1) (ex_index st')"
    using Cons.IH[of st1] tl[of "m(key \<mapsto> rid)"] unfolding e1(1) by blast
  have "ex_insert_index_loop map_index fi sch cols rid tid (im # ims) st = Some (DB_SUCCESS, st')"
    using ex_insert_loop_fresh[OF k m fr] IH(1) by (simp add: st1_def)
  then show ?case
    using IH(2-4) ex_index_gains_Cons[OF IH(5)[unfolded e1(1)] k m nin] unfolding e1 by blast
qed


lemma ex_insert_loop_failure:
  assumes fresh: "ex_keys_fresh sch cols ims1 (ex_index st)"
    and k: "ex_index_key sch cols im = Some (Inr key)" and m: "ex_index st (im_index_id im) = Some m"
    and dup: "m key \<noteq> None" and nin: "im_index_id im \<notin> im_index_id ` set ims1"
    and h: "ex_heaps st tid = Some h" and wf: "th_wf (Row_GetSerializedSize fi) h ps" and q: "rid_page_id rid \<in> set ps"
  shows "\<exists>st' h2. ex_insert_index_loop map_index fi sch cols rid tid (ims1 @ im # ims2) st = Some (DB_FAILED, st') \<and>
           ex_heaps st' = (ex_heaps st)(tid \<mapsto> h2) \<and> th_wf (Row_GetSerializedSize fi) h2 ps \<and>
           th_table h2 ps = (th_table h ps)(rid := None) \<and>
           ex_catalog st' = ex_catalog st \<and> ex_affected st' = ex_affected st \<and>
           ex_index_gains sch cols rid ims1 (ex_index st) (ex_index st')"
  using fresh m nin h
proof (induction ims1 arbitrary: st)
  case Nil
  obtain h1 h2 where d: "TH_MarkDelete rid h = Some (True, h1)" "TH_ApplyDelete (Row_GetSerializedSize fi) rid h1 = Some h2"
    "th_wf (Row_GetSerializedSize fi) h2 ps" "th_table h2 ps = (th_table h ps)(rid := None)"
    using th_delete_row[OF wf q] by blast
  have triv: "(ex_index st)(im_index_id im \<mapsto> m) = ex_index st" using Nil.prems(2) by (rule map_upd_triv)
  define st' where "st' = st\<lparr>ex_index := (ex_index st)(im_index_id im \<mapsto> m), ex_heaps := (ex_heaps st)(tid \<mapsto> h2)\<rparr>"
  have "ex_insert_index_loop map_index fi sch cols rid tid ([] @ im # ims2) st = Some (DB_FAILED, st')"
    using k Nil.prems(2,4) dup d(1,2) by (auto simp: map_index_def st'_def)
  moreover have "ex_heaps st' = (ex_heaps st)(tid \<mapsto> h2)" "ex_catalog st' = ex_catalog st"
    "ex_affected st' = ex_affected st" "ex_index_gains sch cols rid [] (ex_index st) (ex_index st')"
    using triv by (simp_all add: st'_def ex_index_gains_def)
  ultimately show ?case using d(3,4) by blast
next
  case (Cons im1 ims1)
  obtain key1 m1 where k1: "ex_index_key sch cols im1 = Some (Inr key1)" and m1: "ex_index st (im_index_id im1) = Some m1"
    and fr: "m1 key1 = None" and nin1: "im_index_id im1 \<notin> im_index_id ` set ims1"
    and tl: "\<And>m'. ex_keys_fresh sch cols ims1 ((ex_index st)(im_index_id im1 \<mapsto> m'))"
    using ex_keys_fresh_Cons[OF Cons.prems(1)] by metis
  define st1 where "st1 = st\<lparr>ex_index := (ex_index st)(im_index_id im1 \<mapsto> m1(key1 \<mapsto> rid))\<rparr>"
  have ne: "im_index_id im \<noteq> im_index_id im1" using Cons.prems(3) by auto
  have e1: "ex_index st1 = (ex_index st)(im_index_id im1 \<mapsto> m1(key1 \<mapsto> rid))" "ex_heaps st1 = ex_heaps st"
    "ex_catalog st1 = ex_catalog st" "ex_affected st1 = ex_affected st" by (simp_all add: st1_def)
  have p: "ex_keys_fresh sch cols ims1 (ex_index st1)" "ex_index st1 (im_index_id im) = Some m"
    "im_index_id im \<notin> im_index_id ` set ims1" "ex_heaps st1 tid = Some h"
    using tl Cons.prems(2-4) ne unfolding e1 by auto
  obtain st' h2 where IH: "ex_insert_index_loop map_index fi sch cols rid tid (ims1 @ im # ims2) st1 = Some (DB_FAILED, st')"
    "ex_heaps st' = (ex_heaps st1)(tid \<mapsto> h2)" "th_wf (Row_GetSerializedSize fi) h2 ps"
    "th_table h2 ps = (th_table h ps)(rid := None)" "ex_catalog st' = ex_catalog st1" "ex_affected st' = ex_affected st1"
    "ex_index_gains sch cols rid ims1 (ex_index st1) (ex_index st')"
    using Cons.IH[OF p] by blast
  have "ex_insert_index_loop map_index fi sch cols rid tid ((im1 # ims1) @ im # ims2) st = Some (DB_FAILED, st')"
    using ex_insert_loop_fresh[OF k1 m1 fr] IH(1) by (simp add: st1_def)
  then show ?case
    using IH(2-6) ex_index_gains_Cons[OF IH(7)[unfolded e1(1)] k1 m1 nin1] unfolding e1 by blast
qed


section \<open>ExecuteInsert\<close>

lemma ExecuteInsert_to_loop:
  assumes "GetTable name (ex_catalog st) = Some (DB_SUCCESS, Some tm)"
    "ex_insert_values fc (sch_columns (tm_schema tm)) vals = Some (Inr cols)"
    "GetTableIndexes name [] (ex_catalog st) = Some (s, ims)" "ex_heaps st (tm_table_id tm) = Some h"
    "TH_InsertTuple (Row_GetSerializedSize fi) \<lparr>row_rid = INVALID_ROWID, row_fields = cols\<rparr> h = Some (True, rido, h1)"
  shows "ExecuteInsert fc fi ii name vals st =
           Option.bind (ex_insert_index_loop ii fi (tm_schema tm) cols (case rido of None \<Rightarrow> INVALID_ROWID | Some rid \<Rightarrow> rid)
                          (tm_table_id tm) ims (st\<lparr>ex_heaps := (ex_heaps st)(tm_table_id tm \<mapsto> h1)\<rparr>))
             (\<lambda>(r, st2). Some (r, if r = DB_SUCCESS then st2\<lparr>ex_affected := ex_affected st2 + 1\<rparr> else st2))"
  using assms by (simp add: ExecuteInsert_def)

text \<open>A successful insert, with what it does to the heap, the indexes and the
  count.\<close>

lemma ExecuteInsert_success:
  assumes tm: "GetTable name (ex_catalog st) = Some (DB_SUCCESS, Some tm)"
    and conv: "ex_insert_values fc (sch_columns (tm_schema tm)) vals = Some (Inr cols)"
    and ixs: "GetTableIndexes name [] (ex_catalog st) = Some (s, ims)"
    and h: "ex_heaps st (tm_table_id tm) = Some h" and wf: "th_wf (Row_GetSerializedSize fi) h ps"
    and fits: "Row_GetSerializedSize fi \<lparr>row_rid = INVALID_ROWID, row_fields = cols\<rparr> + SIZE_SLOT \<le> PAGE_SIZE - SIZE_TABLE_PAGE_HEADER"
    and fresh: "ex_keys_fresh (tm_schema tm) cols ims (ex_index st)"
  shows "\<exists>rid h' ps' st'. ExecuteInsert fc fi map_index name vals st = Some (DB_SUCCESS, st') \<and>
           ex_heaps st' = (ex_heaps st)(tm_table_id tm \<mapsto> h') \<and> th_wf (Row_GetSerializedSize fi) h' ps' \<and>
           th_table h ps rid = None \<and> th_table h' ps' = (th_table h ps)(rid \<mapsto> \<lparr>row_rid = INVALID_ROWID, row_fields = cols\<rparr>) \<and>
           ex_index_gains (tm_schema tm) cols rid ims (ex_index st) (ex_index st') \<and>
           ex_catalog st' = ex_catalog st \<and> ex_affected st' = Suc (ex_affected st)"
proof -
  obtain rid h' ps' where ins: "TH_InsertTuple (Row_GetSerializedSize fi) \<lparr>row_rid = INVALID_ROWID, row_fields = cols\<rparr> h =
      Some (True, Some rid, h')" "th_wf (Row_GetSerializedSize fi) h' ps'" "th_table h ps rid = None"
    "th_table h' ps' = (th_table h ps)(rid \<mapsto> \<lparr>row_rid = INVALID_ROWID, row_fields = cols\<rparr>)"
    using th_insert_table[OF wf fits] by blast
  define st1 where "st1 = st\<lparr>ex_heaps := (ex_heaps st)(tm_table_id tm \<mapsto> h')\<rparr>"
  have "ex_keys_fresh (tm_schema tm) cols ims (ex_index st1)" using fresh by (simp add: st1_def)
  then obtain st2 where lp: "ex_insert_index_loop map_index fi (tm_schema tm) cols rid (tm_table_id tm) ims st1 = Some (DB_SUCCESS, st2)"
    "ex_heaps st2 = ex_heaps st1" "ex_catalog st2 = ex_catalog st1" "ex_affected st2 = ex_affected st1"
    "ex_index_gains (tm_schema tm) cols rid ims (ex_index st1) (ex_index st2)"
    using ex_insert_loop_success by blast
  have "ExecuteInsert fc fi map_index name vals st = Some (DB_SUCCESS, st2\<lparr>ex_affected := ex_affected st2 + 1\<rparr>)"
    using ExecuteInsert_to_loop[OF tm conv ixs h ins(1)] lp(1) by (simp add: st1_def)
  then show ?thesis using ins(2-4) lp(2-5) by (auto simp: st1_def)
qed

text \<open>C31: an insert into a table of a well-formed heap whose converted row
  fits a page, with each of the table's indexes free of the row's key, succeeds:
  the heap's table gains the row under a fresh row id, each index maps the
  row's key to that row id and no other index changes, and one row is counted.\<close>

theorem ExecuteInsert_refines:
  assumes tm: "GetTable name (ex_catalog st) = Some (DB_SUCCESS, Some tm)"
    and conv: "ex_insert_values fc (sch_columns (tm_schema tm)) vals = Some (Inr cols)"
    and ixs: "GetTableIndexes name [] (ex_catalog st) = Some (s, ims)"
    and h: "ex_heaps st (tm_table_id tm) = Some h" and wf: "th_wf (Row_GetSerializedSize fi) h ps"
    and fits: "Row_GetSerializedSize fi \<lparr>row_rid = INVALID_ROWID, row_fields = cols\<rparr> + SIZE_SLOT \<le> PAGE_SIZE - SIZE_TABLE_PAGE_HEADER"
    and fresh: "ex_keys_fresh (tm_schema tm) cols ims (ex_index st)"
  shows "\<exists>rid h' ps' st'. ExecuteInsert fc fi map_index name vals st = Some (DB_SUCCESS, st') \<and>
           ex_heaps st' = (ex_heaps st)(tm_table_id tm \<mapsto> h') \<and> th_wf (Row_GetSerializedSize fi) h' ps' \<and>
           th_table h ps rid = None \<and> th_table h' ps' = (th_table h ps)(rid \<mapsto> \<lparr>row_rid = INVALID_ROWID, row_fields = cols\<rparr>) \<and>
           ex_index_gains (tm_schema tm) cols rid ims (ex_index st) (ex_index st') \<and>
           ex_catalog st' = ex_catalog st \<and> ex_affected st' = Suc (ex_affected st)"
  using ExecuteInsert_success[OF tm conv ixs h wf fits fresh] .


text \<open>An insert that an index rejects, with the heap after the rollback.\<close>

lemma ExecuteInsert_rollback:
  assumes tm: "GetTable name (ex_catalog st) = Some (DB_SUCCESS, Some tm)"
    and conv: "ex_insert_values fc (sch_columns (tm_schema tm)) vals = Some (Inr cols)"
    and ixs: "GetTableIndexes name [] (ex_catalog st) = Some (s, ims1 @ im # ims2)"
    and h: "ex_heaps st (tm_table_id tm) = Some h" and wf: "th_wf (Row_GetSerializedSize fi) h ps"
    and fits: "Row_GetSerializedSize fi \<lparr>row_rid = INVALID_ROWID, row_fields = cols\<rparr> + SIZE_SLOT \<le> PAGE_SIZE - SIZE_TABLE_PAGE_HEADER"
    and fresh: "ex_keys_fresh (tm_schema tm) cols ims1 (ex_index st)"
    and k: "ex_index_key (tm_schema tm) cols im = Some (Inr key)" and m: "ex_index st (im_index_id im) = Some m"
    and dup: "m key \<noteq> None" and nin: "im_index_id im \<notin> im_index_id ` set ims1"
  shows "\<exists>rid h' ps' st'. ExecuteInsert fc fi map_index name vals st = Some (DB_FAILED, st') \<and>
           ex_heaps st' = (ex_heaps st)(tm_table_id tm \<mapsto> h') \<and> th_wf (Row_GetSerializedSize fi) h' ps' \<and>
           th_table h' ps' = th_table h ps \<and> th_table h' ps' rid = None \<and>
           ex_index_gains (tm_schema tm) cols rid ims1 (ex_index st) (ex_index st') \<and>
           ex_catalog st' = ex_catalog st \<and> ex_affected st' = ex_affected st"
proof -
  obtain rid h1 ps1 where ins: "TH_InsertTuple (Row_GetSerializedSize fi) \<lparr>row_rid = INVALID_ROWID, row_fields = cols\<rparr> h =
      Some (True, Some rid, h1)" "th_wf (Row_GetSerializedSize fi) h1 ps1" "th_table h ps rid = None"
    "th_table h1 ps1 = (th_table h ps)(rid \<mapsto> \<lparr>row_rid = INVALID_ROWID, row_fields = cols\<rparr>)"
    using th_insert_table[OF wf fits] by blast
  have q: "rid_page_id rid \<in> set ps1" using th_table_Some[of h1 ps1 rid] ins(4) by simp
  define st1 where "st1 = st\<lparr>ex_heaps := (ex_heaps st)(tm_table_id tm \<mapsto> h1)\<rparr>"
  have p: "ex_keys_fresh (tm_schema tm) cols ims1 (ex_index st1)" "ex_index st1 (im_index_id im) = Some m"
    "ex_heaps st1 (tm_table_id tm) = Some h1" using fresh m by (simp_all add: st1_def)
  obtain st2 h2 where lp: "ex_insert_index_loop map_index fi (tm_schema tm) cols rid (tm_table_id tm) (ims1 @ im # ims2) st1 =
      Some (DB_FAILED, st2)" "ex_heaps st2 = (ex_heaps st1)(tm_table_id tm \<mapsto> h2)" "th_wf (Row_GetSerializedSize fi) h2 ps1"
    "th_table h2 ps1 = (th_table h1 ps1)(rid := None)" "ex_catalog st2 = ex_catalog st1" "ex_affected st2 = ex_affected st1"
    "ex_index_gains (tm_schema tm) cols rid ims1 (ex_index st1) (ex_index st2)"
    using ex_insert_loop_failure[OF p(1) k p(2) dup nin p(3) ins(2) q] by blast
  have "ExecuteInsert fc fi map_index name vals st = Some (DB_FAILED, st2)"
    using ExecuteInsert_to_loop[OF tm conv ixs h ins(1)] lp(1) by (simp add: st1_def)
  moreover have "th_table h2 ps1 = th_table h ps" using lp(4) ins(3,4) by auto
  ultimately show ?thesis using lp(2,3,5-7) ins(3)
    by (intro exI[of _ rid] exI[of _ h2] exI[of _ ps1] exI[of _ st2]) (auto simp: st1_def)
qed

text \<open>C32: when an index rejects the row's key, the insert returns the
  failure with the row deleted from the heap again, but the indexes before it
  in the list keep the key mapped to the deleted row id.\<close>

theorem ExecuteInsert_index_failure:
  assumes tm: "GetTable name (ex_catalog st) = Some (DB_SUCCESS, Some tm)"
    and conv: "ex_insert_values fc (sch_columns (tm_schema tm)) vals = Some (Inr cols)"
    and ixs: "GetTableIndexes name [] (ex_catalog st) = Some (s, ims1 @ im # ims2)"
    and h: "ex_heaps st (tm_table_id tm) = Some h" and wf: "th_wf (Row_GetSerializedSize fi) h ps"
    and fits: "Row_GetSerializedSize fi \<lparr>row_rid = INVALID_ROWID, row_fields = cols\<rparr> + SIZE_SLOT \<le> PAGE_SIZE - SIZE_TABLE_PAGE_HEADER"
    and fresh: "ex_keys_fresh (tm_schema tm) cols ims1 (ex_index st)"
    and k: "ex_index_key (tm_schema tm) cols im = Some (Inr key)" and m: "ex_index st (im_index_id im) = Some m"
    and dup: "m key \<noteq> None" and nin: "im_index_id im \<notin> im_index_id ` set ims1"
  shows "\<exists>rid h' ps' st'. ExecuteInsert fc fi map_index name vals st = Some (DB_FAILED, st') \<and>
           ex_heaps st' = (ex_heaps st)(tm_table_id tm \<mapsto> h') \<and> th_wf (Row_GetSerializedSize fi) h' ps' \<and>
           th_table h' ps' = th_table h ps \<and> th_table h' ps' rid = None \<and>
           ex_index_gains (tm_schema tm) cols rid ims1 (ex_index st) (ex_index st') \<and>
           ex_catalog st' = ex_catalog st \<and> ex_affected st' = ex_affected st"
  using ExecuteInsert_rollback[OF tm conv ixs h wf fits fresh k m dup nin] .

text \<open>A row too large for an empty page is reported inserted and counted
  although the heap's table does not change: each index maps the row's key to
  \<open>INVALID_ROWID\<close>.\<close>

theorem ExecuteInsert_oversized:
  assumes tm: "GetTable name (ex_catalog st) = Some (DB_SUCCESS, Some tm)"
    and conv: "ex_insert_values fc (sch_columns (tm_schema tm)) vals = Some (Inr cols)"
    and ixs: "GetTableIndexes name [] (ex_catalog st) = Some (s, ims)"
    and h: "ex_heaps st (tm_table_id tm) = Some h" and wf: "th_wf (Row_GetSerializedSize fi) h ps"
    and big: "PAGE_SIZE - SIZE_TABLE_PAGE_HEADER < Row_GetSerializedSize fi \<lparr>row_rid = INVALID_ROWID, row_fields = cols\<rparr> + SIZE_SLOT"
    and fresh: "ex_keys_fresh (tm_schema tm) cols ims (ex_index st)"
  shows "\<exists>h' ps' st'. ExecuteInsert fc fi map_index name vals st = Some (DB_SUCCESS, st') \<and>
           ex_heaps st' = (ex_heaps st)(tm_table_id tm \<mapsto> h') \<and> th_wf (Row_GetSerializedSize fi) h' ps' \<and>
           th_table h' ps' = th_table h ps \<and>
           ex_index_gains (tm_schema tm) cols INVALID_ROWID ims (ex_index st) (ex_index st') \<and>
           ex_affected st' = Suc (ex_affected st)"
proof -
  obtain h' ps' where ins: "TH_InsertTuple (Row_GetSerializedSize fi) \<lparr>row_rid = INVALID_ROWID, row_fields = cols\<rparr> h =
      Some (True, None, h')" "th_wf (Row_GetSerializedSize fi) h' ps'" "th_table h' ps' = th_table h ps"
    using th_insert_oversized[OF wf big] by blast
  define st1 where "st1 = st\<lparr>ex_heaps := (ex_heaps st)(tm_table_id tm \<mapsto> h')\<rparr>"
  have "ex_keys_fresh (tm_schema tm) cols ims (ex_index st1)" using fresh by (simp add: st1_def)
  then obtain st2 where lp: "ex_insert_index_loop map_index fi (tm_schema tm) cols INVALID_ROWID (tm_table_id tm) ims st1 =
      Some (DB_SUCCESS, st2)" "ex_heaps st2 = ex_heaps st1" "ex_affected st2 = ex_affected st1"
    "ex_index_gains (tm_schema tm) cols INVALID_ROWID ims (ex_index st1) (ex_index st2)"
    using ex_insert_loop_success by blast
  have "ExecuteInsert fc fi map_index name vals st = Some (DB_SUCCESS, st2\<lparr>ex_affected := ex_affected st2 + 1\<rparr>)"
    using ExecuteInsert_to_loop[OF tm conv ixs h ins(1)] lp(1) by (simp add: st1_def)
  then show ?thesis using ins(2,3) lp(2-4) by (auto simp: st1_def)
qed

section \<open>Conversion errors\<close>

lemma ex_insert_values_arity:
  "list_all (\<lambda>(nt, v). nt = kNodeNumber \<longrightarrow> Field_int fc v \<noteq> None \<and> Field_float fc v \<noteq> None) vs \<Longrightarrow>
   length vs \<noteq> length cs \<Longrightarrow> ex_insert_values fc cs vs = Some (Inl DB_FAILED)"
  by (induction fc cs vs rule: ex_insert_values.induct) (auto simp: Let_def split: option.splits)

text \<open>When the number of values differs from the number of columns (and
  every number parses), the insert returns \<open>DB_FAILED\<close> and changes nothing.\<close>

theorem ExecuteInsert_arity:
  assumes tm: "GetTable name (ex_catalog st) = Some (DB_SUCCESS, Some tm)"
    and nums: "list_all (\<lambda>(nt, v). nt = kNodeNumber \<longrightarrow> Field_int fc v \<noteq> None \<and> Field_float fc v \<noteq> None) vals"
    and len: "length vals \<noteq> length (sch_columns (tm_schema tm))"
  shows "ExecuteInsert fc fi ii name vals st = Some (DB_FAILED, st)"
  using ex_insert_values_arity[OF nums len] tm by (simp add: ExecuteInsert_def)


section \<open>Witnesses\<close>

lemma ex_wit_table: "GetTable [116] (ex_catalog (ex_state (ex_cat tm ims) ix)) = Some (DB_SUCCESS, Some tm)"
  by (simp add: GetTable_def ex_state_def ex_cat_def cat_example_def)

lemma ex_wit_heap_wf: "th_wf (Row_GetSerializedSize ex_fields) ex_heap [0]"
  by (simp add: th_wf_def ex_heap_def th_page_ok_def tp_ok_Init INVALID_PAGE_ID_def)

lemma ex_wit_conv: "ex_insert_values ex_ctor (sch_columns (tm_schema cat_example_table)) [(kNodeNumber, [53])] = Some (Inr [[53]])"
  by (simp add: ex_ctor_def cat_example_table_def)

lemma ex_wit_keys:
  "ex_index_key (tm_schema cat_example_table) [[53::byte]] cat_example_index = Some (Inr [[53]])"
  "ex_index_key (tm_schema cat_example_table) [[53::byte]] ex_index2 = Some (Inr [[53]])"
  "im_index_id cat_example_index = 0" "im_index_id ex_index2 = 1"
  by (simp_all add: ex_index_key_def ex_key_columns_def Schema_GetColumnIndex_def cat_example_table_def
      cat_example_index_def ex_index2_def)

lemma ExecuteInsert_refines_witness:
  "\<exists>rid h' ps' st'. ExecuteInsert ex_ctor ex_fields map_index [116] [(kNodeNumber, [53])]
       (ex_state (ex_cat cat_example_table [cat_example_index]) [0 \<mapsto> Map.empty]) = Some (DB_SUCCESS, st') \<and>
     ex_heaps st' = (ex_heaps (ex_state (ex_cat cat_example_table [cat_example_index]) [0 \<mapsto> Map.empty]))(0 \<mapsto> h') \<and>
     th_wf (Row_GetSerializedSize ex_fields) h' ps' \<and> th_table ex_heap [0] rid = None \<and>
     th_table h' ps' = (th_table ex_heap [0])(rid \<mapsto> \<lparr>row_rid = INVALID_ROWID, row_fields = [[53]]\<rparr>) \<and>
     ex_index_gains (tm_schema cat_example_table) [[53]] rid [cat_example_index] [0 \<mapsto> Map.empty] (ex_index st') \<and>
     ex_catalog st' = ex_cat cat_example_table [cat_example_index] \<and> ex_affected st' = 1"
proof -
  have ixs: "GetTableIndexes [116] [] (ex_catalog (ex_state (ex_cat cat_example_table [cat_example_index]) [0 \<mapsto> Map.empty])) =
      Some (DB_SUCCESS, [cat_example_index])"
    by (simp add: GetTableIndexes_def ex_state_def ex_cat_def cat_example_def cat_example_index_def)
  have fits: "Row_GetSerializedSize ex_fields \<lparr>row_rid = INVALID_ROWID, row_fields = [[53]]\<rparr> + SIZE_SLOT \<le>
      PAGE_SIZE - SIZE_TABLE_PAGE_HEADER"
    by (simp add: Row_GetSerializedSize_def ex_fields_def SIZE_SLOT_def PAGE_SIZE_def SIZE_TABLE_PAGE_HEADER_def)
  have fresh: "ex_keys_fresh (tm_schema cat_example_table) [[53]] [cat_example_index]
      (ex_index (ex_state (ex_cat cat_example_table [cat_example_index]) [0 \<mapsto> Map.empty]))"
    using ex_wit_keys by (simp add: ex_keys_fresh_def ex_state_def)
  have h: "ex_heaps (ex_state (ex_cat cat_example_table [cat_example_index]) [0 \<mapsto> Map.empty]) (tm_table_id cat_example_table) =
      Some ex_heap" by (simp add: ex_state_def cat_example_table_def)
  show ?thesis
    using ExecuteInsert_refines[OF ex_wit_table ex_wit_conv ixs h ex_wit_heap_wf fits fresh]
    by (simp add: cat_example_table_def ex_state_def)
qed


lemma ExecuteInsert_index_failure_witness:
  "\<exists>rid h' ps' st'. ExecuteInsert ex_ctor ex_fields map_index [116] [(kNodeNumber, [53])]
       (ex_state (ex_cat cat_example_table [cat_example_index, ex_index2])
                 [0 \<mapsto> Map.empty, 1 \<mapsto> [[[53]] \<mapsto> INVALID_ROWID]]) = Some (DB_FAILED, st') \<and>
     ex_heaps st' = [0 \<mapsto> h'] \<and> th_wf (Row_GetSerializedSize ex_fields) h' ps' \<and>
     th_table h' ps' = th_table ex_heap [0] \<and> th_table h' ps' rid = None \<and>
     ex_index_gains (tm_schema cat_example_table) [[53]] rid [cat_example_index]
       [0 \<mapsto> Map.empty, 1 \<mapsto> [[[53]] \<mapsto> INVALID_ROWID]] (ex_index st') \<and>
     ex_catalog st' = ex_cat cat_example_table [cat_example_index, ex_index2] \<and> ex_affected st' = 0"
proof -
  define st where "st = ex_state (ex_cat cat_example_table [cat_example_index, ex_index2])
                          [0 \<mapsto> Map.empty, 1 \<mapsto> [[[53::byte]] \<mapsto> INVALID_ROWID]]"
  have ixs: "GetTableIndexes [116] [] (ex_catalog st) = Some (DB_SUCCESS, [cat_example_index] @ ex_index2 # [])"
    by (simp add: st_def GetTableIndexes_def ex_state_def ex_cat_def cat_example_def cat_example_index_def ex_index2_def)
  have fits: "Row_GetSerializedSize ex_fields \<lparr>row_rid = INVALID_ROWID, row_fields = [[53]]\<rparr> + SIZE_SLOT \<le>
      PAGE_SIZE - SIZE_TABLE_PAGE_HEADER"
    by (simp add: Row_GetSerializedSize_def ex_fields_def SIZE_SLOT_def PAGE_SIZE_def SIZE_TABLE_PAGE_HEADER_def)
  have fresh: "ex_keys_fresh (tm_schema cat_example_table) [[53]] [cat_example_index] (ex_index st)"
    using ex_wit_keys by (simp add: ex_keys_fresh_def ex_state_def st_def)
  have m: "ex_index st (im_index_id ex_index2) = Some [[[53]] \<mapsto> INVALID_ROWID]" "[[[53::byte]] \<mapsto> INVALID_ROWID] [[53]] \<noteq> None"
    "im_index_id ex_index2 \<notin> im_index_id ` set [cat_example_index]"
    using ex_wit_keys(3,4) by (simp_all add: st_def ex_state_def)
  have h: "ex_heaps st (tm_table_id cat_example_table) = Some ex_heap" by (simp add: st_def ex_state_def cat_example_table_def)
  show ?thesis
    using ExecuteInsert_index_failure[OF ex_wit_table[where tm = cat_example_table and ims = "[cat_example_index, ex_index2]"
        and ix = "[0 \<mapsto> Map.empty, 1 \<mapsto> [[[53::byte]] \<mapsto> INVALID_ROWID]]"] ex_wit_conv,
        folded st_def, OF ixs h ex_wit_heap_wf fits fresh ex_wit_keys(2) m]
    by (simp add: cat_example_table_def st_def ex_state_def)
qed

lemma ExecuteInsert_oversized_witness:
  "\<exists>h' ps' st'. ExecuteInsert ex_ctor ex_fields map_index [116] [(kNodeString, replicate 4100 65)]
       (ex_state (ex_cat ex_big_table [cat_example_index]) [0 \<mapsto> Map.empty]) = Some (DB_SUCCESS, st') \<and>
     ex_heaps st' = [0 \<mapsto> h'] \<and> th_wf (Row_GetSerializedSize ex_fields) h' ps' \<and>
     th_table h' ps' = th_table ex_heap [0] \<and>
     ex_index_gains (tm_schema ex_big_table) [replicate 4100 65] INVALID_ROWID [cat_example_index]
       [0 \<mapsto> Map.empty] (ex_index st') \<and> ex_affected st' = 1"
proof -
  define st where "st = ex_state (ex_cat ex_big_table [cat_example_index]) [0 \<mapsto> Map.empty]"
  have conv: "ex_insert_values ex_ctor (sch_columns (tm_schema ex_big_table)) [(kNodeString, replicate 4100 65)] =
      Some (Inr [replicate 4100 65])"
    by (simp add: ex_ctor_def ex_big_table_def)
  have ixs: "GetTableIndexes [116] [] (ex_catalog st) = Some (DB_SUCCESS, [cat_example_index])"
    by (simp add: st_def GetTableIndexes_def ex_state_def ex_cat_def cat_example_def cat_example_index_def)
  have big: "PAGE_SIZE - SIZE_TABLE_PAGE_HEADER <
      Row_GetSerializedSize ex_fields \<lparr>row_rid = INVALID_ROWID, row_fields = [replicate 4100 65]\<rparr> + SIZE_SLOT"
    by (simp add: Row_GetSerializedSize_def ex_fields_def SIZE_SLOT_def PAGE_SIZE_def SIZE_TABLE_PAGE_HEADER_def)
  have key: "ex_index_key (tm_schema ex_big_table) [replicate 4100 (65::byte)] cat_example_index = Some (Inr [replicate 4100 65])"
    by (simp add: ex_index_key_def ex_key_columns_def Schema_GetColumnIndex_def ex_big_table_def cat_example_index_def)
  have fresh: "ex_keys_fresh (tm_schema ex_big_table) [replicate 4100 65] [cat_example_index] (ex_index st)"
    using key ex_wit_keys(3) by (simp add: ex_keys_fresh_def ex_state_def st_def)
  have h: "ex_heaps st (tm_table_id ex_big_table) = Some ex_heap"
    by (simp add: st_def ex_state_def ex_big_table_def cat_example_table_def)
  show ?thesis
    using ExecuteInsert_oversized[OF ex_wit_table[where tm = ex_big_table and ims = "[cat_example_index]"
        and ix = "[0 \<mapsto> Map.empty]"] conv,
        folded st_def, OF ixs h ex_wit_heap_wf big fresh]
    by (simp add: ex_big_table_def cat_example_table_def st_def ex_state_def)
qed

lemma ExecuteInsert_arity_witness:
  "ExecuteInsert ex_ctor ex_fields map_index [116] []
     (ex_state (ex_cat cat_example_table [cat_example_index]) [0 \<mapsto> Map.empty]) =
   Some (DB_FAILED, ex_state (ex_cat cat_example_table [cat_example_index]) [0 \<mapsto> Map.empty])"
  by (rule ExecuteInsert_arity[OF ex_wit_table]) (simp_all add: cat_example_table_def)

end
