(* ===== verification/Executor_DDL.thy ===== *)
theory Executor_DDL
  imports Executor Catalog_Inv
begin

text \<open>
  The data-definition handlers of the execution engine
  (\<^verbatim>\<open>src/src/executor/execute_engine.cpp\<close>): \<open>ExecuteCreateTable\<close>,
  \<open>ExecuteDropTable\<close>, \<open>ExecuteShowIndexes\<close>, \<open>ExecuteCreateIndex\<close> and
  \<open>ExecuteDropIndex\<close>, over the engine state of \<open>Executor\<close>.  The catalog's
  \<open>CreateIndex\<close> fills the new index by a scan of the table heap; the catalog
  model leaves that scan as a parameter, and here it is run on the engine's
  heap and index (\<open>ex_create_index\<close>).  The table heap a new table gets
  (\<open>TableHeap::Create\<close>, not under src) is one empty page, and \<open>atoi\<close> is
  the C library's.
\<close>

section \<open>Library pieces\<close>

text \<open>A fresh table heap: its first page, initialised, ends the chain.\<close>

definition th_create :: "page_id \<Rightarrow> 'r table_heap" where
  "th_create pid = \<lparr>th_first_page_id = pid, th_pages = [pid \<mapsto> TablePage_Init pid INVALID_PAGE_ID new_table_page],
                    th_next_page_id = pid + 1\<rparr>"

text \<open>\<open>atoi\<close>: leading white space, an optional sign and the decimal digits
  that follow it; a value out of the range of \<open>int\<close> is undefined behaviour.\<close>

definition atoi_digits :: "byte list \<Rightarrow> int" where
  "atoi_digits ds = foldl (\<lambda>n d. 10 * n + (uint d - 48)) 0 (takeWhile (\<lambda>d. 48 \<le> d \<and> d \<le> 57) ds)"

definition atoi :: "byte list \<Rightarrow> int option" where
  "atoi s0 =
     (let s = dropWhile (\<lambda>c. c = 32 \<or> (9 \<le> c \<and> c \<le> 13)) s0;
          v = (if s \<noteq> [] \<and> hd s = 45 then - atoi_digits (tl s)
               else if s \<noteq> [] \<and> hd s = 43 then atoi_digits (tl s) else atoi_digits s)
      in if - (2 ^ 31) \<le> v \<and> v < 2 ^ 31 then Some v else None)"

text \<open>The texts the handlers compare with: \<open>unique\<close>, \<open>int\<close>, \<open>float\<close>,
  \<open>char\<close>, \<open>primary keys\<close>, and the pieces of the primary key index name.\<close>

definition kw_unique :: "byte list" where "kw_unique = [117, 110, 105, 113, 117, 101]"
definition kw_int :: "byte list" where "kw_int = [105, 110, 116]"
definition kw_float :: "byte list" where "kw_float = [102, 108, 111, 97, 116]"
definition kw_char :: "byte list" where "kw_char = [99, 104, 97, 114]"
definition kw_primary_keys :: "byte list" where
  "kw_primary_keys = [112, 114, 105, 109, 97, 114, 121, 32, 107, 101, 121, 115]"
definition kw_primkey :: "byte list" where "kw_primkey = [95, 112, 114, 105, 109, 107, 101, 121]"

text \<open>The children of the column list node of \<open>create table\<close>: a column
  definition (its value, \<open>unique\<close> or none, the column's name, the type's
  name and the length under the type node) or another node (its value and the
  names under it).\<close>

datatype ColumnNode =
    ColumnDefinition "byte list option" "byte list" "byte list" "byte list option"
  | ColumnOther "byte list option" "byte list list"

section \<open>ExecuteCreateTable\<close>

text \<open>The loop over the column list: \<open>ind\<close> counts every child, so a
  column's index is its position among all children.  An unknown type name, a
  length that is not positive and a node other than \<open>primary keys\<close> are
  \<open>DB_FAILED\<close>; the length node of a \<open>char\<close> column is dereferenced.\<close>

fun ex_column_defs ::
  "ColumnNode list \<Rightarrow> 32 word \<Rightarrow> column list \<Rightarrow> byte list list \<Rightarrow> (dberr_t + column list \<times> byte list list) option" where
  "ex_column_defs [] ind cols pks = Some (Inr (cols, pks))"
| "ex_column_defs (ColumnDefinition v name ty len # ns) ind cols pks =
     (let unique = (v = Some kw_unique)
      in if ty = kw_int then do { c \<leftarrow> Column name kTypeInt ind (\<not> unique) unique;
                                  ex_column_defs ns (ind + 1) (cols @ [c]) pks }
         else if ty = kw_float then do { c \<leftarrow> Column name kTypeFloat ind (\<not> unique) unique;
                                         ex_column_defs ns (ind + 1) (cols @ [c]) pks }
         else if ty = kw_char then do {
           l \<leftarrow> len;
           n \<leftarrow> atoi l;
           if n \<le> 0 then Some (Inl DB_FAILED)
           else do { c \<leftarrow> Column_char name kTypeChar (word_of_int n) ind (\<not> unique) unique;
                     ex_column_defs ns (ind + 1) (cols @ [c]) pks } }
         else Some (Inl DB_FAILED))"
| "ex_column_defs (ColumnOther v names # ns) ind cols pks =
     (if v = Some kw_primary_keys then ex_column_defs ns (ind + 1) cols (pks @ names)
      else Some (Inl DB_FAILED))"

text \<open>The key of each row of the heap, in scan order, goes into the new
  index; the first \<open>InsertEntry\<close> that fails makes the scan report
  \<open>DB_FAILED\<close>, and a key column that is not found ends it with that status.\<close>

fun ex_scan_insert ::
  "('f, 'ix) index_iface \<Rightarrow> schema \<Rightarrow> index_metadata \<Rightarrow> 'f row table_heap \<Rightarrow> row_id list \<Rightarrow> 'ix \<Rightarrow> (dberr_t \<times> 'ix) option" where
  "ex_scan_insert ii sch im h [] ix = Some (DB_SUCCESS, ix)"
| "ex_scan_insert ii sch im h (rid # rids) ix =
     do { row \<leftarrow> snd (TH_GetTuple rid h);
          k \<leftarrow> ex_index_key sch (row_fields row) im;
          (case k of
             Inl status \<Rightarrow> Some (status, ix)
           | Inr key \<Rightarrow> (let (r, ix') = ix_InsertEntry ii key rid ix
                        in if r \<noteq> DB_SUCCESS then Some (DB_FAILED, ix') else ex_scan_insert ii sch im h rids ix')) }"

text \<open>\<open>CatalogManager::CreateIndex\<close> with its scan: the catalog part up to the
  scan, then the scan of the table's heap into a new index, and on a
  duplicate key \<open>DropIndex\<close>.\<close>

definition ex_create_index ::
  "('f, 'ix) index_iface \<Rightarrow> byte list \<Rightarrow> byte list \<Rightarrow> byte list list \<Rightarrow> ('f, 'ix) exec_state \<Rightarrow>
   (dberr_t \<times> ('f, 'ix) exec_state) option" where
  "ex_create_index ii table_name index_name index_keys st =
     do { (r, cat3) \<leftarrow> CreateIndex table_name index_name index_keys True (ex_catalog st);
          if r \<noteq> DB_SUCCESS then Some (r, st\<lparr>ex_catalog := cat3\<rparr>)
          else do {
            let iid = cat_next_index_id (ex_catalog st);
            im \<leftarrow> map_of (cat_indexes cat3) iid;
            (_, tmo) \<leftarrow> GetTable table_name cat3;
            table_info \<leftarrow> tmo;
            h \<leftarrow> ex_heaps st (tm_table_id table_info);
            rids \<leftarrow> TH_Scan h;
            (s, ix) \<leftarrow> ex_scan_insert ii (tm_schema table_info) im h rids (ix_new ii);
            if s = DB_FAILED then do {
              (_, cat4) \<leftarrow> DropIndex table_name index_name cat3;
              Some (DB_FAILED, st\<lparr>ex_catalog := cat4\<rparr>) }
            else Some (s, st\<lparr>ex_catalog := cat3, ex_index := (ex_index st)(iid \<mapsto> ix)\<rparr>) } }"

text \<open>\<open>ExecuteCreateTable\<close>: the column loop, \<open>CreateTable\<close> (which gives the
  table a new heap) and the index \<open>_<table>_primkey\<close> on the primary keys,
  created even when there are none.\<close>

definition ExecuteCreateTable ::
  "('f, 'ix) index_iface \<Rightarrow> byte list \<Rightarrow> ColumnNode list \<Rightarrow> ('f, 'ix) exec_state \<Rightarrow>
   (dberr_t \<times> ('f, 'ix) exec_state) option" where
  "ExecuteCreateTable ii table_name column_nodes st =
     do { defs \<leftarrow> ex_column_defs column_nodes 0 [] [];
          (case defs of
             Inl err \<Rightarrow> Some (err, st)
           | Inr (columns, primary_keys) \<Rightarrow> do {
               (r, cat1) \<leftarrow> CreateTable table_name \<lparr>sch_columns = columns\<rparr> (ex_catalog st);
               if r \<noteq> DB_SUCCESS then Some (DB_FAILED, st)
               else do {
                 (_, tmo) \<leftarrow> GetTable table_name cat1;
                 new_table \<leftarrow> tmo;
                 let st1 = st\<lparr>ex_catalog := cat1,
                              ex_heaps := (ex_heaps st)(tm_table_id new_table \<mapsto> th_create (tm_root_page_id new_table))\<rparr>;
                 ex_create_index ii table_name ([95] @ table_name @ kw_primkey) primary_keys st1 } }) }"

section \<open>ExecuteDropTable, ExecuteShowIndexes, ExecuteCreateIndex, ExecuteDropIndex\<close>

text \<open>\<open>ExecuteDropTable\<close> counts an affected row before it calls
  \<open>DropTable\<close>, whatever \<open>DropTable\<close> returns; the table's heap is left alone.\<close>

definition ExecuteDropTable :: "byte list \<Rightarrow> ('f, 'ix) exec_state \<Rightarrow> dberr_t \<times> ('f, 'ix) exec_state" where
  "ExecuteDropTable table_name st =
     (let st1 = st\<lparr>ex_affected := ex_affected st + 1\<rparr>;
          (r, cat1) = DropTable table_name (ex_catalog st1)
      in (r, st1\<lparr>ex_catalog := cat1\<rparr>))"

text \<open>The indexes of every table, in the order of \<open>GetTables\<close>: the names
  \<open>ExecuteShowIndexes\<close> prints, one selected row each.\<close>

fun ex_tables_indexes :: "table_metadata list \<Rightarrow> index_metadata list \<Rightarrow> catalog_manager \<Rightarrow> (dberr_t \<times> index_metadata list) option" where
  "ex_tables_indexes [] ims cat = Some (DB_SUCCESS, ims)"
| "ex_tables_indexes (tm # tms) ims cat =
     do { (s, ims1) \<leftarrow> GetTableIndexes (tm_table_name tm) ims cat;
          if s \<noteq> DB_SUCCESS then Some (s, ims1) else ex_tables_indexes tms ims1 cat }"

definition ExecuteShowIndexes :: "('f, 'ix) exec_state \<Rightarrow> (dberr_t \<times> byte list list) option" where
  "ExecuteShowIndexes st =
     do { let (s, tables) = GetTables (ex_catalog st);
          if s \<noteq> DB_SUCCESS then Some (s, [])
          else do { (s1, indexes) \<leftarrow> ex_tables_indexes tables [] (ex_catalog st);
                    Some (s1, if s1 \<noteq> DB_SUCCESS then [] else map im_index_name indexes) } }"

text \<open>The uniqueness check of \<open>ExecuteCreateIndex\<close>: some key column is
  unique.  A name that is not a column leaves \<open>key_id\<close> at 0, and reading a
  column past the end is undefined.\<close>

fun ex_unique_flag :: "schema \<Rightarrow> byte list list \<Rightarrow> bool \<Rightarrow> bool option" where
  "ex_unique_flag sch [] flag = Some flag"
| "ex_unique_flag sch (k # ks) flag =
     (let key_id = (case Schema_GetColumnIndex sch k of None \<Rightarrow> 0 | Some i \<Rightarrow> i)
      in if unat key_id < length (sch_columns sch)
         then ex_unique_flag sch ks (flag \<or> col_unique (sch_columns sch ! unat key_id))
         else None)"

definition ExecuteCreateIndex ::
  "('f, 'ix) index_iface \<Rightarrow> byte list \<Rightarrow> byte list \<Rightarrow> byte list list \<Rightarrow> ('f, 'ix) exec_state \<Rightarrow>
   (dberr_t \<times> ('f, 'ix) exec_state) option" where
  "ExecuteCreateIndex ii index_name table_name index_keys st =
     do { (r, tmo) \<leftarrow> GetTable table_name (ex_catalog st);
          if r \<noteq> DB_SUCCESS then Some (DB_FAILED, st)
          else do {
            table_info \<leftarrow> tmo;
            flag \<leftarrow> ex_unique_flag (tm_schema table_info) index_keys False;
            if \<not> flag then Some (DB_FAILED, st)
            else do {
              (status, st1) \<leftarrow> ex_create_index ii table_name index_name index_keys st;
              if status \<noteq> DB_SUCCESS then Some (status, st1)
              else Some (DB_SUCCESS, st1\<lparr>ex_affected := ex_affected st1 + 1\<rparr>) } } }"

text \<open>\<open>ExecuteDropIndex\<close> drops the first index of that name it meets,
  table by table in the order of \<open>GetTables\<close>, counting an affected row.\<close>

fun ex_drop_index_loop ::
  "byte list \<Rightarrow> table_metadata list \<Rightarrow> ('f, 'ix) exec_state \<Rightarrow> (dberr_t \<times> ('f, 'ix) exec_state) option" where
  "ex_drop_index_loop index_name [] st = Some (DB_INDEX_NOT_FOUND, st)"
| "ex_drop_index_loop index_name (tm # tms) st =
     do { (s, indexes) \<leftarrow> GetTableIndexes (tm_table_name tm) [] (ex_catalog st);
          if s \<noteq> DB_SUCCESS then Some (s, st)
          else if index_name \<in> set (map im_index_name indexes) then do {
            let st1 = st\<lparr>ex_affected := ex_affected st + 1\<rparr>;
            (r, cat1) \<leftarrow> DropIndex (tm_table_name tm) index_name (ex_catalog st1);
            Some (r, st1\<lparr>ex_catalog := cat1\<rparr>) }
          else ex_drop_index_loop index_name tms st }"

definition ExecuteDropIndex :: "byte list \<Rightarrow> ('f, 'ix) exec_state \<Rightarrow> (dberr_t \<times> ('f, 'ix) exec_state) option" where
  "ExecuteDropIndex index_name st =
     (let (s, tables) = GetTables (ex_catalog st)
      in if s \<noteq> DB_SUCCESS then Some (s, st) else ex_drop_index_loop index_name tables st)"


section \<open>What the handlers promise, and examples\<close>

text \<open>The keys of the rows a scan of the heap yields, each with its row id.\<close>

definition ex_scan_keys :: "schema \<Rightarrow> index_metadata \<Rightarrow> 'f row table_heap \<Rightarrow> row_id list \<Rightarrow> ('f list \<times> row_id) list option" where
  "ex_scan_keys sch im h rids =
     those (map (\<lambda>rid. case snd (TH_GetTuple rid h) of
                         None \<Rightarrow> None
                       | Some row \<Rightarrow> (case ex_index_key sch (row_fields row) im of
                                       Some (Inr key) \<Rightarrow> Some (key, rid)
                                     | _ \<Rightarrow> None)) rids)"

text \<open>A table of one \<open>int\<close> column \<open>a\<close> with no primary key, and a heap whose
  one page holds two rows.\<close>

definition ex_column_a :: "ColumnNode list" where
  "ex_column_a = [ColumnDefinition None [97] kw_int None]"

definition ex_page2 :: "byte list row table_page" where
  "ex_page2 = (TablePage_Init 0 INVALID_PAGE_ID new_table_page)
     \<lparr>tp_slots := [Some (\<lparr>row_rid = INVALID_ROWID, row_fields = [[49]]\<rparr>, False),
                    Some (\<lparr>row_rid = INVALID_ROWID, row_fields = [[50]]\<rparr>, False)]\<rparr>"

definition ex_heap2 :: "byte list row table_heap" where
  "ex_heap2 = ex_heap\<lparr>th_pages := [0 \<mapsto> ex_page2]\<rparr>"

section \<open>Lemmas\<close>

lemma TH_Scan_create: "TH_Scan (th_create pid) = Some []"
  by (simp add: TH_Scan_def TH_Begin_def th_create_def TablePage_GetFirstTupleRid_def TablePage_Init_def
      ti_scan_End TableIterator_def)

lemma th_wf_create: "0 \<le> pid \<Longrightarrow> th_wf sz (th_create pid) [pid]"
  by (simp add: th_wf_def th_create_def th_page_ok_def tp_ok_Init INVALID_PAGE_ID_def)

lemma cat_ok_no_table_index_names:
  assumes ok: "cat_ok st" and t: "map_of (cat_table_names st) t = None"
  shows "map_of (cat_index_names st) t = None \<or> map_of (cat_index_names st) t = Some []"
proof (cases "map_of (cat_index_names st) t")
  case (Some m)
  show ?thesis
  proof (cases m)
    case (Cons p ps)
    then have p: "(fst p, snd p) \<in> set m" by simp
    then show ?thesis using cat_ok_index_name[OF ok map_of_SomeD[OF Some] p] t by auto
  qed (use Some in simp)
qed simp

lemma index_names_insert_empty:
  "map_of ns t = None \<or> map_of ns t = Some [] \<Longrightarrow> map_of (index_names_insert t i iid ns) t = Some [(i, iid)]"
  by (auto simp: index_names_insert_def umap_insert_def update_conv')

lemma GetIndex_empty:
  "map_of (cat_index_names st) t = None \<or> map_of (cat_index_names st) t = Some [] \<Longrightarrow>
   GetIndex t i st = Some (DB_INDEX_NOT_FOUND, None)"
  by (auto simp: GetIndex_def)


lemma ExecuteCreateTable_new:
  assumes ok: "cat_ok (ex_catalog st)" and new: "map_of (cat_table_names (ex_catalog st)) t = None"
    and defs: "ex_column_defs nodes 0 [] [] = Some (Inr (cols, pks))"
    and km: "those (map (Schema_GetColumnIndex \<lparr>sch_columns = cols\<rparr>) pks) = Some km"
  defines "c \<equiv> ex_catalog st"
  defines "tm \<equiv> \<lparr>tm_table_id = cat_next_table_id c, tm_table_name = t, tm_root_page_id = cat_next_page_id c,
                  tm_schema = \<lparr>sch_columns = cols\<rparr>\<rparr>"
  defines "im \<equiv> \<lparr>im_index_id = cat_next_index_id c, im_index_name = [95] @ t @ kw_primkey,
                  im_table_id = cat_next_table_id c, im_key_map = km\<rparr>"
  shows "\<exists>st'. ExecuteCreateTable ii t nodes st = Some (DB_SUCCESS, st') \<and>
           GetTable t (ex_catalog st') = Some (DB_SUCCESS, Some tm) \<and>
           GetTableIndexes t [] (ex_catalog st') = Some (DB_SUCCESS, [im]) \<and>
           ex_heaps st' = (ex_heaps st)(cat_next_table_id c \<mapsto> th_create (cat_next_page_id c)) \<and>
           ex_index st' = (ex_index st)(cat_next_index_id c \<mapsto> ix_new ii) \<and> ex_affected st' = ex_affected st"
proof -
  define sch where "sch = \<lparr>sch_columns = cols\<rparr>"
  define pk where "pk = [95] @ t @ kw_primkey"
  have ok': "cat_ok c" and new': "map_of (cat_table_names c) t = None" using ok new by (simp_all add: c_def)
  obtain cat1 where ct: "CreateTable t sch c = Some (DB_SUCCESS, cat1)"
    and f1: "cat_table_names cat1 = (t, cat_next_table_id c) # cat_table_names c"
      "cat_tables cat1 = (cat_next_table_id c, tm) # cat_tables c"
      "cat_index_names cat1 = cat_index_names c" "cat_indexes cat1 = cat_indexes c"
      "cat_next_index_id cat1 = cat_next_index_id c"
    using CreateTable_new[OF ok' new', of sch] by (simp add: tm_def sch_def)
  have gt1: "GetTable t cat1 = Some (DB_SUCCESS, Some tm)" by (simp add: GetTable_def f1)
  have nm: "map_of (cat_index_names cat1) t = None \<or> map_of (cat_index_names cat1) t = Some []"
    using cat_ok_no_table_index_names[OF ok' new'] f1(3) by simp
  have fresh: "map_of (cat_indexes cat1) (cat_next_index_id c) = None"
    using cat_ok_index_fresh[OF ok'] f1(4) by simp
  have kmt: "those (map (Schema_GetColumnIndex (tm_schema tm)) pks) = Some km" using km by (simp add: tm_def)
  obtain cat3 where ci: "CreateIndex t pk pks True cat1 = Some (DB_SUCCESS, cat3)"
    and f3: "cat_table_names cat3 = cat_table_names cat1" "cat_tables cat3 = cat_tables cat1"
      "cat_index_names cat3 = index_names_insert t pk (cat_next_index_id c) (cat_index_names cat1)"
      "cat_indexes cat3 = (cat_next_index_id c, im) # cat_indexes cat1"
    using fresh kmt f1 gt1 GetIndex_empty[OF nm]
    by (auto simp: CreateIndex_def cat_NewPage_def Let_def umap_insert_def im_def pk_def tm_def)
  define st1 where "st1 = st\<lparr>ex_catalog := cat1,
    ex_heaps := (ex_heaps st)(cat_next_table_id c \<mapsto> th_create (cat_next_page_id c))\<rparr>"
  have gt3: "GetTable t cat3 = Some (DB_SUCCESS, Some tm)" using gt1 unfolding GetTable_def f3(1,2) .
  have "ExecuteCreateTable ii t nodes st = ex_create_index ii t pk pks st1"
    using ct gt1 by (simp add: ExecuteCreateTable_def defs st1_def pk_def tm_def sch_def c_def)
  also have "\<dots> = Some (DB_SUCCESS, st1\<lparr>ex_catalog := cat3, ex_index := (ex_index st1)(cat_next_index_id c \<mapsto> ix_new ii)\<rparr>)"
    using ci gt3 f1(5) f3(4) by (simp add: ex_create_index_def st1_def tm_def im_def TH_Scan_create)
  finally have ex: "ExecuteCreateTable ii t nodes st = \<dots>" .
  have "GetTableIndexes t [] cat3 = Some (DB_SUCCESS, [im])"
    using index_names_insert_empty[OF nm] f1(1) f3 fresh by (simp add: GetTableIndexes_def pk_def)
  then show ?thesis using ex gt3 by (simp add: st1_def)
qed


lemma th_table_create: "th_table (th_create pid) [pid] = Map.empty"
  by (rule ext) (simp add: th_table_eq th_create_def TablePage_GetTuple_Init)

lemma ex_index_key_no_columns: "im_key_map im = [] \<Longrightarrow> ex_index_key sch r im = Some (Inr [])"
  by (simp add: ex_index_key_def ex_key_columns_def)

text \<open>\<open>ExecuteCreateTable\<close> of a new table on a well-formed catalog
  succeeds: the catalog has the table under the next table id, with a new
  empty heap, and its one index \<open>_<table>_primkey\<close> on the primary keys,
  a new index under the next index id.\<close>

theorem ExecuteCreateTable_creates:
  assumes ok: "cat_ok (ex_catalog st)" and new: "map_of (cat_table_names (ex_catalog st)) t = None"
    and defs: "ex_column_defs nodes 0 [] [] = Some (Inr (cols, pks))"
    and km: "those (map (Schema_GetColumnIndex \<lparr>sch_columns = cols\<rparr>) pks) = Some km"
  shows "\<exists>st'. ExecuteCreateTable ii t nodes st = Some (DB_SUCCESS, st') \<and>
           GetTable t (ex_catalog st') = Some (DB_SUCCESS, Some \<lparr>tm_table_id = cat_next_table_id (ex_catalog st),
             tm_table_name = t, tm_root_page_id = cat_next_page_id (ex_catalog st), tm_schema = \<lparr>sch_columns = cols\<rparr>\<rparr>) \<and>
           GetTableIndexes t [] (ex_catalog st') = Some (DB_SUCCESS, [\<lparr>im_index_id = cat_next_index_id (ex_catalog st),
             im_index_name = [95] @ t @ kw_primkey, im_table_id = cat_next_table_id (ex_catalog st), im_key_map = km\<rparr>]) \<and>
           ex_heaps st' = (ex_heaps st)(cat_next_table_id (ex_catalog st) \<mapsto> th_create (cat_next_page_id (ex_catalog st))) \<and>
           ex_index st' = (ex_index st)(cat_next_index_id (ex_catalog st) \<mapsto> ix_new ii) \<and> ex_affected st' = ex_affected st"
  using ExecuteCreateTable_new[OF ok new defs km] by simp

text \<open>C33: a table created without primary keys gets an index on no columns,
  in which every row has the same empty key: the first insert into the table
  succeeds, and the second fails whatever its values, leaving the table with
  the first row alone.\<close>

theorem ExecuteCreateTable_no_primary_key:
  assumes ok: "cat_ok (ex_catalog st)" and new: "map_of (cat_table_names (ex_catalog st)) t = None"
    and defs: "ex_column_defs nodes 0 [] [] = Some (Inr (cols, []))"
    and v1: "ex_insert_values fc cols vals1 = Some (Inr r1)" and v2: "ex_insert_values fc cols vals2 = Some (Inr r2)"
    and fit1: "Row_GetSerializedSize fi \<lparr>row_rid = INVALID_ROWID, row_fields = r1\<rparr> + SIZE_SLOT \<le> PAGE_SIZE - SIZE_TABLE_PAGE_HEADER"
    and fit2: "Row_GetSerializedSize fi \<lparr>row_rid = INVALID_ROWID, row_fields = r2\<rparr> + SIZE_SLOT \<le> PAGE_SIZE - SIZE_TABLE_PAGE_HEADER"
  shows "\<exists>st1 st2 st3 rid h ps. ExecuteCreateTable map_index t nodes st = Some (DB_SUCCESS, st1) \<and>
           ExecuteInsert fc fi map_index t vals1 st1 = Some (DB_SUCCESS, st2) \<and>
           ExecuteInsert fc fi map_index t vals2 st2 = Some (DB_FAILED, st3) \<and>
           ex_heaps st3 (cat_next_table_id (ex_catalog st)) = Some h \<and> th_wf (Row_GetSerializedSize fi) h ps \<and>
           th_table h ps = [rid \<mapsto> \<lparr>row_rid = INVALID_ROWID, row_fields = r1\<rparr>]"
proof -
  define c where "c = ex_catalog st"
  define tm where "tm = \<lparr>tm_table_id = cat_next_table_id c, tm_table_name = t, tm_root_page_id = cat_next_page_id c,
                         tm_schema = \<lparr>sch_columns = cols\<rparr>\<rparr>"
  define im where "im = \<lparr>im_index_id = cat_next_index_id c, im_index_name = [95] @ t @ kw_primkey,
                         im_table_id = cat_next_table_id c, im_key_map = [] :: 32 word list\<rparr>"
  define sz where "sz = Row_GetSerializedSize fi"
  obtain st1 where ct: "ExecuteCreateTable map_index t nodes st = Some (DB_SUCCESS, st1)"
    and gt: "GetTable t (ex_catalog st1) = Some (DB_SUCCESS, Some tm)"
    and gi: "GetTableIndexes t [] (ex_catalog st1) = Some (DB_SUCCESS, [im])"
    and hp: "ex_heaps st1 = (ex_heaps st)(cat_next_table_id c \<mapsto> th_create (cat_next_page_id c))"
    and ix: "ex_index st1 = (ex_index st)(cat_next_index_id c \<mapsto> Map.empty)"
    using ExecuteCreateTable_new[OF ok new defs, of "[]" map_index] by (auto simp: c_def tm_def im_def map_index_def)
  have P: "0 \<le> cat_next_page_id c" using cat_ok_meta_below[of c] ok by (simp add: c_def CATALOG_META_PAGE_ID_def)
  have k1: "ex_index_key (tm_schema tm) r1 im = Some (Inr [])" and k2: "ex_index_key (tm_schema tm) r2 im = Some (Inr [])"
    by (simp_all add: ex_index_key_no_columns im_def)
  have iid: "im_index_id im = cat_next_index_id c" by (simp add: im_def)
  have h1: "ex_heaps st1 (tm_table_id tm) = Some (th_create (cat_next_page_id c))" by (simp add: hp tm_def)
  have fr: "ex_keys_fresh (tm_schema tm) r1 [im] (ex_index st1)" using k1 by (simp add: ex_keys_fresh_def ix iid)
  have c1: "ex_insert_values fc (sch_columns (tm_schema tm)) vals1 = Some (Inr r1)"
    and c2: "ex_insert_values fc (sch_columns (tm_schema tm)) vals2 = Some (Inr r2)" using v1 v2 by (simp_all add: tm_def)
  obtain rid h2 ps2 st2 where i1: "ExecuteInsert fc fi map_index t vals1 st1 = Some (DB_SUCCESS, st2)"
    "ex_heaps st2 = (ex_heaps st1)(tm_table_id tm \<mapsto> h2)" "th_wf sz h2 ps2"
    "th_table h2 ps2 = [rid \<mapsto> \<lparr>row_rid = INVALID_ROWID, row_fields = r1\<rparr>]"
    "ex_index_gains (tm_schema tm) r1 rid [im] (ex_index st1) (ex_index st2)" "ex_catalog st2 = ex_catalog st1"
    using ExecuteInsert_success[OF gt c1 gi h1 th_wf_create[OF P] fit1 fr] unfolding th_table_create sz_def
    by auto
  have m2: "ex_index st2 (im_index_id im) = Some [[] \<mapsto> rid]"
    using i1(5) k1 by (simp add: ex_index_gains_def ix iid)
  obtain h3 ps3 st3 where i2: "ExecuteInsert fc fi map_index t vals2 st2 = Some (DB_FAILED, st3)"
    "ex_heaps st3 = (ex_heaps st2)(tm_table_id tm \<mapsto> h3)" "th_wf sz h3 ps3" "th_table h3 ps3 = th_table h2 ps2"
    using ExecuteInsert_rollback[of t st2 tm fc vals2 r2 DB_SUCCESS "[]" im "[]" h2 fi ps2, OF _ c2 _ _ _ fit2 _ k2 m2]
      gt gi i1 by (auto simp: sz_def ex_keys_fresh_def h1)
  show ?thesis using ct i1(1,4) i2 unfolding sz_def c_def[symmetric] tm_def by auto
qed

text \<open>The scan inserts the rows' keys one by one into the index; with the
  key-to-row-id map, it succeeds exactly when the keys are distinct and new.\<close>

lemma ex_scan_insert_map:
  assumes "ex_scan_keys sch im h rids = Some kvs"
  shows "\<exists>m'. ex_scan_insert map_index sch im h rids m =
           Some (if distinct (map fst kvs) \<and> list_all (\<lambda>k. m k = None) (map fst kvs) then DB_SUCCESS else DB_FAILED, m') \<and>
           (distinct (map fst kvs) \<and> list_all (\<lambda>k. m k = None) (map fst kvs) \<longrightarrow> m' = m ++ map_of kvs)"
  using assms
proof (induction rids arbitrary: m kvs)
  case Nil
  then show ?case by (simp add: ex_scan_keys_def)
next
  case (Cons rid rids)
  obtain row key kvs' where row: "snd (TH_GetTuple rid h) = Some row"
    and k: "ex_index_key sch (row_fields row) im = Some (Inr key)" and kvs: "kvs = (key, rid) # kvs'"
    and tl: "ex_scan_keys sch im h rids = Some kvs'"
    using Cons.prems by (auto simp: ex_scan_keys_def split: option.splits sum.splits)
  show ?case
  proof (cases "m key = None")
    case False
    then obtain y where y: "m key = Some y" by auto
    then show ?thesis using row k kvs by (auto simp: map_index_def list_all_iff)
  next
    case True
    obtain m' where IH: "ex_scan_insert map_index sch im h rids (m(key \<mapsto> rid)) =
        Some (if distinct (map fst kvs') \<and> list_all (\<lambda>k. (m(key \<mapsto> rid)) k = None) (map fst kvs') then DB_SUCCESS else DB_FAILED, m')"
      "distinct (map fst kvs') \<and> list_all (\<lambda>k. (m(key \<mapsto> rid)) k = None) (map fst kvs') \<longrightarrow> m' = m(key \<mapsto> rid) ++ map_of kvs'"
      using Cons.IH[OF tl] by blast
    have iff: "(distinct (map fst kvs') \<and> list_all (\<lambda>k. (m(key \<mapsto> rid)) k = None) (map fst kvs')) =
               (distinct (map fst kvs) \<and> list_all (\<lambda>k. m k = None) (map fst kvs))"
      using True by (auto simp: kvs list_all_iff)
    have "distinct (map fst kvs) \<Longrightarrow> m(key \<mapsto> rid) ++ map_of kvs' = m ++ map_of kvs"
      by (auto simp: kvs map_add_upd_left dom_map_of_conv_image_fst)
    then show ?thesis using IH row k True iff by (auto simp: map_index_def)
  qed
qed


lemma GetIndex_lookup:
  "cat_index_lookup st t i = Some iid \<Longrightarrow> map_of (cat_indexes st) iid = Some im \<Longrightarrow> GetIndex t i st = Some (DB_SUCCESS, Some im)"
  unfolding GetIndex_def cat_index_lookup_def by (auto split: option.splits)

text \<open>C34: \<open>ExecuteCreateIndex\<close> of a new index on a table of a well-formed
  catalog, on columns one of which is unique, fills the new index from the
  table's scan: when the rows' keys are distinct it succeeds, the catalog has
  the index and the index maps each key to its row id; otherwise it fails,
  the index is dropped again and no index state is kept.\<close>

theorem ExecuteCreateIndex_refines:
  fixes st :: "('f, 'f list \<rightharpoonup> row_id) exec_state" and i :: "byte list" and tid :: table_id and km :: "32 word list"
  defines "im \<equiv> \<lparr>im_index_id = cat_next_index_id (ex_catalog st), im_index_name = i, im_table_id = tid, im_key_map = km\<rparr>"
  assumes ok: "cat_ok (ex_catalog st)" and t: "map_of (cat_table_names (ex_catalog st)) t = Some tid"
    and tm: "map_of (cat_tables (ex_catalog st)) tid = Some tm" and lk: "cat_index_lookup (ex_catalog st) t i = None"
    and km: "those (map (Schema_GetColumnIndex (tm_schema tm)) ks) = Some km"
    and uq: "ex_unique_flag (tm_schema tm) ks False = Some True"
    and h: "ex_heaps st (tm_table_id tm) = Some h" and scan: "TH_Scan h = Some rids"
    and keys: "ex_scan_keys (tm_schema tm) im h rids = Some kvs"
  shows "\<exists>st'. ExecuteCreateIndex map_index i t ks st = Some (if distinct (map fst kvs) then DB_SUCCESS else DB_FAILED, st') \<and>
           ex_heaps st' = ex_heaps st \<and>
           (if distinct (map fst kvs)
            then GetIndex t i (ex_catalog st') = Some (DB_SUCCESS, Some im) \<and>
                 ex_index st' = (ex_index st)(cat_next_index_id (ex_catalog st) \<mapsto> map_of kvs) \<and>
                 ex_affected st' = Suc (ex_affected st)
            else GetIndex t i (ex_catalog st') = Some (DB_INDEX_NOT_FOUND, None) \<and>
                 ex_index st' = ex_index st \<and> ex_affected st' = ex_affected st)"
proof -
  define c where "c = ex_catalog st"
  define I where "I = cat_next_index_id c"
  have ok': "cat_ok c" and t': "map_of (cat_table_names c) t = Some tid" and tm': "map_of (cat_tables c) tid = Some tm"
    and lk': "cat_index_lookup c t i = None" using ok t tm lk by (simp_all add: c_def)
  define st3 where "st3 = c\<lparr>cat_index_names := index_names_insert t i I (cat_index_names c),
                    cat_indexes := (I, im) # cat_indexes c,
                    cat_next_page_id := cat_next_page_id c + 1,
                    cat_pages := (cat_pages c)(cat_next_page_id c \<mapsto> snd (IndexMetadata_SerializeTo im zero_page)),
                    cat_meta := (cat_meta c)\<lparr>index_meta_pages :=
                       smap_insert I (cat_next_page_id c) (index_meta_pages (cat_meta c))\<rparr>,
                    cat_next_index_id := I + 1\<rparr>"
  have ci: "CreateIndex t i ks True c = Some (DB_SUCCESS, st3)"
    using CreateIndex_new[OF ok' t' lk' tm' km, of True] by (simp add: st3_def im_def I_def c_def)
  have gt: "GetTable t c = Some (DB_SUCCESS, Some tm)" using t' tm' by (simp add: GetTable_def)
  have eqs: "cat_table_names st3 = cat_table_names c" "cat_tables st3 = cat_tables c" by (simp_all add: st3_def)
  have gt3: "GetTable t st3 = Some (DB_SUCCESS, Some tm)" using gt unfolding GetTable_def eqs .
  have im3: "map_of (cat_indexes st3) I = Some im" by (simp add: st3_def)
  obtain m' where m': "map_of (cat_index_names st3) t = Some m'" "map_of m' i = Some I"
    using index_names_insert_at[OF lk', of I] by (auto simp: st3_def)
  have lk3: "cat_index_lookup st3 t i = Some I" using m' by (simp add: cat_index_lookup_def)
  obtain m2 where sc: "ex_scan_insert map_index (tm_schema tm) im h rids Map.empty =
      Some (if distinct (map fst kvs) then DB_SUCCESS else DB_FAILED, m2)"
    "distinct (map fst kvs) \<longrightarrow> m2 = map_of kvs"
    using ex_scan_insert_map[OF keys, of Map.empty] by (auto simp: list_all_iff)
  show ?thesis
  proof (cases "distinct (map fst kvs)")
    case True
    have "ex_create_index map_index t i ks st =
        Some (DB_SUCCESS, st\<lparr>ex_catalog := st3, ex_index := (ex_index st)(I \<mapsto> map_of kvs)\<rparr>)"
      using ci gt3 im3 h scan sc True by (simp add: ex_create_index_def c_def[symmetric] I_def map_index_def)
    then show ?thesis using True gt uq GetIndex_lookup[OF lk3 im3]
      by (simp add: ExecuteCreateIndex_def c_def[symmetric] I_def)
  next
    case False
    define st4 where "st4 = st3\<lparr>cat_destroyed := I # cat_destroyed st3,
                           cat_indexes := AList.delete I (cat_indexes st3),
                           cat_meta := (cat_meta st3)\<lparr>index_meta_pages := smap_erase I (index_meta_pages (cat_meta st3))\<rparr>,
                           cat_index_names := AList.update t (AList.delete i m') (cat_index_names st3)\<rparr>"
    have di: "DropIndex t i st3 = Some (DB_SUCCESS, st4)" using m' im3 by (simp add: DropIndex_def st4_def)
    have "ex_create_index map_index t i ks st = Some (DB_FAILED, st\<lparr>ex_catalog := st4\<rparr>)"
      using ci gt3 im3 h scan sc False di by (simp add: ex_create_index_def c_def[symmetric] I_def map_index_def)
    moreover have "GetIndex t i st4 = Some (DB_INDEX_NOT_FOUND, None)"
      by (simp add: GetIndex_def st4_def update_conv' delete_conv')
    ultimately show ?thesis using False gt uq by (simp add: ExecuteCreateIndex_def c_def[symmetric])
  qed
qed


section \<open>Witnesses\<close>

lemma ex_heap2_scan: "TH_Scan ex_heap2 = Some [\<lparr>rid_page_id = 0, rid_slot = 0\<rparr>, \<lparr>rid_page_id = 0, rid_slot = 1\<rparr>]"
proof -
  have f: "th_first_page_id ex_heap2 = 0" "th_pages ex_heap2 0 = Some ex_page2" "th_pages ex_heap2 INVALID_PAGE_ID = None"
    by (simp_all add: ex_heap2_def ex_heap_def INVALID_PAGE_ID_def)
  have p: "TablePage_GetFirstTupleRid ex_page2 = Some \<lparr>rid_page_id = 0, rid_slot = 0\<rparr>"
    "TablePage_GetNextTupleRid \<lparr>rid_page_id = 0, rid_slot = 0\<rparr> ex_page2 = Some \<lparr>rid_page_id = 0, rid_slot = 1\<rparr>"
    "TablePage_GetNextTupleRid \<lparr>rid_page_id = 0, rid_slot = 1\<rparr> ex_page2 = None"
    "tp_next_page_id ex_page2 = INVALID_PAGE_ID"
    by (simp_all add: ex_page2_def TablePage_Init_def TablePage_GetFirstTupleRid_def TablePage_GetNextTupleRid_def live_slot_def)
  have w: "ti_walk ex_heap2 INVALID_PAGE_ID = Some INVALID_ROWID" by (subst ti_walk.simps) (simp add: f)
  have n: "\<lparr>rid_page_id = 0, rid_slot = s\<rparr> \<noteq> INVALID_ROWID" for s by (simp add: INVALID_ROWID_def INVALID_PAGE_ID_def)
  show ?thesis by (simp add: TH_Scan_def TH_Begin_def f p w n ti_scan_step ti_scan_End TableIterator_def ti_next_def)
qed


lemma ExecuteCreateIndex_refines_witness:
  "\<exists>st'. ExecuteCreateIndex map_index [106] [116] [[97]] ((ex_state cat_example [0 \<mapsto> Map.empty])\<lparr>ex_heaps := [0 \<mapsto> ex_heap2]\<rparr>) =
       Some (DB_SUCCESS, st') \<and> ex_heaps st' = [0 \<mapsto> ex_heap2] \<and>
     GetIndex [116] [106] (ex_catalog st') = Some (DB_SUCCESS, Some \<lparr>im_index_id = 1, im_index_name = [106], im_table_id = 0, im_key_map = [0]\<rparr>) \<and>
     ex_index st' = [0 \<mapsto> Map.empty, 1 \<mapsto> [[[50]] \<mapsto> \<lparr>rid_page_id = 0, rid_slot = 1\<rparr>, [[49]] \<mapsto> \<lparr>rid_page_id = 0, rid_slot = 0\<rparr>]] \<and>
     ex_affected st' = 1"
proof -
  define W where "W = (ex_state cat_example [0 \<mapsto> Map.empty])\<lparr>ex_heaps := [0 \<mapsto> ex_heap2]\<rparr>"
  have c: "ex_catalog W = cat_example" "ex_heaps W = [0 \<mapsto> ex_heap2]" "ex_index W = [0 \<mapsto> Map.empty]" "ex_affected W = 0"
    by (simp_all add: W_def ex_state_def)
  have I: "cat_next_index_id cat_example = 1" by (simp add: cat_example_def)
  have g: "snd (TH_GetTuple \<lparr>rid_page_id = 0, rid_slot = 0\<rparr> ex_heap2) = Some \<lparr>row_rid = INVALID_ROWID, row_fields = [[49]]\<rparr>"
    "snd (TH_GetTuple \<lparr>rid_page_id = 0, rid_slot = 1\<rparr> ex_heap2) = Some \<lparr>row_rid = INVALID_ROWID, row_fields = [[50]]\<rparr>"
    by (simp_all add: TH_GetTuple_def ex_heap2_def ex_page2_def TablePage_GetTuple_def)
  have keys: "ex_scan_keys (tm_schema cat_example_table)
      \<lparr>im_index_id = cat_next_index_id (ex_catalog W), im_index_name = [106], im_table_id = 0, im_key_map = [0]\<rparr> ex_heap2
      [\<lparr>rid_page_id = 0, rid_slot = 0\<rparr>, \<lparr>rid_page_id = 0, rid_slot = 1\<rparr>] =
      Some [([[49]], \<lparr>rid_page_id = 0, rid_slot = 0\<rparr>), ([[50]], \<lparr>rid_page_id = 0, rid_slot = 1\<rparr>)]"
    using g by (simp add: ex_scan_keys_def ex_index_key_def ex_key_columns_def Schema_GetColumnIndex_def cat_example_table_def)
  have ok: "cat_ok (ex_catalog W)" using cat_example_ok by (simp add: c)
  have hyps: "map_of (cat_table_names (ex_catalog W)) [116] = Some 0"
    "map_of (cat_tables (ex_catalog W)) 0 = Some cat_example_table"
    "cat_index_lookup (ex_catalog W) [116] [106] = None"
    "those (map (Schema_GetColumnIndex (tm_schema cat_example_table)) [[97]]) = Some [0]"
    "ex_unique_flag (tm_schema cat_example_table) [[97]] False = Some True"
    "ex_heaps W (tm_table_id cat_example_table) = Some ex_heap2"
    by (simp_all add: c cat_example_def cat_index_lookup_def Schema_GetColumnIndex_def cat_example_table_def)
  show ?thesis
    using ExecuteCreateIndex_refines[OF ok hyps ex_heap2_scan keys] unfolding W_def[symmetric]
    by (simp add: c I)
qed


lemma ex_wit_defs: "ex_column_defs ex_column_a 0 [] [] =
  Some (Inr ([\<lparr>col_name = [97], col_type = kTypeInt, col_len = 4, col_table_ind = 0, col_nullable = True, col_unique = False\<rparr>], []))"
  by (simp add: ex_column_a_def kw_int_def kw_unique_def Column_def)

lemma ex_wit_new: "map_of (cat_table_names (ex_catalog (ex_state cat_example ix))) [117] = None"
  by (simp add: ex_state_def cat_example_def)

lemma ex_wit_ok: "cat_ok (ex_catalog (ex_state cat_example ix))"
  by (simp add: ex_state_def cat_example_ok)

lemma ExecuteCreateTable_creates_witness:
  "\<exists>st'. ExecuteCreateTable (map_index :: (byte list, byte list list \<rightharpoonup> row_id) index_iface) [117] ex_column_a
       (ex_state cat_example Map.empty) = Some (DB_SUCCESS, st') \<and>
     GetTable [117] (ex_catalog st') = Some (DB_SUCCESS, Some \<lparr>tm_table_id = 1, tm_table_name = [117], tm_root_page_id = 4,
       tm_schema = \<lparr>sch_columns = [\<lparr>col_name = [97], col_type = kTypeInt, col_len = 4, col_table_ind = 0,
         col_nullable = True, col_unique = False\<rparr>]\<rparr>\<rparr>) \<and>
     GetTableIndexes [117] [] (ex_catalog st') = Some (DB_SUCCESS, [\<lparr>im_index_id = 1,
       im_index_name = [95] @ [117] @ kw_primkey, im_table_id = 1, im_key_map = []\<rparr>]) \<and>
     ex_heaps st' = [0 \<mapsto> ex_heap, 1 \<mapsto> th_create 4] \<and> ex_index st' = [1 \<mapsto> Map.empty] \<and> ex_affected st' = 0"
  using ExecuteCreateTable_creates[OF ex_wit_ok ex_wit_new ex_wit_defs, where km = "[]" and ii = map_index]
  by (simp add: ex_state_def cat_example_def map_index_def)

lemma ExecuteCreateTable_no_primary_key_witness:
  "\<exists>st1 st2 st3 rid h ps. ExecuteCreateTable map_index [117] ex_column_a (ex_state cat_example Map.empty) = Some (DB_SUCCESS, st1) \<and>
     ExecuteInsert ex_ctor ex_fields map_index [117] [(kNodeNumber, [49])] st1 = Some (DB_SUCCESS, st2) \<and>
     ExecuteInsert ex_ctor ex_fields map_index [117] [(kNodeNumber, [50])] st2 = Some (DB_FAILED, st3) \<and>
     ex_heaps st3 1 = Some h \<and> th_wf (Row_GetSerializedSize ex_fields) h ps \<and>
     th_table h ps = [rid \<mapsto> \<lparr>row_rid = INVALID_ROWID, row_fields = [[49]]\<rparr>]"
proof -
  have v: "ex_insert_values ex_ctor [\<lparr>col_name = [97], col_type = kTypeInt, col_len = 4, col_table_ind = 0,
      col_nullable = True, col_unique = False\<rparr>] [(kNodeNumber, [d])] = Some (Inr [[d]])" if "48 \<le> d \<and> d \<le> 57" for d
    using that by (simp add: ex_ctor_def)
  have fit: "Row_GetSerializedSize ex_fields \<lparr>row_rid = INVALID_ROWID, row_fields = [[d]]\<rparr> + SIZE_SLOT \<le>
      PAGE_SIZE - SIZE_TABLE_PAGE_HEADER" for d
    by (simp add: Row_GetSerializedSize_def ex_fields_def SIZE_SLOT_def PAGE_SIZE_def SIZE_TABLE_PAGE_HEADER_def)
  show ?thesis
    using ExecuteCreateTable_no_primary_key[OF ex_wit_ok ex_wit_new ex_wit_defs v[of 49] v[of 50] fit fit]
    by (simp add: ex_state_def cat_example_def)
qed

end
