(* ===== verification/Executor_Where.thy ===== *)
theory Executor_Where
  imports Executor_DDL
begin

text \<open>
  What the data-manipulation handlers of the execution engine
  (\<^verbatim>\<open>src/src/executor/execute_engine.cpp\<close>) share: \<open>EvaluateWhere\<close>, which
  decides whether a row satisfies the condition tree of a \<open>where\<close> clause,
  \<open>EvaluateIndex\<close>, which records how each column is constrained,
  \<open>ChooseIndex\<close>, which picks an index usable for an equality lookup, the
  removal of a row's keys from the indexes, and the two loops over the rows to
  change: the scan of the table heap and the loop over the row ids of an index
  lookup.  The condition tree comes from the parser (not under src) and is a
  datatype here; \<open>Field\<close>'s comparisons (\<^verbatim>\<open>record/field.h\<close>, not under src)
  are an interface returning \<open>CmpBool\<close>, which the engine converts to
  \<open>bool\<close>.  The main lemma shows that the scan, whatever its body does to the
  current row, visits the live rows the heap held before it.
\<close>

section \<open>Interfaces\<close>

text \<open>\<open>CmpBool\<close> (\<^verbatim>\<open>record/types.h\<close>, not under src) has \<open>kFalse = 0\<close>, \<open>kTrue = 1\<close>
  and \<open>kNull = 2\<close>; returned as \<open>bool\<close>, only \<open>kFalse\<close> is false.\<close>

datatype CmpBool = kFalse | kTrue | kNull

definition cmp_to_bool :: "CmpBool \<Rightarrow> bool" where
  "cmp_to_bool c = (c \<noteq> kFalse)"

record 'f field_cmp =
  CompareEquals :: "'f \<Rightarrow> 'f \<Rightarrow> CmpBool"
  CompareNotEquals :: "'f \<Rightarrow> 'f \<Rightarrow> CmpBool"
  CompareLessThan :: "'f \<Rightarrow> 'f \<Rightarrow> CmpBool"
  CompareLessThanEquals :: "'f \<Rightarrow> 'f \<Rightarrow> CmpBool"
  CompareGreaterThan :: "'f \<Rightarrow> 'f \<Rightarrow> CmpBool"
  CompareGreaterThanEquals :: "'f \<Rightarrow> 'f \<Rightarrow> CmpBool"

text \<open>A condition node: a connector with its value and two children, a
  comparison with its operator, the column name of its left child and its
  right child (node type and text), or a node of another type.\<close>

datatype WhereNode =
    WConnector "byte list" WhereNode WhereNode
  | WCompare "byte list" "byte list" "SyntaxNodeType \<times> byte list"
  | WOther

text \<open>The operator and connector texts: \<open>and\<close>, \<open>or\<close>, \<open>is\<close>, \<open>not\<close>, \<open>=\<close>, \<open><>\<close>,
  \<open><\<close>, \<open><=\<close>, \<open>>\<close>, \<open>>=\<close>.\<close>

definition kw_and :: "byte list" where "kw_and = [97, 110, 100]"
definition kw_or :: "byte list" where "kw_or = [111, 114]"
definition kw_is :: "byte list" where "kw_is = [105, 115]"
definition kw_not :: "byte list" where "kw_not = [110, 111, 116]"
definition kw_eq :: "byte list" where "kw_eq = [61]"
definition kw_ne :: "byte list" where "kw_ne = [60, 62]"
definition kw_lt :: "byte list" where "kw_lt = [60]"
definition kw_le :: "byte list" where "kw_le = [60, 61]"
definition kw_gt :: "byte list" where "kw_gt = [62]"
definition kw_ge :: "byte list" where "kw_ge = [62, 61]"

section \<open>EvaluateWhere\<close>

text \<open>The right operand of a comparison as a field of the column's type;
  \<open>Inl\<close> is the error recorded in the context when the node has the wrong
  type or the column an unsupported one.\<close>

definition ex_right_field :: "'f field_ctor \<Rightarrow> TypeId \<Rightarrow> SyntaxNodeType \<times> byte list \<Rightarrow> (dberr_t + 'f) option" where
  "ex_right_field fc ty rn =
     (let (nt, v) = rn in
      if ty = kTypeInt then (if nt \<noteq> kNodeNumber then Some (Inl DB_FAILED) else map_option Inr (Field_int fc v))
      else if ty = kTypeFloat then (if nt \<noteq> kNodeNumber then Some (Inl DB_FAILED) else map_option Inr (Field_float fc v))
      else if ty = kTypeChar then (if nt \<noteq> kNodeString then Some (Inl DB_FAILED) else Some (Inr (Field_char fc v)))
      else Some (Inl DB_FAILED))"

text \<open>\<open>EvaluateWhere\<close> on a row, threading the context's error: both
  operands of \<open>and\<close>/\<open>or\<close> are evaluated (the operators are \<open>&\<close> and \<open>|\<close>), left
  first.  An error makes the comparison false.\<close>

fun ex_eval_where ::
  "'f field_ctor \<Rightarrow> 'f field_iface \<Rightarrow> 'f field_cmp \<Rightarrow> WhereNode \<Rightarrow> schema \<Rightarrow> 'f row \<Rightarrow> dberr_t \<Rightarrow> (bool \<times> dberr_t) option" where
  "ex_eval_where fc fi fcmp (WConnector v l r) sch row err =
     (if v = kw_and then do { (a, e1) \<leftarrow> ex_eval_where fc fi fcmp l sch row err;
                              (b, e2) \<leftarrow> ex_eval_where fc fi fcmp r sch row e1; Some (a \<and> b, e2) }
      else if v = kw_or then do { (a, e1) \<leftarrow> ex_eval_where fc fi fcmp l sch row err;
                                  (b, e2) \<leftarrow> ex_eval_where fc fi fcmp r sch row e1; Some (a \<or> b, e2) }
      else Some (False, DB_FAILED))"
| "ex_eval_where fc fi fcmp (WCompare op name rn) sch row err =
     (case Schema_GetColumnIndex sch name of
        None \<Rightarrow> Some (False, DB_COLUMN_NAME_NOT_EXIST)
      | Some ci \<Rightarrow> do {
          left \<leftarrow> (if unat ci < length (row_fields row) then Some (row_fields row ! unat ci) else None);
          if fst rn = kNodeNull then
            (if op = kw_is then Some (fld_IsNull fi left, err)
             else if op = kw_not then Some (\<not> fld_IsNull fi left, err)
             else Some (False, DB_FAILED))
          else do {
            rf \<leftarrow> ex_right_field fc (col_type (sch_columns sch ! unat ci)) rn;
            (case rf of
               Inl e \<Rightarrow> Some (False, e)
             | Inr right \<Rightarrow>
                 (if op = kw_eq then Some (cmp_to_bool (CompareEquals fcmp left right), err)
                  else if op = kw_ne then Some (cmp_to_bool (CompareNotEquals fcmp left right), err)
                  else if op = kw_lt then Some (cmp_to_bool (CompareLessThan fcmp left right), err)
                  else if op = kw_le then Some (cmp_to_bool (CompareLessThanEquals fcmp left right), err)
                  else if op = kw_gt then Some (cmp_to_bool (CompareGreaterThan fcmp left right), err)
                  else if op = kw_ge then Some (cmp_to_bool (CompareGreaterThanEquals fcmp left right), err)
                  else Some (False, DB_FAILED))) } })"
| "ex_eval_where fc fi fcmp WOther sch row err = Some (False, err)"

section \<open>EvaluateIndex and ChooseIndex\<close>

text \<open>\<open>EvaluateIndex\<close>: per column, bit 1 for an equality, bit 2 for a range
  comparison and bit 4 when no index may be used (an \<open>or\<close> anywhere, a null
  test, \<open><>\<close>); an equality records its constant.\<close>

fun ex_eval_index ::
  "'f field_ctor \<Rightarrow> WhereNode \<Rightarrow> schema \<Rightarrow> nat list \<times> 'f list \<times> dberr_t \<Rightarrow> (nat list \<times> 'f list \<times> dberr_t) option" where
  "ex_eval_index fc (WConnector v l r) sch s =
     (if v = kw_and then do { s1 \<leftarrow> ex_eval_index fc l sch s; ex_eval_index fc r sch s1 }
      else if v = kw_or then (let (status, conds, err) = s in Some (map (\<lambda>x. x OR 4) status, conds, err))
      else Some s)"
| "ex_eval_index fc (WCompare op name rn) sch s =
     (let (status, conds, err) = s in
      case Schema_GetColumnIndex sch name of
        None \<Rightarrow> Some (status, conds, DB_COLUMN_NAME_NOT_EXIST)
      | Some ci \<Rightarrow>
          (let i = unat ci;
               mark = (\<lambda>b. status[i := status ! i OR b])
           in if op = kw_is \<or> op = kw_not then Some (mark 4, conds, err)
              else if op = kw_eq then do {
                rf \<leftarrow> ex_right_field fc (col_type (sch_columns sch ! i)) rn;
                (case rf of
                   Inl e \<Rightarrow> Some (mark 1, conds, e)
                 | Inr f \<Rightarrow> Some (mark 1, conds[i := f], err)) }
              else if op = kw_ne then Some (mark 4, conds, err)
              else if op = kw_lt \<or> op = kw_le \<or> op = kw_gt \<or> op = kw_ge then Some (mark 2, conds, err)
              else Some (mark 4, conds, DB_FAILED)))"
| "ex_eval_index fc WOther sch s = Some s"

text \<open>The names of an index's key columns, from its key schema.\<close>

definition ex_key_names :: "schema \<Rightarrow> index_metadata \<Rightarrow> byte list list option" where
  "ex_key_names sch im =
     (if list_all (\<lambda>k. unat k < length (sch_columns sch)) (im_key_map im)
      then Some (map (\<lambda>k. col_name (sch_columns sch ! unat k)) (im_key_map im)) else None)"

text \<open>The position \<open>GetColumnIndex\<close> gives a name, 0 when it fails.\<close>

definition ex_column_ind :: "schema \<Rightarrow> byte list \<Rightarrow> nat" where
  "ex_column_ind sch n = (case Schema_GetColumnIndex sch n of None \<Rightarrow> 0 | Some i \<Rightarrow> unat i)"

text \<open>The use of one index: 0 not usable, 1 equality on its key, 2 range.\<close>

fun ex_index_res :: "schema \<Rightarrow> nat list \<Rightarrow> byte list list \<Rightarrow> int \<Rightarrow> int option" where
  "ex_index_res sch status [] res = Some (if res = -1 then 0 else res)"
| "ex_index_res sch status (n # ns) res =
     (let ind = ex_column_ind sch n in
      if length status \<le> ind then None
      else let s = status ! ind in
        if s AND 4 \<noteq> 0 then Some 0
        else if s AND 1 \<noteq> 0 then
          (if res \<noteq> 2 \<and> res \<noteq> 0 then ex_index_res sch status ns 1
           else if res = 2 then Some 0 else ex_index_res sch status ns res)
        else if s AND 2 \<noteq> 0 then
          (if res \<noteq> 2 \<and> res \<noteq> 0 then ex_index_res sch status ns 2
           else if res = 2 then Some 0 else ex_index_res sch status ns res)
        else ex_index_res sch status ns res)"

text \<open>The first index whose use is an equality, with its key assembled from
  the recorded constants.\<close>

fun ex_first_eq_index ::
  "schema \<Rightarrow> nat list \<Rightarrow> 'f list \<Rightarrow> index_metadata list \<Rightarrow> (index_metadata \<times> 'f list) option option" where
  "ex_first_eq_index sch status conds [] = Some None"
| "ex_first_eq_index sch status conds (im # ims) =
     do { names \<leftarrow> ex_key_names sch im;
          res \<leftarrow> ex_index_res sch status names (-1);
          if res = 1 then
            (if list_all (\<lambda>n. ex_column_ind sch n < length conds) names
             then Some (Some (im, map (\<lambda>n. conds ! ex_column_ind sch n) names)) else None)
          else ex_first_eq_index sch status conds ims }"

text \<open>\<open>ChooseIndex\<close>: whether an index is used, which, its key, and the
  context's error after \<open>EvaluateIndex\<close>.  All statuses of the indexes are
  computed before the first equality index is picked.\<close>

definition ChooseIndex ::
  "'f field_ctor \<Rightarrow> schema \<Rightarrow> index_metadata list \<Rightarrow> WhereNode option \<Rightarrow>
   (bool \<times> (index_metadata \<times> 'f list) option \<times> dberr_t) option" where
  "ChooseIndex fc sch indexes where_node =
     (case where_node of
        None \<Rightarrow> Some (False, None, DB_SUCCESS)
      | Some w \<Rightarrow> do {
          (status, conds, err) \<leftarrow> ex_eval_index fc w sch
             (replicate (length (sch_columns sch)) 0, map (\<lambda>c. Field_null fc (col_type c)) (sch_columns sch), DB_SUCCESS);
          _ \<leftarrow> those (map (\<lambda>im. do { names \<leftarrow> ex_key_names sch im; ex_index_res sch status names (-1) }) indexes);
          pick \<leftarrow> ex_first_eq_index sch status conds indexes;
          Some (case pick of None \<Rightarrow> (False, None, err) | Some p \<Rightarrow> (True, Some p, err)) })"


section \<open>Removing keys and the row loops\<close>

text \<open>\<open>RemoveEntry\<close> of a deleted row's key from every index of the table
  (its status is only logged); a key column that is not found ends the delete
  with that status and the indexes as they are by then.\<close>

fun ex_remove_entries ::
  "('f, 'ix) index_iface \<Rightarrow> schema \<Rightarrow> 'f row \<Rightarrow> row_id \<Rightarrow> index_metadata list \<Rightarrow> (index_id \<rightharpoonup> 'ix) \<Rightarrow>
   ((dberr_t \<times> (index_id \<rightharpoonup> 'ix)) + (index_id \<rightharpoonup> 'ix)) option" where
  "ex_remove_entries ii sch row rid [] ixs = Some (Inr ixs)"
| "ex_remove_entries ii sch row rid (im # ims) ixs =
     do { k \<leftarrow> ex_index_key sch (row_fields row) im;
          (case k of
             Inl status \<Rightarrow> Some (Inl (status, ixs))
           | Inr key \<Rightarrow> do { ix \<leftarrow> ixs (im_index_id im);
                                ex_remove_entries ii sch row rid ims (ixs(im_index_id im \<mapsto> snd (ix_RemoveEntry ii key rid ix))) }) }"

text \<open>Whether a row satisfies the \<open>where\<close> clause (always, without one).\<close>

definition ex_where_holds ::
  "'f field_ctor \<Rightarrow> 'f field_iface \<Rightarrow> 'f field_cmp \<Rightarrow> WhereNode option \<Rightarrow> schema \<Rightarrow> 'f row \<Rightarrow> bool option" where
  "ex_where_holds fc fi fcmp where_node sch row =
     (case where_node of None \<Rightarrow> Some True | Some w \<Rightarrow> map_option fst (ex_eval_where fc fi fcmp w sch row DB_SUCCESS))"

text \<open>The loop every scanning handler writes,
  \<open>for (auto it = heap->Begin(); it != heap->End(); it++)\<close>, skipping the rows
  the \<open>where\<close> clause rejects and running \<open>body\<close> on the others: \<open>*it\<close>
  reads the current row into the iterator, and \<open>it++\<close> moves on in the heap as
  \<open>body\<close> left it.  \<open>Inl\<close> from the body is a return from inside the loop.\<close>

partial_function (option) ex_heap_loop ::
  "'f field_ctor \<Rightarrow> 'f field_iface \<Rightarrow> 'f field_cmp \<Rightarrow> schema \<Rightarrow> table_id \<Rightarrow> WhereNode option \<Rightarrow>
   ('f row \<Rightarrow> row_id \<Rightarrow> ('f, 'ix) exec_state \<Rightarrow> ((dberr_t \<times> ('f, 'ix) exec_state) + ('f, 'ix) exec_state) option) \<Rightarrow>
   'f row table_iterator \<Rightarrow> ('f, 'ix) exec_state \<Rightarrow> (dberr_t \<times> ('f, 'ix) exec_state) option" where
  "ex_heap_loop fc fi fcmp sch tid where_node body it st =
     (if TI_Neq it TH_End then do {
        h \<leftarrow> ex_heaps st tid;
        let it1 = TI_Deref h it;
        let row = (case ti_row it1 of None \<Rightarrow> \<lparr>row_rid = INVALID_ROWID, row_fields = []\<rparr> | Some r \<Rightarrow> r);
        m \<leftarrow> ex_where_holds fc fi fcmp where_node sch row;
        if \<not> m then do { (_, it2) \<leftarrow> TI_PostInc h it1; ex_heap_loop fc fi fcmp sch tid where_node body it2 st }
        else do {
          r \<leftarrow> body row (ti_id it1) st;
          (case r of
             Inl (status, st1) \<Rightarrow> Some (status, st1)
           | Inr st1 \<Rightarrow> do {
               h2 \<leftarrow> ex_heaps st1 tid;
               (_, it2) \<leftarrow> TI_PostInc h2 it1;
               ex_heap_loop fc fi fcmp sch tid where_node body it2 st1 }) } }
      else Some (DB_SUCCESS, st))"

text \<open>The loop over the row ids an index lookup returned: each row is read
  with \<open>GetTuple\<close> into a \<open>Row\<close> holding just the id (which keeps no fields
  when the read fails).\<close>

fun ex_rids_loop ::
  "'f field_ctor \<Rightarrow> 'f field_iface \<Rightarrow> 'f field_cmp \<Rightarrow> schema \<Rightarrow> table_id \<Rightarrow> WhereNode option \<Rightarrow>
   ('f row \<Rightarrow> row_id \<Rightarrow> ('f, 'ix) exec_state \<Rightarrow> ((dberr_t \<times> ('f, 'ix) exec_state) + ('f, 'ix) exec_state) option) \<Rightarrow>
   row_id list \<Rightarrow> ('f, 'ix) exec_state \<Rightarrow> (dberr_t \<times> ('f, 'ix) exec_state) option" where
  "ex_rids_loop fc fi fcmp sch tid where_node body [] st = Some (DB_SUCCESS, st)"
| "ex_rids_loop fc fi fcmp sch tid where_node body (rid # rids) st =
     do { h \<leftarrow> ex_heaps st tid;
          let row = (case snd (TH_GetTuple rid h) of None \<Rightarrow> \<lparr>row_rid = rid, row_fields = []\<rparr> | Some r \<Rightarrow> r);
          m \<leftarrow> ex_where_holds fc fi fcmp where_node sch row;
          if \<not> m then ex_rids_loop fc fi fcmp sch tid where_node body rids st
          else do {
            r \<leftarrow> body row rid st;
            (case r of
               Inl (status, st1) \<Rightarrow> Some (status, st1)
             | Inr st1 \<Rightarrow> ex_rids_loop fc fi fcmp sch tid where_node body rids st1) } }"

section \<open>Example data\<close>

text \<open>Example data: comparisons of decimal byte strings, with the empty
  string as null, and a one-page heap holding the rows \<open>1\<close> and \<open>2\<close> of the
  example table.\<close>

definition ex_num :: "byte list \<Rightarrow> nat" where
  "ex_num v = foldl (\<lambda>n c. 10 * n + (unat c - 48)) 0 v"

definition ex_cmp_by :: "(nat \<Rightarrow> nat \<Rightarrow> bool) \<Rightarrow> byte list \<Rightarrow> byte list \<Rightarrow> CmpBool" where
  "ex_cmp_by r x y = (if x = [] \<or> y = [] then kNull else if r (ex_num x) (ex_num y) then kTrue else kFalse)"

definition ex_cmp :: "byte list field_cmp" where
  "ex_cmp = \<lparr>CompareEquals = ex_cmp_by (=), CompareNotEquals = ex_cmp_by (\<noteq>),
             CompareLessThan = ex_cmp_by (<), CompareLessThanEquals = ex_cmp_by (\<le>),
             CompareGreaterThan = ex_cmp_by (>), CompareGreaterThanEquals = ex_cmp_by (\<ge>)\<rparr>"

definition ex_page3 :: "byte list row table_page" where
  "ex_page3 = (TablePage_Init 0 INVALID_PAGE_ID new_table_page)
     \<lparr>tp_slots := [Some (\<lparr>row_rid = INVALID_ROWID, row_fields = [[49]]\<rparr>, False),
                    Some (\<lparr>row_rid = INVALID_ROWID, row_fields = [[50]]\<rparr>, False)],
       tp_free_space := PAGE_SIZE - SIZE_TABLE_PAGE_HEADER - 2 * SIZE_SLOT - 44\<rparr>"

definition ex_heap3 :: "byte list row table_heap" where
  "ex_heap3 = ex_heap\<lparr>th_pages := [0 \<mapsto> ex_page3]\<rparr>"

section \<open>Lemmas\<close>

lemma kw_distinct [simp]:
  "kw_and \<noteq> kw_or" "kw_eq \<noteq> kw_is" "kw_eq \<noteq> kw_not" "kw_ne \<noteq> kw_is" "kw_ne \<noteq> kw_not" "kw_ne \<noteq> kw_eq"
  "kw_eq \<noteq> kw_ne" "kw_eq \<noteq> kw_lt" "kw_eq \<noteq> kw_le" "kw_eq \<noteq> kw_gt" "kw_eq \<noteq> kw_ge"
  by (simp_all add: kw_and_def kw_or_def kw_eq_def kw_is_def kw_not_def kw_ne_def kw_lt_def kw_le_def kw_gt_def kw_ge_def)

lemma ex_right_field_not_null: "ex_right_field fc ty rn = Some (Inr r) \<Longrightarrow> fst rn \<noteq> kNodeNull"
  by (cases rn) (auto simp: ex_right_field_def split: if_splits)

lemma ex_remove_entries_map:
  assumes "\<forall>im\<in>set ims. \<exists>key. ex_index_key sch (row_fields row) im = Some (Inr key)"
    and "\<forall>im\<in>set ims. ixs (im_index_id im) \<noteq> None" and "distinct (map im_index_id ims)"
  shows "\<exists>ixs'. ex_remove_entries map_index sch row rid ims ixs = Some (Inr ixs') \<and>
           (\<forall>im\<in>set ims. \<forall>key. ex_index_key sch (row_fields row) im = Some (Inr key) \<longrightarrow>
              ixs' (im_index_id im) = map_option (\<lambda>m. m(key := None)) (ixs (im_index_id im))) \<and>
           (\<forall>i. i \<notin> im_index_id ` set ims \<longrightarrow> ixs' i = ixs i)"
  using assms
proof (induction ims arbitrary: ixs)
  case (Cons im ims)
  obtain key m where k: "ex_index_key sch (row_fields row) im = Some (Inr key)" and m: "ixs (im_index_id im) = Some m"
    using Cons.prems by auto
  let ?ixs1 = "ixs(im_index_id im \<mapsto> m(key := None))"
  have r: "snd (ix_RemoveEntry map_index key rid m) = m(key := None)" by (auto simp: map_index_def)
  have nin: "im_index_id im \<notin> im_index_id ` set ims" using Cons.prems(3) by simp
  have pre: "\<forall>im\<in>set ims. \<exists>key. ex_index_key sch (row_fields row) im = Some (Inr key)"
    "\<forall>im\<in>set ims. ?ixs1 (im_index_id im) \<noteq> None" "distinct (map im_index_id ims)"
    using Cons.prems by auto
  from Cons.IH[OF pre] obtain ixs' where ih: "ex_remove_entries map_index sch row rid ims ?ixs1 = Some (Inr ixs')"
    "\<forall>im\<in>set ims. \<forall>key. ex_index_key sch (row_fields row) im = Some (Inr key) \<longrightarrow>
        ixs' (im_index_id im) = map_option (\<lambda>m. m(key := None)) (?ixs1 (im_index_id im))"
    "\<forall>i. i \<notin> im_index_id ` set ims \<longrightarrow> ixs' i = ?ixs1 i"
    by blast
  have own: "ixs' (im_index_id im) = Some (m(key := None))" using ih(3) nin by simp
  have oth: "?ixs1 (im_index_id im') = ixs (im_index_id im')" if "im' \<in> set ims" for im'
  proof -
    have "im_index_id im' \<noteq> im_index_id im" using that nin by (metis image_eqI)
    then show ?thesis by simp
  qed
  have st: "ex_remove_entries map_index sch row rid (im # ims) ixs = Some (Inr ixs')" using ih(1) k m r by simp
  have a: "\<forall>im'\<in>set (im # ims). \<forall>key'. ex_index_key sch (row_fields row) im' = Some (Inr key') \<longrightarrow>
             ixs' (im_index_id im') = map_option (\<lambda>m. m(key' := None)) (ixs (im_index_id im'))"
  proof (intro ballI allI impI)
    fix im' key' assume i: "im' \<in> set (im # ims)" and k': "ex_index_key sch (row_fields row) im' = Some (Inr key')"
    show "ixs' (im_index_id im') = map_option (\<lambda>m. m(key' := None)) (ixs (im_index_id im'))"
    proof (cases "im' = im")
      case True
      then show ?thesis using own k k' m by simp
    next
      case False
      then have "im' \<in> set ims" using i by simp
      then show ?thesis using ih(2) k' oth by metis
    qed
  qed
  have b: "\<forall>i. i \<notin> im_index_id ` set (im # ims) \<longrightarrow> ixs' i = ixs i" using ih(3) by auto
  show ?case using st a b by blast
qed simp

text \<open>The scan with a body that keeps the heap well formed and its slot
  positions, and changes the liveness of the current row at most, visits from
  any slot position the live rows after it in the heap as it was, and does with
  each what the loop over their row ids does.\<close>

lemma ex_heap_loop_rids:
  assumes body: "\<And>row rid st1 st' h'. ex_heaps st1 tid = Some h' \<Longrightarrow> th_wf sz h' ps \<Longrightarrow> th_slots h' ps = S \<Longrightarrow>
      rid \<in> set S \<Longrightarrow> th_live h' rid \<Longrightarrow> body row rid st1 = Some (Inr st') \<Longrightarrow>
      \<exists>h2. ex_heaps st' tid = Some h2 \<and> th_wf sz h2 ps \<and> th_slots h2 ps = S \<and> (\<forall>x. x \<noteq> rid \<longrightarrow> th_live h2 x = th_live h' x)"
  shows "th_wf sz h ps \<Longrightarrow> ex_heaps st tid = Some h \<Longrightarrow> th_slots h ps = S \<Longrightarrow>
    ti_id it = rid_head (filter (th_live h) (drop k S)) \<Longrightarrow>
    ex_heap_loop fc fi fcmp sch tid w body it st = ex_rids_loop fc fi fcmp sch tid w body (filter (th_live h) (drop k S)) st"
proof (induction "length S - k" arbitrary: k h st it rule: less_induct)
  case less
  note wf = less.prems(1)
  have ch: "th_chain h (th_first_page_id h) ps" and ok: "list_all (th_page_ok sz h) ps"
    and inv: "th_pages h INVALID_PAGE_ID = None" and dps: "distinct ps" using wf by (auto simp: th_wf_def)
  show ?case
  proof (cases "filter (th_live h) (drop k S)")
    case Nil
    then show ?thesis using less.prems(4)
      by (subst ex_heap_loop.simps) (simp add: rid_head_def TI_Neq_def TH_End_def TableIterator_def)
  next
    case (Cons r rest)
    obtain j where j: "k \<le> j" "j < length S" "S ! j = r" "th_live h r" "rest = filter (th_live h) (drop (Suc j) S)"
      using filter_drop_Cons[OF Cons] by blast
    have rS: "r \<in> set S" using j(2,3) by auto
    then have q: "rid_page_id r \<in> set ps" using th_slots_pages less.prems(3) by blast
    then have ne: "r \<noteq> INVALID_ROWID" using th_chain_mem[OF ch q] INVALID_ROWID_page by blast
    obtain row where g: "TH_GetTuple r h = (True, Some row)"
      using j(4) by (auto simp: th_live_def TH_GetTuple_def split: option.splits)
    have itr: "ti_id it = r" using less.prems(4) Cons by (simp add: rid_head_def)
    have dr1: "TI_Deref h it = it\<lparr>ti_row := Some row\<rparr>" using g itr by (simp add: TI_Deref_def)
    have nx: "ti_next h r = Some (rid_head rest)"
      using ti_next_slots[OF ch ok inv, of j] j less.prems(3) by simp
    have lt: "length S - Suc j < length S - k" using j by simp
    have dS: "distinct S" using distinct_th_slots[OF dps ok] less.prems(3) by simp
    have sc: "ex_heap_loop fc fi fcmp sch tid w body it st =
      do { m \<leftarrow> ex_where_holds fc fi fcmp w sch row;
           if \<not> m then do { (_, it2) \<leftarrow> TI_PostInc h (it\<lparr>ti_row := Some row\<rparr>);
                             ex_heap_loop fc fi fcmp sch tid w body it2 st }
           else do {
             r' \<leftarrow> body row r st;
             (case r' of
                Inl (status, st1) \<Rightarrow> Some (status, st1)
              | Inr st1 \<Rightarrow> do {
                  h2 \<leftarrow> ex_heaps st1 tid;
                  (_, it2) \<leftarrow> TI_PostInc h2 (it\<lparr>ti_row := Some row\<rparr>);
                  ex_heap_loop fc fi fcmp sch tid w body it2 st1 }) } }"
      by (subst ex_heap_loop.simps) (simp add: itr ne TI_Neq_def TH_End_def TableIterator_def less.prems(2) Let_def,
          simp only: dr1, simp add: itr cong: if_cong)
    have rd: "ex_rids_loop fc fi fcmp sch tid w body (r # rest) st =
      do { m \<leftarrow> ex_where_holds fc fi fcmp w sch row;
           if \<not> m then ex_rids_loop fc fi fcmp sch tid w body rest st
           else do {
             r' \<leftarrow> body row r st;
             (case r' of
                Inl (status, st1) \<Rightarrow> Some (status, st1)
              | Inr st1 \<Rightarrow> ex_rids_loop fc fi fcmp sch tid w body rest st1) } }"
      by (simp add: less.prems(2) g)
    have skip: "ex_heap_loop fc fi fcmp sch tid w body (it\<lparr>ti_row := Some row, ti_id := rid_head rest\<rparr>) st =
                ex_rids_loop fc fi fcmp sch tid w body rest st"
      using less.hyps[OF lt wf less.prems(2,3)] j(5) by simp
    have step: "\<exists>h2. ex_heaps st1 tid = Some h2 \<and> ti_next h2 r = Some (rid_head rest) \<and>
               ex_heap_loop fc fi fcmp sch tid w body (it\<lparr>ti_row := Some row, ti_id := rid_head rest\<rparr>) st1 =
               ex_rids_loop fc fi fcmp sch tid w body rest st1"
      if b: "body row r st = Some (Inr st1)" for st1
    proof -
      obtain h2 where h2: "ex_heaps st1 tid = Some h2" "th_wf sz h2 ps" "th_slots h2 ps = S"
        "\<forall>x. x \<noteq> r \<longrightarrow> th_live h2 x = th_live h x"
        using body[OF less.prems(2) wf less.prems(3) rS j(4) b] by blast
      have rest2: "filter (th_live h2) (drop (Suc j) S) = rest"
      proof -
        have "\<forall>x\<in>set (drop (Suc j) S). th_live h2 x = th_live h x"
          using distinct_nth_notin_drop[OF dS j(2)] j(3) h2(4) by metis
        then show ?thesis using j(5) filter_cong[OF refl, of _ "th_live h2" "th_live h"] by simp
      qed
      have ch2: "th_chain h2 (th_first_page_id h2) ps" and ok2: "list_all (th_page_ok sz h2) ps"
        and inv2: "th_pages h2 INVALID_PAGE_ID = None" using h2(2) by (auto simp: th_wf_def)
      have "ti_next h2 r = Some (rid_head rest)"
        using ti_next_slots[OF ch2 ok2 inv2, of j] j h2(3) rest2 by simp
      then show ?thesis
        using h2(1) less.hyps[OF lt h2(2) h2(1) h2(3), of "it\<lparr>ti_row := Some row, ti_id := rid_head rest\<rparr>"] rest2 by simp
    qed
    show ?thesis unfolding Cons sc rd
      using nx skip step itr
      by (auto simp: TI_PostInc_def TI_Inc_def split: Option.bind_split sum.split prod.split)
  qed
qed

text \<open>The scan from \<open>Begin\<close>, on a well-formed heap whose first page holds a
  live row, is the loop over all live row ids of the heap.\<close>

lemma ex_heap_loop_Begin:
  assumes body: "\<And>row rid st1 st' h'. ex_heaps st1 tid = Some h' \<Longrightarrow> th_wf sz h' ps \<Longrightarrow> th_slots h' ps = th_slots h ps \<Longrightarrow>
      rid \<in> set (th_slots h ps) \<Longrightarrow> th_live h' rid \<Longrightarrow> body row rid st1 = Some (Inr st') \<Longrightarrow>
      \<exists>h2. ex_heaps st' tid = Some h2 \<and> th_wf sz h2 ps \<and> th_slots h2 ps = th_slots h ps \<and> (\<forall>x. x \<noteq> rid \<longrightarrow> th_live h2 x = th_live h' x)"
    and wf: "th_wf sz h ps" and hp: "ex_heaps st tid = Some h"
    and fp: "th_pages h (th_first_page_id h) = Some p" "tp_live p \<noteq> []"
  shows "TH_Begin h = Some (TableIterator (hd (tp_live p))) \<and>
         ex_heap_loop fc fi fcmp sch tid w body (TableIterator (hd (tp_live p))) st =
         ex_rids_loop fc fi fcmp sch tid w body (th_rids h ps) st"
proof -
  have ok: "list_all (th_page_ok sz h) ps" and ne: "ps \<noteq> []"
    and ch0: "th_chain h (th_first_page_id h) ps" using wf by (auto simp: th_wf_def)
  then obtain qs where ps: "ps = th_first_page_id h # qs" by (cases ps) auto
  have hd: "rid_head (th_rids h ps) = hd (tp_live p)" using fp ps by (cases "tp_live p") (auto simp: rid_head_def)
  have "TH_Begin h = Some (TableIterator (hd (tp_live p)))"
    using fp by (auto simp: TH_Begin_def TablePage_GetFirstTupleRid_live neq_Nil_conv)
  then show ?thesis
    using ex_heap_loop_rids[OF body wf hp refl, where it = "TableIterator (hd (tp_live p))" and k = 0] th_rids_slots[OF ok] hd
    by (simp add: TableIterator_def)
qed

lemma ex_heap3_facts:
  "th_wf (Row_GetSerializedSize ex_fields) ex_heap3 [0]"
  "th_pages ex_heap3 (th_first_page_id ex_heap3) = Some ex_page3"
  "th_pages ex_heap3 0 = Some ex_page3"
  "tp_live ex_page3 = [\<lparr>rid_page_id = 0, rid_slot = 0\<rparr>, \<lparr>rid_page_id = 0, rid_slot = 1\<rparr>]"
  "th_rids ex_heap3 [0] = [\<lparr>rid_page_id = 0, rid_slot = 0\<rparr>, \<lparr>rid_page_id = 0, rid_slot = 1\<rparr>]"
  "th_table ex_heap3 [0] \<lparr>rid_page_id = 0, rid_slot = 0\<rparr> = Some \<lparr>row_rid = INVALID_ROWID, row_fields = [[49]]\<rparr>"
  "th_table ex_heap3 [0] \<lparr>rid_page_id = 0, rid_slot = 1\<rparr> = Some \<lparr>row_rid = INVALID_ROWID, row_fields = [[50]]\<rparr>"
  by (simp_all add: th_wf_def ex_heap3_def ex_heap_def ex_page3_def th_page_ok_def tp_ok_def tp_used_def slot_size_def
      Row_GetSerializedSize_def ex_fields_def TablePage_Init_def INVALID_PAGE_ID_def PAGE_SIZE_def SIZE_TABLE_PAGE_HEADER_def
      SIZE_SLOT_def tp_live_def live_slot_def th_table_def TH_GetTuple_def TablePage_GetTuple_def upt_rec new_table_page_def)

section \<open>Properties\<close>

text \<open>C37: \<open>EvaluateWhere\<close> returns the \<open>CmpBool\<close> of a comparison as
  \<open>bool\<close>, so a comparison with a null field, which \<open>Field\<close> answers with
  \<open>kNull\<close>, counts as true: a row whose column \<open>a\<close> is null satisfies
  \<open>a = v and a <> v\<close>.\<close>

theorem EvaluateWhere_null_both:
  assumes ci: "Schema_GetColumnIndex sch a = Some i" and rng: "unat i < length (row_fields row)"
    and null: "fld_IsNull fi (row_fields row ! unat i)"
    and cmp: "\<forall>x y. fld_IsNull fi x \<longrightarrow> CompareEquals fcmp x y = kNull \<and> CompareNotEquals fcmp x y = kNull"
    and rf: "ex_right_field fc (col_type (sch_columns sch ! unat i)) rn = Some (Inr r)"
  shows "ex_eval_where fc fi fcmp (WConnector kw_and (WCompare kw_eq a rn) (WCompare kw_ne a rn)) sch row DB_SUCCESS =
           Some (True, DB_SUCCESS)"
  using ci rng null cmp rf ex_right_field_not_null[OF rf] by (simp add: cmp_to_bool_def)

section \<open>Witnesses\<close>

theorem EvaluateWhere_null_both_witness:
  "ex_eval_where ex_ctor ex_fields ex_cmp (WConnector kw_and (WCompare kw_eq [97] (kNodeNumber, [49])) (WCompare kw_ne [97] (kNodeNumber, [49])))
     (tm_schema cat_example_table) \<lparr>row_rid = INVALID_ROWID, row_fields = [[]]\<rparr> DB_SUCCESS = Some (True, DB_SUCCESS)"
proof -
  have h: "Schema_GetColumnIndex (tm_schema cat_example_table) [97] = Some 0"
    "unat (0::32 word) < length (row_fields \<lparr>row_rid = INVALID_ROWID, row_fields = [[]::byte list]\<rparr>)"
    "fld_IsNull ex_fields (row_fields \<lparr>row_rid = INVALID_ROWID, row_fields = [[]::byte list]\<rparr> ! unat (0::32 word))"
    "\<forall>x y. fld_IsNull ex_fields x \<longrightarrow> CompareEquals ex_cmp x y = kNull \<and> CompareNotEquals ex_cmp x y = kNull"
    "ex_right_field ex_ctor (col_type (sch_columns (tm_schema cat_example_table) ! unat (0::32 word))) (kNodeNumber, [49]) = Some (Inr [49])"
    by (simp_all add: Schema_GetColumnIndex_def cat_example_table_def ex_fields_def ex_cmp_def ex_cmp_by_def ex_right_field_def ex_ctor_def)
  show ?thesis using EvaluateWhere_null_both[OF h] .
qed

end
