(* ===== verification/Executor_Delete.thy ===== *)
theory Executor_Delete
  imports Executor_Where
begin

text \<open>
  \<open>ExecuteDelete\<close> of the execution engine (\<^verbatim>\<open>src/src/executor/execute_engine.cpp\<close>):
  the body that deletes one row, its two loops (the scan of the heap when no
  index is chosen, the row ids of an index lookup otherwise) and the
  \<open>Destroy\<close> of the indexes after a delete without \<open>where\<close>.  The lemmas show
  that the scan path is the row-id loop over the rows the heap held before the
  delete, and what that loop does with a map as index.
\<close>

section \<open>ExecuteDelete\<close>

text \<open>Deleting one row that matched: \<open>MarkDelete\<close> (its result is only
  logged), the index entries (in the scan only when there is a \<open>where\<close>
  clause), \<open>ApplyDelete\<close> and the count. \<open>Inl\<close> is a return from inside the
  loop, with the row marked deleted and the indexes changed so far.\<close>

definition ex_delete_row ::
  "'f field_iface \<Rightarrow> ('f, 'ix) index_iface \<Rightarrow> schema \<Rightarrow> table_id \<Rightarrow> index_metadata list \<Rightarrow> bool \<Rightarrow> 'f row \<Rightarrow> row_id \<Rightarrow>
   ('f, 'ix) exec_state \<Rightarrow> ((dberr_t \<times> ('f, 'ix) exec_state) + ('f, 'ix) exec_state) option" where
  "ex_delete_row fi ii sch tid indexes remove row rid st =
     do { h \<leftarrow> ex_heaps st tid;
          (_, h1) \<leftarrow> TH_MarkDelete rid h;
          let st1 = st\<lparr>ex_heaps := (ex_heaps st)(tid \<mapsto> h1)\<rparr>;
          r \<leftarrow> (if remove then ex_remove_entries ii sch row rid indexes (ex_index st) else Some (Inr (ex_index st)));
          (case r of
             Inl (status, ixs) \<Rightarrow> Some (Inl (status, st1\<lparr>ex_index := ixs\<rparr>))
           | Inr ixs \<Rightarrow> do {
               h2 \<leftarrow> TH_ApplyDelete (Row_GetSerializedSize fi) rid h1;
               Some (Inr (st\<lparr>ex_heaps := (ex_heaps st)(tid \<mapsto> h2), ex_index := ixs,
                            ex_affected := ex_affected st + 1\<rparr>)) }) }"

text \<open>The scan of the heap that deletes as it goes; the index entries of a
  deleted row are removed only when there is a \<open>where\<close> clause.\<close>

definition ex_delete_scan ::
  "'f field_ctor \<Rightarrow> 'f field_iface \<Rightarrow> 'f field_cmp \<Rightarrow> ('f, 'ix) index_iface \<Rightarrow> schema \<Rightarrow> table_id \<Rightarrow>
   index_metadata list \<Rightarrow> WhereNode option \<Rightarrow> 'f row table_iterator \<Rightarrow> ('f, 'ix) exec_state \<Rightarrow>
   (dberr_t \<times> ('f, 'ix) exec_state) option" where
  "ex_delete_scan fc fi fcmp ii sch tid indexes where_node it st =
     ex_heap_loop fc fi fcmp sch tid where_node (ex_delete_row fi ii sch tid indexes (where_node \<noteq> None)) it st"

text \<open>The loop over the row ids an index lookup returned.\<close>

definition ex_delete_rids ::
  "'f field_ctor \<Rightarrow> 'f field_iface \<Rightarrow> 'f field_cmp \<Rightarrow> ('f, 'ix) index_iface \<Rightarrow> schema \<Rightarrow> table_id \<Rightarrow>
   index_metadata list \<Rightarrow> WhereNode option \<Rightarrow> row_id list \<Rightarrow> ('f, 'ix) exec_state \<Rightarrow>
   (dberr_t \<times> ('f, 'ix) exec_state) option" where
  "ex_delete_rids fc fi fcmp ii sch tid indexes where_node =
     ex_rids_loop fc fi fcmp sch tid where_node (ex_delete_row fi ii sch tid indexes True)"

text \<open>After a delete without \<open>where\<close>: \<open>Destroy\<close> on every index of the table.\<close>

fun ex_destroy_indexes ::
  "('f, 'ix) index_iface \<Rightarrow> index_metadata list \<Rightarrow> ('f, 'ix) exec_state \<Rightarrow> (dberr_t \<times> ('f, 'ix) exec_state) option" where
  "ex_destroy_indexes ii [] st = Some (DB_SUCCESS, st)"
| "ex_destroy_indexes ii (im # ims) st =
     do { ix \<leftarrow> ex_index st (im_index_id im);
          let (s, ix') = ix_Destroy ii ix;
          let st1 = st\<lparr>ex_index := (ex_index st)(im_index_id im \<mapsto> ix')\<rparr>;
          if s \<noteq> DB_SUCCESS then Some (s, st1) else ex_destroy_indexes ii ims st1 }"

definition ExecuteDelete ::
  "'f field_ctor \<Rightarrow> 'f field_iface \<Rightarrow> 'f field_cmp \<Rightarrow> ('f, 'ix) index_iface \<Rightarrow> byte list \<Rightarrow> WhereNode option \<Rightarrow>
   ('f, 'ix) exec_state \<Rightarrow> (dberr_t \<times> ('f, 'ix) exec_state) option" where
  "ExecuteDelete fc fi fcmp ii table_name where_node st =
     do { (status, tmo) \<leftarrow> GetTable table_name (ex_catalog st);
          if status \<noteq> DB_SUCCESS then Some (status, st)
          else do {
            table_info \<leftarrow> tmo;
            (s2, indexes) \<leftarrow> GetTableIndexes table_name [] (ex_catalog st);
            if s2 \<noteq> DB_SUCCESS then Some (s2, st)
            else do {
              let sch = tm_schema table_info;
              let tid = tm_table_id table_info;
              (use_index, pick, err) \<leftarrow> ChooseIndex fc sch indexes where_node;
              if err \<noteq> DB_SUCCESS then Some (err, st)
              else if \<not> use_index then do {
                h \<leftarrow> ex_heaps st tid;
                it \<leftarrow> TH_Begin h;
                (r, st1) \<leftarrow> ex_delete_scan fc fi fcmp ii sch tid indexes where_node it st;
                if r \<noteq> DB_SUCCESS then Some (r, st1)
                else if where_node = None then ex_destroy_indexes ii indexes st1
                else Some (DB_SUCCESS, st1) }
              else do {
                (pindex, key) \<leftarrow> pick;
                ix \<leftarrow> ex_index st (im_index_id pindex);
                let (_, res) = ix_ScanKey ii key ix;
                ex_delete_rids fc fi fcmp ii sch tid indexes where_node res st } } } }"

text \<open>Specification: a row of the table is deleted when the \<open>where\<close> clause
  evaluates to true on it; the keys an index loses are those of the deleted rows.\<close>

definition ex_where_matches ::
  "'f field_ctor \<Rightarrow> 'f field_iface \<Rightarrow> 'f field_cmp \<Rightarrow> WhereNode option \<Rightarrow> schema \<Rightarrow> 'f row option \<Rightarrow> bool" where
  "ex_where_matches fc fi fcmp w sch ro =
     (case ro of None \<Rightarrow> False | Some row \<Rightarrow> ex_where_holds fc fi fcmp w sch row = Some True)"

definition ex_deleted_keys ::
  "'f field_ctor \<Rightarrow> 'f field_iface \<Rightarrow> 'f field_cmp \<Rightarrow> WhereNode option \<Rightarrow> schema \<Rightarrow> (row_id \<Rightarrow> 'f row option) \<Rightarrow>
   row_id list \<Rightarrow> index_metadata \<Rightarrow> 'f list list" where
  "ex_deleted_keys fc fi fcmp w sch tbl rids im =
     concat (map (\<lambda>x. case tbl x of
                        Some row \<Rightarrow> (if ex_where_matches fc fi fcmp w sch (Some row)
                                     then (case ex_index_key sch (row_fields row) im of Some (Inr key) \<Rightarrow> [key] | _ \<Rightarrow> [])
                                     else [])
                      | None \<Rightarrow> []) rids)"

section \<open>Lemmas\<close>



lemma ex_delete_row_heap:
  "ex_delete_row fi ii sch tid ims rm row rid st = Some (Inr st1) \<Longrightarrow> ex_heaps st tid = Some h \<Longrightarrow>
   TH_MarkDelete rid h = Some (b, h1) \<Longrightarrow> TH_ApplyDelete (Row_GetSerializedSize fi) rid h1 = Some h2 \<Longrightarrow>
   ex_heaps st1 = (ex_heaps st)(tid \<mapsto> h2)"
  by (auto simp: ex_delete_row_def split: if_splits sum.splits prod.splits Option.bind_splits)

text \<open>The delete of one row keeps the heap well formed and its slot
  positions, and kills the row alone.\<close>

lemma ex_delete_row_keeps:
  assumes "ex_heaps st tid = Some h" "th_wf (Row_GetSerializedSize fi) h ps" "th_slots h ps = S" "rid \<in> set S"
    "th_live h rid" "ex_delete_row fi ii sch tid ims rm row rid st = Some (Inr st')"
  shows "\<exists>h2. ex_heaps st' tid = Some h2 \<and> th_wf (Row_GetSerializedSize fi) h2 ps \<and> th_slots h2 ps = S \<and>
           (\<forall>x. x \<noteq> rid \<longrightarrow> th_live h2 x = th_live h x)"
proof -
  have q: "rid_page_id rid \<in> set ps" using assms(3,4) th_slots_pages by blast
  obtain h1 h2 where d: "TH_MarkDelete rid h = Some (True, h1)" "TH_ApplyDelete (Row_GetSerializedSize fi) rid h1 = Some h2"
    "th_wf (Row_GetSerializedSize fi) h2 ps" "\<forall>qs. th_slots h2 qs = th_slots h qs" "th_live h2 = (th_live h)(rid := False)"
    using th_delete_row[OF assms(2) q] by blast
  then show ?thesis using ex_delete_row_heap[OF assms(6,1) d(1,2)] assms(3) by auto
qed

lemma ExecuteDelete_scan_path:
  assumes gt: "GetTable t (ex_catalog st) = Some (DB_SUCCESS, Some tm)"
    and gi: "GetTableIndexes t [] (ex_catalog st) = Some (DB_SUCCESS, ims)"
    and ch: "ChooseIndex fc (tm_schema tm) ims (Some w) = Some (False, pick, DB_SUCCESS)"
    and hp: "ex_heaps st (tm_table_id tm) = Some h" and wf: "th_wf (Row_GetSerializedSize fi) h ps"
    and fp: "th_pages h (th_first_page_id h) = Some p" "tp_live p \<noteq> []"
  shows "ExecuteDelete fc fi fcmp ii t (Some w) st =
         ex_delete_rids fc fi fcmp ii (tm_schema tm) (tm_table_id tm) ims (Some w) (th_rids h ps) st"
proof -
  note lp = ex_heap_loop_Begin[OF ex_delete_row_keeps wf hp fp, where fc = fc and fcmp = fcmp and w = "Some w"]
  show ?thesis using gt gi ch hp lp
    by (auto simp: ExecuteDelete_def ex_delete_scan_def ex_delete_rids_def Let_def split: Option.bind_split prod.split)
qed

lemma ex_deleted_keys_cong:
  "\<forall>y\<in>set xs. t1 y = t2 y \<Longrightarrow> ex_deleted_keys fc fi fcmp w sch t1 xs im = ex_deleted_keys fc fi fcmp w sch t2 xs im"
  unfolding ex_deleted_keys_def by (induction xs) auto

lemma ex_delete_rids_map:
  assumes "th_wf (Row_GetSerializedSize fi) h ps" and "ex_heaps st tid = Some h"
    and "distinct rids" and "\<forall>x\<in>set rids. th_table h ps x \<noteq> None"
    and "\<forall>x\<in>set rids. \<forall>row. th_table h ps x = Some row \<longrightarrow> ex_where_holds fc fi fcmp w sch row \<noteq> None"
    and "\<forall>x\<in>set rids. \<forall>row. th_table h ps x = Some row \<longrightarrow>
           (\<forall>im\<in>set ims. \<exists>key. ex_index_key sch (row_fields row) im = Some (Inr key))"
    and "\<forall>im\<in>set ims. ex_index st (im_index_id im) \<noteq> None" and "distinct (map im_index_id ims)"
  shows "\<exists>st' h'. ex_delete_rids fc fi fcmp map_index sch tid ims w rids st = Some (DB_SUCCESS, st') \<and>
     ex_heaps st' = (ex_heaps st)(tid \<mapsto> h') \<and> th_wf (Row_GetSerializedSize fi) h' ps \<and>
     th_table h' ps = (\<lambda>x. if x \<in> set rids \<and> ex_where_matches fc fi fcmp w sch (th_table h ps x) then None else th_table h ps x) \<and>
     ex_affected st' = ex_affected st + length (filter (\<lambda>x. ex_where_matches fc fi fcmp w sch (th_table h ps x)) rids) \<and>
     ex_catalog st' = ex_catalog st \<and>
     (\<forall>im\<in>set ims. ex_index st' (im_index_id im) =
        map_option (\<lambda>m. m |` (- set (ex_deleted_keys fc fi fcmp w sch (th_table h ps) rids im))) (ex_index st (im_index_id im))) \<and>
     (\<forall>i. i \<notin> im_index_id ` set ims \<longrightarrow> ex_index st' i = ex_index st i)"
  using assms
proof (induction rids arbitrary: st h)
  case Nil
  then show ?case by (intro exI[of _ st] exI[of _ h]) (auto simp: ex_deleted_keys_def map_upd_triv option.map_ident ex_delete_rids_def)
next
  case (Cons x xs)
  obtain row where row: "th_table h ps x = Some row" using Cons.prems(4) by auto
  have g: "TH_GetTuple x h = (True, Some row)" using th_table_GetTuple[OF row] .
  have q: "rid_page_id x \<in> set ps" using th_table_Some[OF row] by blast
  obtain b where b: "ex_where_holds fc fi fcmp w sch row = Some b" using Cons.prems(5) row by auto
  have rd: "ex_delete_rids fc fi fcmp map_index sch tid ims w (x # xs) st =
    (if \<not> b then ex_delete_rids fc fi fcmp map_index sch tid ims w xs st
     else do { r \<leftarrow> ex_delete_row fi map_index sch tid ims True row x st;
               (case r of Inl (status, st1) \<Rightarrow> Some (status, st1)
                 | Inr st1 \<Rightarrow> ex_delete_rids fc fi fcmp map_index sch tid ims w xs st1) })"
    using Cons.prems(2) g b by (simp add: ex_delete_rids_def cong: if_cong sum.case_cong)
  show ?case
  proof (cases b)
    case False
    then have nm: "\<not> ex_where_matches fc fi fcmp w sch (th_table h ps x)" using row b by (simp add: ex_where_matches_def)
    have "ex_deleted_keys fc fi fcmp w sch (th_table h ps) (x # xs) im = ex_deleted_keys fc fi fcmp w sch (th_table h ps) xs im" for im
      using nm row by (simp add: ex_deleted_keys_def)
    then show ?thesis using Cons.IH[OF Cons.prems(1,2)] Cons.prems(3-8) rd False nm by (auto simp: fun_eq_iff)
  next
    case True
    then have mt: "ex_where_matches fc fi fcmp w sch (Some row)" using b by (simp add: ex_where_matches_def)
    obtain h1 h2 where d: "TH_MarkDelete x h = Some (True, h1)" "TH_ApplyDelete (Row_GetSerializedSize fi) x h1 = Some h2"
      "th_wf (Row_GetSerializedSize fi) h2 ps" "th_table h2 ps = (th_table h ps)(x := None)"
      using th_delete_row[OF Cons.prems(1) q] by blast
    have kx: "\<forall>im\<in>set ims. \<exists>key. ex_index_key sch (row_fields row) im = Some (Inr key)" using Cons.prems(6) row by simp
    obtain ixs' where ixs': "ex_remove_entries map_index sch row x ims (ex_index st) = Some (Inr ixs')"
      "\<forall>im\<in>set ims. \<forall>key. ex_index_key sch (row_fields row) im = Some (Inr key) \<longrightarrow>
         ixs' (im_index_id im) = map_option (\<lambda>m. m(key := None)) (ex_index st (im_index_id im))"
      "\<forall>i. i \<notin> im_index_id ` set ims \<longrightarrow> ixs' i = ex_index st i"
      using ex_remove_entries_map[OF kx Cons.prems(7,8), of x] by blast
    define st1 where "st1 = st\<lparr>ex_heaps := (ex_heaps st)(tid \<mapsto> h2), ex_index := ixs', ex_affected := ex_affected st + 1\<rparr>"
    have dl: "ex_delete_row fi map_index sch tid ims True row x st = Some (Inr st1)"
      using Cons.prems(2) d(1,2) ixs'(1) by (simp add: ex_delete_row_def st1_def)
    have nx: "x \<notin> set xs" using Cons.prems(3) by simp
    have tbl: "\<forall>y\<in>set xs. th_table h2 ps y = th_table h ps y" using nx d(4) by auto
    have ix1: "\<forall>im\<in>set ims. ex_index st1 (im_index_id im) \<noteq> None"
      using ixs'(2) kx Cons.prems(7) by (fastforce simp: st1_def)
    have hp1: "ex_heaps st1 tid = Some h2" by (simp add: st1_def)
    have pre: "distinct xs" "\<forall>y\<in>set xs. th_table h2 ps y \<noteq> None"
      "\<forall>y\<in>set xs. \<forall>row. th_table h2 ps y = Some row \<longrightarrow> ex_where_holds fc fi fcmp w sch row \<noteq> None"
      "\<forall>y\<in>set xs. \<forall>row. th_table h2 ps y = Some row \<longrightarrow>
           (\<forall>im\<in>set ims. \<exists>key. ex_index_key sch (row_fields row) im = Some (Inr key))"
      using Cons.prems(3-6) tbl by auto
    from Cons.IH[OF d(3) hp1 pre ix1 Cons.prems(8)]
    obtain st' h' where ih: "ex_delete_rids fc fi fcmp map_index sch tid ims w xs st1 = Some (DB_SUCCESS, st')"
      "ex_heaps st' = (ex_heaps st1)(tid \<mapsto> h')" "th_wf (Row_GetSerializedSize fi) h' ps"
      "th_table h' ps = (\<lambda>y. if y \<in> set xs \<and> ex_where_matches fc fi fcmp w sch (th_table h2 ps y) then None else th_table h2 ps y)"
      "ex_affected st' = ex_affected st1 + length (filter (\<lambda>y. ex_where_matches fc fi fcmp w sch (th_table h2 ps y)) xs)"
      "ex_catalog st' = ex_catalog st1"
      "\<forall>im\<in>set ims. ex_index st' (im_index_id im) =
        map_option (\<lambda>m. m |` (- set (ex_deleted_keys fc fi fcmp w sch (th_table h2 ps) xs im))) (ex_index st1 (im_index_id im))"
      "\<forall>i. i \<notin> im_index_id ` set ims \<longrightarrow> ex_index st' i = ex_index st1 i"
      by blast
    have t: "th_table h' ps = (\<lambda>y. if y \<in> set (x # xs) \<and> ex_where_matches fc fi fcmp w sch (th_table h ps y) then None else th_table h ps y)"
      using ih(4) tbl d(4) row mt by (auto simp: fun_eq_iff)
    have fl: "filter (\<lambda>y. ex_where_matches fc fi fcmp w sch (th_table h2 ps y)) xs =
              filter (\<lambda>y. ex_where_matches fc fi fcmp w sch (th_table h ps y)) xs"
      using tbl by (auto intro: filter_cong)
    have ik: "ex_index st' (im_index_id im) =
        map_option (\<lambda>m. m |` (- set (ex_deleted_keys fc fi fcmp w sch (th_table h ps) (x # xs) im))) (ex_index st (im_index_id im))"
      if im: "im \<in> set ims" for im
    proof -
      obtain key where k: "ex_index_key sch (row_fields row) im = Some (Inr key)" using kx im by blast
      let ?K = "set (ex_deleted_keys fc fi fcmp w sch (th_table h2 ps) xs im)"
      have eq: "ex_deleted_keys fc fi fcmp w sch (th_table h ps) (x # xs) im = key # ex_deleted_keys fc fi fcmp w sch (th_table h2 ps) xs im"
        using row mt k ex_deleted_keys_cong[OF tbl] by (simp add: ex_deleted_keys_def)
      have "ex_index st' (im_index_id im) = map_option (\<lambda>m. m |` (- ?K)) (ixs' (im_index_id im))"
        using ih(7) im by (simp add: st1_def)
      also have "\<dots> = map_option (\<lambda>m. (m(key := None)) |` (- ?K)) (ex_index st (im_index_id im))"
        using ixs'(2) k im by (cases "ex_index st (im_index_id im)") simp_all
      also have "\<dots> = map_option (\<lambda>m. m |` (- insert key ?K)) (ex_index st (im_index_id im))"
        by (simp only: restrict_upd_None)
      finally show ?thesis unfolding eq list.set(2) .
    qed
    have run: "ex_delete_rids fc fi fcmp map_index sch tid ims w (x # xs) st = Some (DB_SUCCESS, st')"
      using rd True dl ih(1) by simp
    have aff: "ex_affected st' = ex_affected st + length (filter (\<lambda>y. ex_where_matches fc fi fcmp w sch (th_table h ps y)) (x # xs))"
      using ih(5) fl row mt by (simp add: st1_def)
    have oth: "\<forall>i. i \<notin> im_index_id ` set ims \<longrightarrow> ex_index st' i = ex_index st i" using ih(8) ixs'(3) by (simp add: st1_def)
    show ?thesis using run ih(2,3,6) t aff ik oth
      by (intro exI[of _ st'] exI[of _ h']) (simp add: st1_def)
  qed
qed


lemma ex_delete_wit_hyps:
  fixes ix :: "index_id \<rightharpoonup> (byte list list \<rightharpoonup> row_id)"
  shows "GetTable [116] cat_example = Some (DB_SUCCESS, Some cat_example_table)"
  "GetTableIndexes [116] [] cat_example = Some (DB_SUCCESS, [cat_example_index])"
  "ChooseIndex ex_ctor (tm_schema cat_example_table) [cat_example_index] (Some (WCompare kw_ne [97] (kNodeNumber, [49]))) =
     Some (False, None, DB_SUCCESS)"
  "ex_where_holds ex_ctor ex_fields ex_cmp (Some (WCompare kw_ne [97] (kNodeNumber, [49]))) (tm_schema cat_example_table)
     \<lparr>row_rid = INVALID_ROWID, row_fields = [[49]]\<rparr> = Some False"
  "ex_where_holds ex_ctor ex_fields ex_cmp (Some (WCompare kw_ne [97] (kNodeNumber, [49]))) (tm_schema cat_example_table)
     \<lparr>row_rid = INVALID_ROWID, row_fields = [[50]]\<rparr> = Some True"
  "ex_index_key (tm_schema cat_example_table) [[49::byte]] cat_example_index = Some (Inr [[49]])"
  "ex_index_key (tm_schema cat_example_table) [[50::byte]] cat_example_index = Some (Inr [[50]])"
  by (simp_all add: GetTable_def GetTableIndexes_def cat_example_def ChooseIndex_def cat_example_table_def
      cat_example_index_def Schema_GetColumnIndex_def ex_key_names_def ex_column_ind_def kw_ne_def kw_is_def kw_not_def kw_eq_def
      ex_where_holds_def ex_right_field_def ex_ctor_def ex_cmp_def ex_cmp_by_def ex_num_def cmp_to_bool_def
      ex_index_key_def ex_key_columns_def)

section \<open>Properties\<close>

text \<open>C35: the scan path of \<open>ExecuteDelete\<close> (no index chosen for the
  \<open>where\<close> clause), which deletes rows while iterating over the heap, does
  exactly what the index path's loop does over the list of live row ids the heap
  held before the delete: deleting the current row never changes where \<open>it++\<close>
  goes next.  This holds when the first page of the heap holds a live row;
  otherwise \<open>Begin\<close> already returns \<open>End\<close> (the first-page defect of
  \<open>TableHeap::Begin\<close>) and
  the scan deletes nothing.\<close>

theorem ExecuteDelete_scan_rids:
  assumes gt: "GetTable t (ex_catalog st) = Some (DB_SUCCESS, Some tm)"
    and gi: "GetTableIndexes t [] (ex_catalog st) = Some (DB_SUCCESS, ims)"
    and ch: "ChooseIndex fc (tm_schema tm) ims (Some w) = Some (False, pick, DB_SUCCESS)"
    and hp: "ex_heaps st (tm_table_id tm) = Some h" and wf: "th_wf (Row_GetSerializedSize fi) h ps"
    and fp: "th_pages h (th_first_page_id h) = Some p" "tp_live p \<noteq> []"
  shows "ExecuteDelete fc fi fcmp ii t (Some w) st =
         ex_delete_rids fc fi fcmp ii (tm_schema tm) (tm_table_id tm) ims (Some w) (th_rids h ps) st"
  using ExecuteDelete_scan_path[OF gt gi ch hp wf fp] .

text \<open>C36: \<open>DELETE ... WHERE w\<close> on the scan path, with a map as index,
  deletes exactly the rows of the table on which \<open>w\<close> evaluates to true, keeps
  the heap well formed, counts the deleted rows, leaves the catalog alone and
  removes from each index of the table the keys of the deleted rows, and from
  no other index anything, provided the first page of the heap holds a live
  row (else the scan stops at once and nothing is deleted).\<close>

theorem ExecuteDelete_where_refines:
  fixes st :: "('f, 'f list \<rightharpoonup> row_id) exec_state"
  assumes gt: "GetTable t (ex_catalog st) = Some (DB_SUCCESS, Some tm)"
    and gi: "GetTableIndexes t [] (ex_catalog st) = Some (DB_SUCCESS, ims)"
    and ch: "ChooseIndex fc (tm_schema tm) ims (Some w) = Some (False, pick, DB_SUCCESS)"
    and hp: "ex_heaps st (tm_table_id tm) = Some h" and wf: "th_wf (Row_GetSerializedSize fi) h ps"
    and fp: "th_pages h (th_first_page_id h) = Some p" "tp_live p \<noteq> []"
    and ev: "\<forall>x\<in>set (th_rids h ps). \<forall>row. th_table h ps x = Some row \<longrightarrow> ex_where_holds fc fi fcmp (Some w) (tm_schema tm) row \<noteq> None"
    and ky: "\<forall>x\<in>set (th_rids h ps). \<forall>row. th_table h ps x = Some row \<longrightarrow>
               (\<forall>im\<in>set ims. \<exists>key. ex_index_key (tm_schema tm) (row_fields row) im = Some (Inr key))"
    and ix: "\<forall>im\<in>set ims. ex_index st (im_index_id im) \<noteq> None" and di: "distinct (map im_index_id ims)"
  shows "\<exists>st' h'. ExecuteDelete fc fi fcmp map_index t (Some w) st = Some (DB_SUCCESS, st') \<and>
     ex_heaps st' = (ex_heaps st)(tm_table_id tm \<mapsto> h') \<and> th_wf (Row_GetSerializedSize fi) h' ps \<and>
     th_table h' ps = (\<lambda>x. if ex_where_matches fc fi fcmp (Some w) (tm_schema tm) (th_table h ps x) then None else th_table h ps x) \<and>
     ex_affected st' = ex_affected st +
       length (filter (\<lambda>x. ex_where_matches fc fi fcmp (Some w) (tm_schema tm) (th_table h ps x)) (th_rids h ps)) \<and>
     ex_catalog st' = ex_catalog st \<and>
     (\<forall>im\<in>set ims. ex_index st' (im_index_id im) =
        map_option (\<lambda>m. m |` (- set (ex_deleted_keys fc fi fcmp (Some w) (tm_schema tm) (th_table h ps) (th_rids h ps) im)))
          (ex_index st (im_index_id im))) \<and>
     (\<forall>i. i \<notin> im_index_id ` set ims \<longrightarrow> ex_index st' i = ex_index st i)"
proof -
  have ok: "list_all (th_page_ok (Row_GetSerializedSize fi) h) ps" and dps: "distinct ps" using wf by (auto simp: th_wf_def)
  have dr: "distinct (th_rids h ps)" using distinct_th_slots[OF dps ok] th_rids_slots[OF ok] by simp
  have live: "\<forall>x\<in>set (th_rids h ps). th_table h ps x \<noteq> None" using th_rids_live[OF ok] by blast
  have tb: "(\<lambda>x. if x \<in> set (th_rids h ps) \<and> ex_where_matches fc fi fcmp (Some w) (tm_schema tm) (th_table h ps x) then None else th_table h ps x) =
            (\<lambda>x. if ex_where_matches fc fi fcmp (Some w) (tm_schema tm) (th_table h ps x) then None else th_table h ps x)"
    using th_table_rids[OF ok] by (fastforce simp: fun_eq_iff ex_where_matches_def split: option.splits)
  show ?thesis
    using ExecuteDelete_scan_path[OF gt gi ch hp wf fp, where fcmp=fcmp and ii=map_index]
      ex_delete_rids_map[OF wf hp dr live ev ky ix di] unfolding tb by simp
qed


section \<open>Witnesses\<close>

theorem ExecuteDelete_scan_rids_witness:
  "ExecuteDelete ex_ctor ex_fields ex_cmp map_index [116] (Some (WCompare kw_ne [97] (kNodeNumber, [49])))
     ((ex_state cat_example [0 \<mapsto> Map.empty])\<lparr>ex_heaps := [0 \<mapsto> ex_heap3]\<rparr>) =
   ex_delete_rids ex_ctor ex_fields ex_cmp map_index (tm_schema cat_example_table) 0 [cat_example_index]
     (Some (WCompare kw_ne [97] (kNodeNumber, [49]))) [\<lparr>rid_page_id = 0, rid_slot = 0\<rparr>, \<lparr>rid_page_id = 0, rid_slot = 1\<rparr>]
     ((ex_state cat_example [0 \<mapsto> Map.empty])\<lparr>ex_heaps := [0 \<mapsto> ex_heap3]\<rparr>)"
proof -
  define W :: "(byte list, byte list list \<rightharpoonup> row_id) exec_state" where
    "W = (ex_state cat_example [0 \<mapsto> Map.empty])\<lparr>ex_heaps := [0 \<mapsto> ex_heap3]\<rparr>"
  note h = ex_heap3_facts ex_delete_wit_hyps
  have c: "ex_catalog W = cat_example" "ex_heaps W (tm_table_id cat_example_table) = Some ex_heap3"
    "tm_table_id cat_example_table = 0" "tp_live ex_page3 \<noteq> []"
    using h(4) by (simp_all add: W_def ex_state_def cat_example_table_def)
  show ?thesis using ExecuteDelete_scan_rids[OF h(8)[folded c(1)] h(9)[folded c(1)] h(10) c(2) h(1) h(2) c(4)] h(5) c(3)
    unfolding W_def by (simp only:)
qed

theorem ExecuteDelete_where_refines_witness:
  "\<exists>st' h'. ExecuteDelete ex_ctor ex_fields ex_cmp map_index [116] (Some (WCompare kw_ne [97] (kNodeNumber, [49])))
       ((ex_state cat_example [0 \<mapsto> [[[49]] \<mapsto> \<lparr>rid_page_id = 0, rid_slot = 0\<rparr>, [[50]] \<mapsto> \<lparr>rid_page_id = 0, rid_slot = 1\<rparr>]])
          \<lparr>ex_heaps := [0 \<mapsto> ex_heap3]\<rparr>) = Some (DB_SUCCESS, st') \<and>
     ex_heaps st' 0 = Some h' \<and>
     th_table h' [0] \<lparr>rid_page_id = 0, rid_slot = 0\<rparr> = Some \<lparr>row_rid = INVALID_ROWID, row_fields = [[49]]\<rparr> \<and>
     th_table h' [0] \<lparr>rid_page_id = 0, rid_slot = 1\<rparr> = None \<and> ex_affected st' = 1 \<and>
     ex_index st' 0 = Some [[[49]] \<mapsto> \<lparr>rid_page_id = 0, rid_slot = 0\<rparr>]"
proof -
  define W :: "(byte list, byte list list \<rightharpoonup> row_id) exec_state" where
    "W = (ex_state cat_example [0 \<mapsto> [[[49]] \<mapsto> \<lparr>rid_page_id = 0, rid_slot = 0\<rparr>, [[50]] \<mapsto> \<lparr>rid_page_id = 0, rid_slot = 1\<rparr>]])
          \<lparr>ex_heaps := [0 \<mapsto> ex_heap3]\<rparr>"
  have c: "ex_catalog W = cat_example" "ex_heaps W (tm_table_id cat_example_table) = Some ex_heap3" "ex_affected W = 0"
    "ex_index W 0 = Some [[[49]] \<mapsto> \<lparr>rid_page_id = 0, rid_slot = 0\<rparr>, [[50]] \<mapsto> \<lparr>rid_page_id = 0, rid_slot = 1\<rparr>]"
    by (simp_all add: W_def ex_state_def cat_example_table_def)
  note h = ex_heap3_facts ex_delete_wit_hyps
  have hy: "\<forall>x\<in>set (th_rids ex_heap3 [0]). \<forall>row. th_table ex_heap3 [0] x = Some row \<longrightarrow>
      ex_where_holds ex_ctor ex_fields ex_cmp (Some (WCompare kw_ne [97] (kNodeNumber, [49]))) (tm_schema cat_example_table) row \<noteq> None"
    "\<forall>x\<in>set (th_rids ex_heap3 [0]). \<forall>row. th_table ex_heap3 [0] x = Some row \<longrightarrow>
      (\<forall>im\<in>set [cat_example_index]. \<exists>key. ex_index_key (tm_schema cat_example_table) (row_fields row) im = Some (Inr key))"
    "\<forall>im\<in>set [cat_example_index]. ex_index W (im_index_id im) \<noteq> None" "distinct (map im_index_id [cat_example_index])"
    using h c by (auto simp: cat_example_index_def)
  have m: "ex_where_matches ex_ctor ex_fields ex_cmp (Some (WCompare kw_ne [97] (kNodeNumber, [49]))) (tm_schema cat_example_table)
             (Some \<lparr>row_rid = INVALID_ROWID, row_fields = [[49]]\<rparr>) = False"
    "ex_where_matches ex_ctor ex_fields ex_cmp (Some (WCompare kw_ne [97] (kNodeNumber, [49]))) (tm_schema cat_example_table)
             (Some \<lparr>row_rid = INVALID_ROWID, row_fields = [[50]]\<rparr>) = True"
    using h by (simp_all add: ex_where_matches_def)
  have k: "ex_deleted_keys ex_ctor ex_fields ex_cmp (Some (WCompare kw_ne [97] (kNodeNumber, [49]))) (tm_schema cat_example_table)
             (th_table ex_heap3 [0]) (th_rids ex_heap3 [0]) cat_example_index = [[[50]]]"
    using h m by (simp add: ex_deleted_keys_def)
  have r: "[[[49::byte]] \<mapsto> \<lparr>rid_page_id = 0, rid_slot = 0\<rparr>, [[50]] \<mapsto> \<lparr>rid_page_id = 0, rid_slot = 1\<rparr>] |` (- {[[50]]}) =
           [[[49]] \<mapsto> \<lparr>rid_page_id = 0, rid_slot = 0\<rparr>]"
    by (auto simp: restrict_map_def fun_eq_iff)
  have tl: "tp_live ex_page3 \<noteq> []" using h(4) by simp
  obtain st' h' where e:
    "ExecuteDelete ex_ctor ex_fields ex_cmp map_index [116] (Some (WCompare kw_ne [97] (kNodeNumber, [49]))) W = Some (DB_SUCCESS, st')"
    "ex_heaps st' = (ex_heaps W)(tm_table_id cat_example_table \<mapsto> h')"
    "th_table h' [0] = (\<lambda>x. if ex_where_matches ex_ctor ex_fields ex_cmp (Some (WCompare kw_ne [97] (kNodeNumber, [49])))
        (tm_schema cat_example_table) (th_table ex_heap3 [0] x) then None else th_table ex_heap3 [0] x)"
    "ex_affected st' = ex_affected W + length (filter (\<lambda>x. ex_where_matches ex_ctor ex_fields ex_cmp
        (Some (WCompare kw_ne [97] (kNodeNumber, [49]))) (tm_schema cat_example_table) (th_table ex_heap3 [0] x)) (th_rids ex_heap3 [0]))"
    "\<forall>im\<in>set [cat_example_index]. ex_index st' (im_index_id im) =
        map_option (\<lambda>m. m |` (- set (ex_deleted_keys ex_ctor ex_fields ex_cmp (Some (WCompare kw_ne [97] (kNodeNumber, [49])))
          (tm_schema cat_example_table) (th_table ex_heap3 [0]) (th_rids ex_heap3 [0]) im))) (ex_index W (im_index_id im))"
    using ExecuteDelete_where_refines[where st = W and fc = ex_ctor and fi = ex_fields and fcmp = ex_cmp,
        OF h(8)[folded c(1)] h(9)[folded c(1)] h(10) c(2) h(1) h(2) tl hy]
    by blast
  have "ex_index st' 0 = Some [[[49]] \<mapsto> \<lparr>rid_page_id = 0, rid_slot = 0\<rparr>]"
    using e(5) k c(4) r by (simp add: cat_example_index_def)
  moreover have "th_table h' [0] \<lparr>rid_page_id = 0, rid_slot = 0\<rparr> = Some \<lparr>row_rid = INVALID_ROWID, row_fields = [[49]]\<rparr>"
    "th_table h' [0] \<lparr>rid_page_id = 0, rid_slot = 1\<rparr> = None" using e(3) h(6,7) m by simp_all
  moreover have "ex_affected st' = 1" using e(4) h(5,6,7) m c(3) by simp
  moreover have "ex_heaps st' 0 = Some h'" using e(2) by (simp add: cat_example_table_def)
  ultimately show ?thesis using e(1) unfolding W_def by blast
qed

end
