(* ===== verification/Executor_Update.thy ===== *)
theory Executor_Update
  imports Executor_Where
begin

text \<open>
  \<open>ExecuteUpdate\<close> of the execution engine (\<^verbatim>\<open>src/src/executor/execute_engine.cpp\<close>):
  the new values of the \<open>set\<close> clause, the body that updates one row (its keys
  removed from every index, \<open>UpdateTuple\<close> in place, the new keys inserted,
  a rejected key an \<open>ASSERT\<close> that aborts) and its two loops, which are those
  of the delete.  The lemmas show what the update of one row does, with a map as
  index: when the new row fits in place it refines the abstract update of the
  table and the indexes, and when it does not the indexes and the count change
  all the same while the table keeps the old row and the page stays latched.
\<close>

section \<open>ExecuteUpdate\<close>

text \<open>The \<open>set\<close> clause: each item, a column name and a value node, overwrites
  that column of the row's fields; a null needs a nullable column, and a value
  of the wrong node type or of an unsupported column type is \<open>DB_FAILED\<close>.\<close>

fun ex_set_values ::
  "'f field_ctor \<Rightarrow> schema \<Rightarrow> (byte list \<times> SyntaxNodeType \<times> byte list) list \<Rightarrow> 'f list \<Rightarrow> (dberr_t + 'f list) option" where
  "ex_set_values fc sch [] cols = Some (Inr cols)"
| "ex_set_values fc sch ((name, nt, v) # sets) cols =
     (case Schema_GetColumnIndex sch name of
        None \<Rightarrow> Some (Inl DB_COLUMN_NAME_NOT_EXIST)
      | Some ci \<Rightarrow>
          (let i = unat ci; c = sch_columns sch ! i in
           if nt = kNodeNull then
             (if col_nullable c then ex_set_values fc sch sets (cols[i := Field_null fc (col_type c)])
              else Some (Inl DB_FAILED))
           else do {
             rf \<leftarrow> ex_right_field fc (col_type c) (nt, v);
             (case rf of
                Inl e \<Rightarrow> Some (Inl e)
              | Inr f \<Rightarrow> ex_set_values fc sch sets (cols[i := f])) }))"

text \<open>\<open>InsertEntry\<close> of the updated row's key into every index; a rejected key
  fails \<open>ASSERT(false, "Update duplicate key")\<close>, which aborts.\<close>

fun ex_insert_entries ::
  "('f, 'ix) index_iface \<Rightarrow> schema \<Rightarrow> 'f list \<Rightarrow> row_id \<Rightarrow> index_metadata list \<Rightarrow> (index_id \<rightharpoonup> 'ix) \<Rightarrow>
   ((dberr_t \<times> (index_id \<rightharpoonup> 'ix)) + (index_id \<rightharpoonup> 'ix)) option" where
  "ex_insert_entries ii sch cols rid [] ixs = Some (Inr ixs)"
| "ex_insert_entries ii sch cols rid (im # ims) ixs =
     do { k \<leftarrow> ex_index_key sch cols im;
          (case k of
             Inl status \<Rightarrow> Some (Inl (status, ixs))
           | Inr key \<Rightarrow> do {
               ix \<leftarrow> ixs (im_index_id im);
               let (status, ix') = ix_InsertEntry ii key rid ix;
               if status \<noteq> DB_SUCCESS then None
               else ex_insert_entries ii sch cols rid ims (ixs(im_index_id im \<mapsto> ix')) }) }"

text \<open>Updating one row that matched: the new fields from the row's first
  \<open>GetColumnCount\<close> fields and the \<open>set\<close> clause, \<open>RemoveEntry\<close> of the old keys,
  \<open>UpdateTuple\<close> (its result is only logged), \<open>InsertEntry\<close> of the new keys and
  the count.  \<open>Inl\<close> is a return from inside the loop.\<close>

definition ex_update_row ::
  "'f field_ctor \<Rightarrow> 'f field_iface \<Rightarrow> ('f, 'ix) index_iface \<Rightarrow> schema \<Rightarrow> table_id \<Rightarrow> index_metadata list \<Rightarrow>
   (byte list \<times> SyntaxNodeType \<times> byte list) list \<Rightarrow> 'f row \<Rightarrow> row_id \<Rightarrow> ('f, 'ix) exec_state \<Rightarrow>
   ((dberr_t \<times> ('f, 'ix) exec_state) + ('f, 'ix) exec_state) option" where
  "ex_update_row fc fi ii sch tid indexes sets row rid st =
     do { let n = length (sch_columns sch);
          cols0 \<leftarrow> (if n \<le> length (row_fields row) then Some (take n (row_fields row)) else None);
          nc \<leftarrow> ex_set_values fc sch sets cols0;
          (case nc of
             Inl status \<Rightarrow> Some (Inl (status, st))
           | Inr cols \<Rightarrow> do {
               r \<leftarrow> ex_remove_entries ii sch row rid indexes (ex_index st);
               (case r of
                  Inl (status, ixs) \<Rightarrow> Some (Inl (status, st\<lparr>ex_index := ixs\<rparr>))
                | Inr ixs \<Rightarrow> do {
                    h \<leftarrow> ex_heaps st tid;
                    (_, h1) \<leftarrow> TH_UpdateTuple (Row_GetSerializedSize fi) \<lparr>row_rid = INVALID_ROWID, row_fields = cols\<rparr> rid h;
                    let st1 = st\<lparr>ex_heaps := (ex_heaps st)(tid \<mapsto> h1), ex_index := ixs\<rparr>;
                    r2 \<leftarrow> ex_insert_entries ii sch cols rid indexes ixs;
                    (case r2 of
                       Inl (status, ixs2) \<Rightarrow> Some (Inl (status, st1\<lparr>ex_index := ixs2\<rparr>))
                     | Inr ixs2 \<Rightarrow> Some (Inr (st1\<lparr>ex_index := ixs2, ex_affected := ex_affected st + 1\<rparr>))) }) }) }"

text \<open>The scan of the heap that updates as it goes, and the loop over the row
  ids of an index lookup.\<close>

definition ex_update_scan ::
  "'f field_ctor \<Rightarrow> 'f field_iface \<Rightarrow> 'f field_cmp \<Rightarrow> ('f, 'ix) index_iface \<Rightarrow> schema \<Rightarrow> table_id \<Rightarrow>
   index_metadata list \<Rightarrow> (byte list \<times> SyntaxNodeType \<times> byte list) list \<Rightarrow> WhereNode option \<Rightarrow>
   'f row table_iterator \<Rightarrow> ('f, 'ix) exec_state \<Rightarrow> (dberr_t \<times> ('f, 'ix) exec_state) option" where
  "ex_update_scan fc fi fcmp ii sch tid indexes sets where_node it st =
     ex_heap_loop fc fi fcmp sch tid where_node (ex_update_row fc fi ii sch tid indexes sets) it st"

definition ex_update_rids ::
  "'f field_ctor \<Rightarrow> 'f field_iface \<Rightarrow> 'f field_cmp \<Rightarrow> ('f, 'ix) index_iface \<Rightarrow> schema \<Rightarrow> table_id \<Rightarrow>
   index_metadata list \<Rightarrow> (byte list \<times> SyntaxNodeType \<times> byte list) list \<Rightarrow> WhereNode option \<Rightarrow>
   row_id list \<Rightarrow> ('f, 'ix) exec_state \<Rightarrow> (dberr_t \<times> ('f, 'ix) exec_state) option" where
  "ex_update_rids fc fi fcmp ii sch tid indexes sets where_node =
     ex_rids_loop fc fi fcmp sch tid where_node (ex_update_row fc fi ii sch tid indexes sets)"

definition ExecuteUpdate ::
  "'f field_ctor \<Rightarrow> 'f field_iface \<Rightarrow> 'f field_cmp \<Rightarrow> ('f, 'ix) index_iface \<Rightarrow> byte list \<Rightarrow>
   (byte list \<times> SyntaxNodeType \<times> byte list) list \<Rightarrow> WhereNode option \<Rightarrow>
   ('f, 'ix) exec_state \<Rightarrow> (dberr_t \<times> ('f, 'ix) exec_state) option" where
  "ExecuteUpdate fc fi fcmp ii table_name sets where_node st =
     do { (status, tmo) \<leftarrow> GetTable table_name (ex_catalog st);
          if status \<noteq> DB_SUCCESS then Some (status, st)
          else do {
            table_info \<leftarrow> tmo;
            (s2, indexes) \<leftarrow> GetTableIndexes table_name [] (ex_catalog st);
            if s2 \<noteq> DB_SUCCESS then Some (s2, st)
            else do {
              let sch = tm_schema table_info;
              let tid = tm_table_id table_info;
              (use_index, pick, err) \<leftarrow> ChooseIndex fc sch indexes where_node;
              if err \<noteq> DB_SUCCESS then Some (err, st)
              else if \<not> use_index then do {
                h \<leftarrow> ex_heaps st tid;
                it \<leftarrow> TH_Begin h;
                ex_update_scan fc fi fcmp ii sch tid indexes sets where_node it st }
              else do {
                (pindex, key) \<leftarrow> pick;
                ix \<leftarrow> ex_index st (im_index_id pindex);
                let (_, res) = ix_ScanKey ii key ix;
                ex_update_rids fc fi fcmp ii sch tid indexes sets where_node res st } } } }"

section \<open>Lemmas\<close>

text \<open>With a map as index, the insert loop adds the new key of every index when
  none of them holds it yet.\<close>

lemma ex_insert_entries_map:
  assumes "\<forall>im\<in>set ims. \<exists>key m. ex_index_key sch cols im = Some (Inr key) \<and> ixs (im_index_id im) = Some m \<and> m key = None"
    and "distinct (map im_index_id ims)"
  shows "\<exists>ixs'. ex_insert_entries map_index sch cols rid ims ixs = Some (Inr ixs') \<and>
           (\<forall>im\<in>set ims. \<forall>key. ex_index_key sch cols im = Some (Inr key) \<longrightarrow>
              ixs' (im_index_id im) = map_option (\<lambda>m. m(key \<mapsto> rid)) (ixs (im_index_id im))) \<and>
           (\<forall>i. i \<notin> im_index_id ` set ims \<longrightarrow> ixs' i = ixs i)"
  using assms
proof (induction ims arbitrary: ixs)
  case (Cons im ims)
  obtain key m where k: "ex_index_key sch cols im = Some (Inr key)" and m: "ixs (im_index_id im) = Some m"
    and f: "m key = None" using Cons.prems(1) by auto
  let ?ixs1 = "ixs(im_index_id im \<mapsto> m(key \<mapsto> rid))"
  have nin: "im_index_id im \<notin> im_index_id ` set ims" using Cons.prems(2) by simp
  have oth: "?ixs1 (im_index_id im') = ixs (im_index_id im')" if "im' \<in> set ims" for im'
  proof -
    have "im_index_id im' \<noteq> im_index_id im" using that nin by (metis image_eqI)
    then show ?thesis by simp
  qed
  have pre: "\<forall>im\<in>set ims. \<exists>key m. ex_index_key sch cols im = Some (Inr key) \<and> ?ixs1 (im_index_id im) = Some m \<and> m key = None"
    "distinct (map im_index_id ims)" using Cons.prems oth by auto
  from Cons.IH[OF pre] obtain ixs' where ih: "ex_insert_entries map_index sch cols rid ims ?ixs1 = Some (Inr ixs')"
    "\<forall>im\<in>set ims. \<forall>key. ex_index_key sch cols im = Some (Inr key) \<longrightarrow>
        ixs' (im_index_id im) = map_option (\<lambda>m. m(key \<mapsto> rid)) (?ixs1 (im_index_id im))"
    "\<forall>i. i \<notin> im_index_id ` set ims \<longrightarrow> ixs' i = ?ixs1 i" by blast
  have own: "ixs' (im_index_id im) = Some (m(key \<mapsto> rid))" using ih(3) nin by simp
  have st: "ex_insert_entries map_index sch cols rid (im # ims) ixs = Some (Inr ixs')"
    using ih(1) k m f by (simp add: map_index_def)
  have a: "\<forall>im'\<in>set (im # ims). \<forall>key'. ex_index_key sch cols im' = Some (Inr key') \<longrightarrow>
             ixs' (im_index_id im') = map_option (\<lambda>m. m(key' \<mapsto> rid)) (ixs (im_index_id im'))"
  proof (intro ballI allI impI)
    fix im' key' assume i: "im' \<in> set (im # ims)" and k': "ex_index_key sch cols im' = Some (Inr key')"
    show "ixs' (im_index_id im') = map_option (\<lambda>m. m(key' \<mapsto> rid)) (ixs (im_index_id im'))"
    proof (cases "im' = im")
      case True
      then show ?thesis using own k k' m by simp
    next
      case False
      then have "im' \<in> set ims" using i by simp
      then show ?thesis using ih(2) k' oth by metis
    qed
  qed
  have b: "\<forall>i. i \<notin> im_index_id ` set (im # ims) \<longrightarrow> ixs' i = ixs i" using ih(3) by auto
  show ?case using st a b by blast
qed simp

text \<open>With a map as index and the new and old keys of every index defined,
  the new key absent once the old one is removed, the update of one row runs to
  its end whatever \<open>UpdateTuple\<close> answers: each index maps the new key to the
  row instead of the old one, and the row is counted.\<close>

lemma ex_update_row_map:
  fixes st :: "('f, 'f list \<rightharpoonup> row_id) exec_state"
  assumes hp: "ex_heaps st tid = Some h"
    and n: "length (sch_columns sch) \<le> length (row_fields row)"
    and sv: "ex_set_values fc sch sets (take (length (sch_columns sch)) (row_fields row)) = Some (Inr cols)"
    and ut: "TH_UpdateTuple (Row_GetSerializedSize fi) \<lparr>row_rid = INVALID_ROWID, row_fields = cols\<rparr> rid h = Some (b, h')"
    and keys: "\<forall>im\<in>set ims. \<exists>ko kn m. ex_index_key sch (row_fields row) im = Some (Inr ko) \<and>
                 ex_index_key sch cols im = Some (Inr kn) \<and> ex_index st (im_index_id im) = Some m \<and> (m(ko := None)) kn = None"
    and di: "distinct (map im_index_id ims)"
  shows "\<exists>ixs2. ex_update_row fc fi map_index sch tid ims sets row rid st =
             Some (Inr (st\<lparr>ex_heaps := (ex_heaps st)(tid \<mapsto> h'), ex_index := ixs2, ex_affected := ex_affected st + 1\<rparr>)) \<and>
           (\<forall>im\<in>set ims. \<forall>ko kn. ex_index_key sch (row_fields row) im = Some (Inr ko) \<longrightarrow>
              ex_index_key sch cols im = Some (Inr kn) \<longrightarrow>
              ixs2 (im_index_id im) = map_option (\<lambda>m. (m(ko := None))(kn \<mapsto> rid)) (ex_index st (im_index_id im))) \<and>
           (\<forall>i. i \<notin> im_index_id ` set ims \<longrightarrow> ixs2 i = ex_index st i)"
proof -
  have ko: "\<forall>im\<in>set ims. \<exists>key. ex_index_key sch (row_fields row) im = Some (Inr key)"
    and ix: "\<forall>im\<in>set ims. ex_index st (im_index_id im) \<noteq> None" using keys by blast+
  obtain ixs where r: "ex_remove_entries map_index sch row rid ims (ex_index st) = Some (Inr ixs)"
    "\<forall>im\<in>set ims. \<forall>key. ex_index_key sch (row_fields row) im = Some (Inr key) \<longrightarrow>
       ixs (im_index_id im) = map_option (\<lambda>m. m(key := None)) (ex_index st (im_index_id im))"
    "\<forall>i. i \<notin> im_index_id ` set ims \<longrightarrow> ixs i = ex_index st i"
    using ex_remove_entries_map[OF ko ix di, of rid] by blast
  have fr: "\<forall>im\<in>set ims. \<exists>key m. ex_index_key sch cols im = Some (Inr key) \<and> ixs (im_index_id im) = Some m \<and> m key = None"
  proof
    fix im assume im: "im \<in> set ims"
    then obtain ko kn m where "ex_index_key sch (row_fields row) im = Some (Inr ko)" "ex_index_key sch cols im = Some (Inr kn)"
      "ex_index st (im_index_id im) = Some m" "(m(ko := None)) kn = None" using keys by blast
    then show "\<exists>key m. ex_index_key sch cols im = Some (Inr key) \<and> ixs (im_index_id im) = Some m \<and> m key = None"
      using r(2) im by auto
  qed
  obtain ixs2 where i: "ex_insert_entries map_index sch cols rid ims ixs = Some (Inr ixs2)"
    "\<forall>im\<in>set ims. \<forall>key. ex_index_key sch cols im = Some (Inr key) \<longrightarrow>
       ixs2 (im_index_id im) = map_option (\<lambda>m. m(key \<mapsto> rid)) (ixs (im_index_id im))"
    "\<forall>i. i \<notin> im_index_id ` set ims \<longrightarrow> ixs2 i = ixs i"
    using ex_insert_entries_map[OF fr di, of rid] by blast
  have "ex_update_row fc fi map_index sch tid ims sets row rid st =
          Some (Inr (st\<lparr>ex_heaps := (ex_heaps st)(tid \<mapsto> h'), ex_index := ixs2, ex_affected := ex_affected st + 1\<rparr>))"
    using n sv r(1) hp ut i(1) by (simp add: ex_update_row_def Let_def)
  moreover have "\<forall>im\<in>set ims. \<forall>ko kn. ex_index_key sch (row_fields row) im = Some (Inr ko) \<longrightarrow>
          ex_index_key sch cols im = Some (Inr kn) \<longrightarrow>
          ixs2 (im_index_id im) = map_option (\<lambda>m. (m(ko := None))(kn \<mapsto> rid)) (ex_index st (im_index_id im))"
    using r(2) i(2) by (auto simp: option.map_comp o_def)
  moreover have "\<forall>i. i \<notin> im_index_id ` set ims \<longrightarrow> ixs2 i = ex_index st i" using r(3) i(3) by simp
  ultimately show ?thesis by blast
qed

text \<open>Facts of the example used by the witnesses: a state whose index maps
  the key of the first row of \<open>ex_heap3\<close> to it.\<close>

lemma ex_update_wit_hyps:
  "ex_heaps ((ex_state cat_example [0 \<mapsto> [[[49]] \<mapsto> \<lparr>rid_page_id = 0, rid_slot = 0\<rparr>]])\<lparr>ex_heaps := [0 \<mapsto> ex_heap3]\<rparr>) 0 = Some ex_heap3"
  "ex_affected ((ex_state cat_example [0 \<mapsto> [[[49]] \<mapsto> \<lparr>rid_page_id = 0, rid_slot = 0\<rparr>]])\<lparr>ex_heaps := [0 \<mapsto> ex_heap3]\<rparr>) = 0"
  "ex_index ((ex_state cat_example [0 \<mapsto> [[[49]] \<mapsto> \<lparr>rid_page_id = 0, rid_slot = 0\<rparr>]])\<lparr>ex_heaps := [0 \<mapsto> ex_heap3]\<rparr>) 0 =
     Some [[[49]] \<mapsto> \<lparr>rid_page_id = 0, rid_slot = 0\<rparr>]"
  "length (sch_columns (tm_schema cat_example_table)) \<le> length (row_fields \<lparr>row_rid = INVALID_ROWID, row_fields = [[49::byte]]\<rparr>)"
  "ex_index_key (tm_schema cat_example_table) (row_fields \<lparr>row_rid = INVALID_ROWID, row_fields = [[49::byte]]\<rparr>) cat_example_index =
     Some (Inr [[49]])"
  "ex_set_values ex_ctor (tm_schema cat_example_table) [([97], kNodeNumber, v)]
      (take (length (sch_columns (tm_schema cat_example_table))) (row_fields \<lparr>row_rid = INVALID_ROWID, row_fields = [[49::byte]]\<rparr>)) =
     (if v \<noteq> [] \<and> list_all (\<lambda>c. 48 \<le> c \<and> c \<le> 57) v then Some (Inr [v]) else None)"
  "ex_index_key (tm_schema cat_example_table) [v] cat_example_index = Some (Inr [v])"
  by (simp_all add: ex_state_def cat_example_table_def cat_example_index_def Schema_GetColumnIndex_def ex_right_field_def
      ex_ctor_def ex_index_key_def ex_key_columns_def)

section \<open>Properties\<close>

text \<open>C38: updating a row to a new row no larger than the old one, with a map as
  index, refines the abstract update: the table maps the row id to the new row
  and the heap stays well formed, each index of the table maps the new key to the
  row instead of the old key, the row is counted, and the catalog and the other
  indexes are unchanged.\<close>

theorem ex_update_row_refines:
  fixes st :: "('f, 'f list \<rightharpoonup> row_id) exec_state"
  assumes hp: "ex_heaps st tid = Some h" and wf: "th_wf (Row_GetSerializedSize fi) h ps"
    and row: "th_table h ps rid = Some row" and n: "length (sch_columns sch) \<le> length (row_fields row)"
    and sv: "ex_set_values fc sch sets (take (length (sch_columns sch)) (row_fields row)) = Some (Inr cols)"
    and le: "Row_GetSerializedSize fi \<lparr>row_rid = INVALID_ROWID, row_fields = cols\<rparr> \<le> Row_GetSerializedSize fi row"
    and keys: "\<forall>im\<in>set ims. \<exists>ko kn m. ex_index_key sch (row_fields row) im = Some (Inr ko) \<and>
                 ex_index_key sch cols im = Some (Inr kn) \<and> ex_index st (im_index_id im) = Some m \<and> (m(ko := None)) kn = None"
    and di: "distinct (map im_index_id ims)"
  shows "\<exists>st' h'. ex_update_row fc fi map_index sch tid ims sets row rid st = Some (Inr st') \<and>
           ex_heaps st' tid = Some h' \<and> th_wf (Row_GetSerializedSize fi) h' ps \<and>
           th_table h' ps = (th_table h ps)(rid \<mapsto> \<lparr>row_rid = INVALID_ROWID, row_fields = cols\<rparr>) \<and>
           ex_catalog st' = ex_catalog st \<and> ex_affected st' = ex_affected st + 1 \<and>
           (\<forall>t. t \<noteq> tid \<longrightarrow> ex_heaps st' t = ex_heaps st t) \<and>
           (\<forall>im\<in>set ims. \<forall>ko kn. ex_index_key sch (row_fields row) im = Some (Inr ko) \<longrightarrow>
              ex_index_key sch cols im = Some (Inr kn) \<longrightarrow>
              ex_index st' (im_index_id im) = map_option (\<lambda>m. (m(ko := None))(kn \<mapsto> rid)) (ex_index st (im_index_id im))) \<and>
           (\<forall>i. i \<notin> im_index_id ` set ims \<longrightarrow> ex_index st' i = ex_index st i)"
proof -
  obtain h' where u: "TH_UpdateTuple (Row_GetSerializedSize fi) \<lparr>row_rid = INVALID_ROWID, row_fields = cols\<rparr> rid h = Some (True, h')"
    "th_wf (Row_GetSerializedSize fi) h' ps" "th_table h' ps = (th_table h ps)(rid \<mapsto> \<lparr>row_rid = INVALID_ROWID, row_fields = cols\<rparr>)"
    using TH_UpdateTuple_refines[OF wf row le] by blast
  show ?thesis using ex_update_row_map[OF hp n sv u(1) keys di] u(2,3) by fastforce
qed
text \<open>C39: updating a row with a new row larger than the old one: the update
  reports nothing (\<open>UpdateTuple\<close>'s \<open>false\<close> is only logged), the table keeps
  the old row, but every index of the table now maps the new key to the row and
  no longer the old key, the row is counted as updated, and the page stays
  write-latched, so the update of any other row of that page blocks.\<close>

theorem ex_update_row_grows:
  fixes st :: "('f, 'f list \<rightharpoonup> row_id) exec_state"
  assumes hp: "ex_heaps st tid = Some h" and wf: "th_wf (Row_GetSerializedSize fi) h ps"
    and row: "th_table h ps rid = Some row" and n: "length (sch_columns sch) \<le> length (row_fields row)"
    and sv: "ex_set_values fc sch sets (take (length (sch_columns sch)) (row_fields row)) = Some (Inr cols)"
    and big: "Row_GetSerializedSize fi row < Row_GetSerializedSize fi \<lparr>row_rid = INVALID_ROWID, row_fields = cols\<rparr>"
    and keys: "\<forall>im\<in>set ims. \<exists>ko kn m. ex_index_key sch (row_fields row) im = Some (Inr ko) \<and>
                 ex_index_key sch cols im = Some (Inr kn) \<and> ex_index st (im_index_id im) = Some m \<and> (m(ko := None)) kn = None"
    and di: "distinct (map im_index_id ims)"
  shows "\<exists>st' h'. ex_update_row fc fi map_index sch tid ims sets row rid st = Some (Inr st') \<and>
           ex_heaps st' tid = Some h' \<and> th_table h' ps = th_table h ps \<and> \<not> th_wf (Row_GetSerializedSize fi) h' ps \<and>
           (\<forall>rid' r'. rid_page_id rid' = rid_page_id rid \<longrightarrow> th_table h ps rid' \<noteq> None \<longrightarrow>
              TH_UpdateTuple (Row_GetSerializedSize fi) r' rid' h' = None) \<and>
           ex_affected st' = ex_affected st + 1 \<and>
           (\<forall>im\<in>set ims. \<forall>ko kn. ex_index_key sch (row_fields row) im = Some (Inr ko) \<longrightarrow>
              ex_index_key sch cols im = Some (Inr kn) \<longrightarrow>
              ex_index st' (im_index_id im) = map_option (\<lambda>m. (m(ko := None))(kn \<mapsto> rid)) (ex_index st (im_index_id im)))"
proof -
  obtain h' where u: "TH_UpdateTuple (Row_GetSerializedSize fi) \<lparr>row_rid = INVALID_ROWID, row_fields = cols\<rparr> rid h = Some (False, h')"
    "th_table h' ps = th_table h ps" "\<not> th_wf (Row_GetSerializedSize fi) h' ps"
    "\<forall>rid' r'. rid_page_id rid' = rid_page_id rid \<longrightarrow> th_table h ps rid' \<noteq> None \<longrightarrow>
       TH_UpdateTuple (Row_GetSerializedSize fi) r' rid' h' = None"
    using th_update_grow[OF wf row big] by blast
  show ?thesis using ex_update_row_map[OF hp n sv u(1) keys di] u(2-4) by fastforce
qed

section \<open>Witnesses\<close>

theorem ex_update_row_refines_witness:
  "\<exists>st' h'. ex_update_row ex_ctor ex_fields map_index (tm_schema cat_example_table) 0 [cat_example_index]
      [([97], kNodeNumber, [50])] \<lparr>row_rid = INVALID_ROWID, row_fields = [[49]]\<rparr> \<lparr>rid_page_id = 0, rid_slot = 0\<rparr>
      ((ex_state cat_example [0 \<mapsto> [[[49]] \<mapsto> \<lparr>rid_page_id = 0, rid_slot = 0\<rparr>]])\<lparr>ex_heaps := [0 \<mapsto> ex_heap3]\<rparr>) = Some (Inr st') \<and>
    ex_heaps st' 0 = Some h' \<and> th_wf (Row_GetSerializedSize ex_fields) h' [0] \<and>
    th_table h' [0] \<lparr>rid_page_id = 0, rid_slot = 0\<rparr> = Some \<lparr>row_rid = INVALID_ROWID, row_fields = [[50]]\<rparr> \<and>
    th_table h' [0] \<lparr>rid_page_id = 0, rid_slot = 1\<rparr> = Some \<lparr>row_rid = INVALID_ROWID, row_fields = [[50]]\<rparr> \<and>
    ex_affected st' = 1 \<and> ex_index st' 0 = Some [[[50]] \<mapsto> \<lparr>rid_page_id = 0, rid_slot = 0\<rparr>]"
proof -
  define W where "W = (ex_state cat_example [0 \<mapsto> [[[49]] \<mapsto> \<lparr>rid_page_id = 0, rid_slot = 0\<rparr>]])\<lparr>ex_heaps := [0 \<mapsto> ex_heap3]\<rparr>"
  note h = ex_heap3_facts
  note w = ex_update_wit_hyps(1-5)[folded W_def]
  note v = ex_update_wit_hyps(6)[where v = "[50]"] ex_update_wit_hyps(7)[where v = "[50]"]
  have sv: "ex_set_values ex_ctor (tm_schema cat_example_table) [([97], kNodeNumber, [50])]
      (take (length (sch_columns (tm_schema cat_example_table))) (row_fields \<lparr>row_rid = INVALID_ROWID, row_fields = [[49::byte]]\<rparr>)) =
      Some (Inr [[50]])" using v(1) by simp
  have le: "Row_GetSerializedSize ex_fields \<lparr>row_rid = INVALID_ROWID, row_fields = [[50]]\<rparr> \<le>
      Row_GetSerializedSize ex_fields \<lparr>row_rid = INVALID_ROWID, row_fields = [[49]]\<rparr>"
    by (simp add: Row_GetSerializedSize_def ex_fields_def)
  have keys: "\<forall>im\<in>set [cat_example_index]. \<exists>ko kn m. ex_index_key (tm_schema cat_example_table) (row_fields \<lparr>row_rid = INVALID_ROWID, row_fields = [[49::byte]]\<rparr>) im = Some (Inr ko) \<and>
      ex_index_key (tm_schema cat_example_table) [[50]] im = Some (Inr kn) \<and> ex_index W (im_index_id im) = Some m \<and>
      (m(ko := None)) kn = None"
    using w(3,5) v(2) by (simp add: cat_example_index_def)
  obtain st' h' where r: "ex_update_row ex_ctor ex_fields map_index (tm_schema cat_example_table) 0 [cat_example_index]
      [([97], kNodeNumber, [50])] \<lparr>row_rid = INVALID_ROWID, row_fields = [[49]]\<rparr> \<lparr>rid_page_id = 0, rid_slot = 0\<rparr> W = Some (Inr st')"
    "ex_heaps st' 0 = Some h'" "th_wf (Row_GetSerializedSize ex_fields) h' [0]"
    "th_table h' [0] = (th_table ex_heap3 [0])(\<lparr>rid_page_id = 0, rid_slot = 0\<rparr> \<mapsto> \<lparr>row_rid = INVALID_ROWID, row_fields = [[50]]\<rparr>)"
    "ex_affected st' = ex_affected W + 1"
    "\<forall>im\<in>set [cat_example_index]. \<forall>ko kn. ex_index_key (tm_schema cat_example_table) [[49]] im = Some (Inr ko) \<longrightarrow>
       ex_index_key (tm_schema cat_example_table) [[50]] im = Some (Inr kn) \<longrightarrow>
       ex_index st' (im_index_id im) = map_option (\<lambda>m. (m(ko := None))(kn \<mapsto> \<lparr>rid_page_id = 0, rid_slot = 0\<rparr>)) (ex_index W (im_index_id im))"
    using ex_update_row_refines[OF w(1) h(1) h(6) w(4) sv le keys] by (auto simp: cat_example_index_def)
  have ix: "ex_index st' 0 = Some [[[50]] \<mapsto> \<lparr>rid_page_id = 0, rid_slot = 0\<rparr>]"
    using r(6) w(3,5) v(2) by (simp add: cat_example_index_def fun_upd_twist)
  show ?thesis using r(1-5) h(7) w(2) ix unfolding W_def[symmetric] by auto
qed

theorem ex_update_row_grows_witness:
  "\<exists>st' h'. ex_update_row ex_ctor ex_fields map_index (tm_schema cat_example_table) 0 [cat_example_index]
      [([97], kNodeNumber, replicate 50 48)] \<lparr>row_rid = INVALID_ROWID, row_fields = [[49]]\<rparr> \<lparr>rid_page_id = 0, rid_slot = 0\<rparr>
      ((ex_state cat_example [0 \<mapsto> [[[49]] \<mapsto> \<lparr>rid_page_id = 0, rid_slot = 0\<rparr>]])\<lparr>ex_heaps := [0 \<mapsto> ex_heap3]\<rparr>) = Some (Inr st') \<and>
    ex_heaps st' 0 = Some h' \<and> th_table h' [0] = th_table ex_heap3 [0] \<and> \<not> th_wf (Row_GetSerializedSize ex_fields) h' [0] \<and>
    TH_UpdateTuple (Row_GetSerializedSize ex_fields) \<lparr>row_rid = INVALID_ROWID, row_fields = [[51]]\<rparr> \<lparr>rid_page_id = 0, rid_slot = 1\<rparr> h' = None \<and>
    ex_affected st' = 1 \<and> ex_index st' 0 = Some [[replicate 50 48] \<mapsto> \<lparr>rid_page_id = 0, rid_slot = 0\<rparr>]"
proof -
  define W where "W = (ex_state cat_example [0 \<mapsto> [[[49]] \<mapsto> \<lparr>rid_page_id = 0, rid_slot = 0\<rparr>]])\<lparr>ex_heaps := [0 \<mapsto> ex_heap3]\<rparr>"
  note h = ex_heap3_facts
  note w = ex_update_wit_hyps(1-5)[folded W_def]
  note v = ex_update_wit_hyps(6)[where v = "replicate 50 48"] ex_update_wit_hyps(7)[where v = "replicate 50 48"]
  have sv: "ex_set_values ex_ctor (tm_schema cat_example_table) [([97], kNodeNumber, replicate 50 48)]
      (take (length (sch_columns (tm_schema cat_example_table))) (row_fields \<lparr>row_rid = INVALID_ROWID, row_fields = [[49::byte]]\<rparr>)) =
      Some (Inr [replicate 50 48])" using v(1) by (simp add: list_all_iff)
  have big: "Row_GetSerializedSize ex_fields \<lparr>row_rid = INVALID_ROWID, row_fields = [[49]]\<rparr> <
      Row_GetSerializedSize ex_fields \<lparr>row_rid = INVALID_ROWID, row_fields = [replicate 50 48]\<rparr>"
    by (simp add: Row_GetSerializedSize_def ex_fields_def)
  have keys: "\<forall>im\<in>set [cat_example_index]. \<exists>ko kn m. ex_index_key (tm_schema cat_example_table) (row_fields \<lparr>row_rid = INVALID_ROWID, row_fields = [[49::byte]]\<rparr>) im = Some (Inr ko) \<and>
      ex_index_key (tm_schema cat_example_table) [replicate 50 48] im = Some (Inr kn) \<and> ex_index W (im_index_id im) = Some m \<and>
      (m(ko := None)) kn = None"
    using w(3,5) v(2) by (simp add: cat_example_index_def)
  obtain st' h' where r: "ex_update_row ex_ctor ex_fields map_index (tm_schema cat_example_table) 0 [cat_example_index]
      [([97], kNodeNumber, replicate 50 48)] \<lparr>row_rid = INVALID_ROWID, row_fields = [[49]]\<rparr> \<lparr>rid_page_id = 0, rid_slot = 0\<rparr> W = Some (Inr st')"
    "ex_heaps st' 0 = Some h'" "th_table h' [0] = th_table ex_heap3 [0]" "\<not> th_wf (Row_GetSerializedSize ex_fields) h' [0]"
    "\<forall>rid' r'. rid_page_id rid' = rid_page_id \<lparr>rid_page_id = 0, rid_slot = 0\<rparr> \<longrightarrow> th_table ex_heap3 [0] rid' \<noteq> None \<longrightarrow>
       TH_UpdateTuple (Row_GetSerializedSize ex_fields) r' rid' h' = None"
    "ex_affected st' = ex_affected W + 1"
    "\<forall>im\<in>set [cat_example_index]. \<forall>ko kn. ex_index_key (tm_schema cat_example_table) [[49]] im = Some (Inr ko) \<longrightarrow>
       ex_index_key (tm_schema cat_example_table) [replicate 50 48] im = Some (Inr kn) \<longrightarrow>
       ex_index st' (im_index_id im) = map_option (\<lambda>m. (m(ko := None))(kn \<mapsto> \<lparr>rid_page_id = 0, rid_slot = 0\<rparr>)) (ex_index W (im_index_id im))"
    using ex_update_row_grows[OF w(1) h(1) h(6) w(4) sv big keys] by (auto simp: cat_example_index_def)
  have ix: "ex_index st' 0 = Some [[replicate 50 48] \<mapsto> \<lparr>rid_page_id = 0, rid_slot = 0\<rparr>]"
    using r(7) w(3,5) v(2) by (simp add: cat_example_index_def fun_upd_twist)
  show ?thesis using r(1-4) r(5)[rule_format, of "\<lparr>rid_page_id = 0, rid_slot = 1\<rparr>"] r(6) h(7) w(2) ix
    unfolding W_def[symmetric] by auto
qed

end
