(* ===== verification/Spec2Isabelle.thy ===== *)
theory Spec2Isabelle
  imports Buffer_Pool BPlus_Remove BPlus_Iterator Table_Heap Catalog_Inv Executor Executor_DDL Executor_Delete Executor_Update
begin

text \<open>
  \<^bold>\<open>A shallow-embedding model of the MiniSQL storage engine.\<close>

  MiniSQL (\<^verbatim>\<open>src/src\<close>) is layered.  The disk manager maps logical
  pages onto a file of extents, each extent headed by an allocation bitmap page.
  The buffer pool caches pages in frames and evicts through an LRU replacer.  On
  top of the pool sit three things.  The B+ tree index stores leaf and internal
  pages and has an iterator over the leaf chain.  The table heap is a linked list
  of slotted table pages with a row iterator.  The record layer serialises
  columns, schemas and rows into page bytes.  The catalog and the execution
  engine use all of these.

  Each part is a theory of its own, with its state as a record and every C++
  method one HOL definition of the same name.  Errors, aborts and blocking
  calls are \<open>None\<close> or an error value.  Loops that may not end are
  \<open>partial_function (option)\<close> definitions, whose termination is a theorem.

  \<^bold>\<open>Theories and what they model.\<close>
  \<^item> \<open>Prelude\<close>: page and frame ids, bytes and 32-bit words, and the configuration
    constants (\<open>PAGE_SIZE\<close> 4096, \<open>INVALID_PAGE_ID\<close> -1).  It also holds
    little-endian \<open>MACH_WRITE_TO\<close>/\<open>MACH_READ_FROM\<close>, and list and word
    lemmas shared by all components.
  \<^item> \<open>LRU_Replacer\<close> (\<^verbatim>\<open>buffer/lru_replacer.cpp\<close>): the frame vector as a list.
    The lemmas give:
    \<^item> an invariant kept by every run of operations (C1);
    \<^item> the victim order (C2);
    \<^item> a refinement to the set of evictable frames (C3).
  \<^item> \<open>Bitmap_Page\<close> (\<^verbatim>\<open>page/bitmap_page.cpp\<close>): the header words and the
    byte array, with bits set and cleared by 8-bit word arithmetic.  The lemmas
    give functional correctness against the set of allocated offsets (C4--C6);
    the page image (\<open>bitmap_of_page\<close>, the code's \<open>reinterpret_cast\<close>) and its
    round trip are lemmas the disk manager uses.
  \<^item> \<open>Disk_Manager\<close> (\<^verbatim>\<open>storage/disk_manager.cpp\<close>): the file as a map from
    physical page to bytes with its length in pages, the stream's fail bit, and
    the meta page as a record.  Integer widths are the code's:
    \<^item> \<open>ReadPhysicalPage\<close> computes an \<open>int\<close> byte offset and compares it with
      the \<open>int\<close> file size of \<open>GetFileSize\<close>, both wrapping at \<open>2^31\<close>
      (\<open>int32\<close> of the Prelude);
    \<^item> a negative offset is a failed seek, after which every read of the
      stream returns zeros and every write is lost;
    \<^item> \<open>WritePhysicalPage\<close>'s offset is \<open>size_t\<close> and exact;
    \<^item> \<open>MapPageId\<close>'s sum wraps when returned as \<open>page_id_t\<close>.

    Reads are exact while the file is below 2 GiB and the stream is good
    (\<open>disk_io_ok\<close>), which covers the bitmaps of the first \<open>IO_EXTENTS\<close> = 17
    extents.  The lemmas give:
    \<^item> the physical layout of \<open>MapPageId\<close> for every id \<open>AllocatePage\<close> returns
      (C7);
    \<^item> allocation and deallocation against the bitmaps in those 17 extents,
      keeping the invariant (C8, C9);
    \<^item> that the meta page is never written (C10);
    \<^item> a defect: extent 17's bitmap page lies past byte \<open>2^31\<close>, so its read wraps
      to a negative offset and returns zeros, and \<open>AllocatePage\<close> hands out the
      same page twice (C11).
  \<^item> \<open>Buffer_Pool\<close> (\<^verbatim>\<open>buffer/buffer_pool_manager.cpp\<close>): frames, page table,
    free list and replacer.  The disk is reached through an interface record,
    instantiated with the disk manager; a read returns the disk's new state,
    since it can leave the stream failed.  The lemmas give:
    \<^item> the pool invariant under Fetch/New/Unpin/Flush (C12);
    \<^item> two defects: \<open>NewPage\<close> pages never become evictable (C13), and
      \<open>DeletePage\<close> loses its frame (C14).
    Lemmas on the miss path of \<open>FetchPage\<close> and on eviction after the last
    unpin support them.
  \<^item> \<open>BPlus_Leaf\<close> and \<open>BPlus_Internal\<close> (\<^verbatim>\<open>page/b_plus_tree_*_page.cpp\<close>): node
    pages as records over a page store.  Index loops are written as the code
    runs them and proved equal to list operations (C15 for leaf insert; the
    leaf remove and merge loops are lemmas).
  \<^item> \<open>BPlus_Tree\<close>, \<open>BPlus_Remove\<close> and \<open>BPlus_Iterator\<close>
    (\<^verbatim>\<open>index/b_plus_tree.cpp\<close>, \<^verbatim>\<open>index/index_iterator.cpp\<close>): search, insert,
    remove with coalesce/redistribute, Begin/End and the iterator.  The tree is
    well formed when its store holds a sorted tree of the given height, whose
    leaves spell out a key-value list.  The lemmas give:
    \<^item> lookup (C16);
    \<^item> as lemmas, insert into an empty tree, insert of a duplicate, remove of
      an absent key and remove from a root leaf;
    \<^item> balance of the redistribution loop (C17);
    \<^item> the \<open>assert(0)\<close> reached for \<open>internal_max_size\<close> 3 (C18);
    \<^item> lemmas on the iterator walk along the leaf chain and on \<open>Begin(key)\<close>.
  \<^item> \<open>Record_Layer\<close> (\<^verbatim>\<open>record/column.cpp\<close>, \<^verbatim>\<open>schema.cpp\<close>, \<^verbatim>\<open>row.cpp\<close>): buffers
    as byte lists.  It gives the serialise/deserialise round trip of rows
    (C19), and of columns and schemas as lemmas.  Column names gain the heap bytes after the
    unterminated name copy, so that round trip is stated with the bytes that
    follow.
  \<^item> \<open>Catalog_Meta\<close> (\<^verbatim>\<open>catalog/catalog.cpp\<close> \<open>CatalogMeta\<close>, \<^verbatim>\<open>catalog/table.cpp\<close>,
    \<^verbatim>\<open>catalog/indexes.cpp\<close>): the persistent metadata.  The two \<open>std::map\<close>s of
    the catalog meta page are key-sorted association lists.  Table metadata is
    the byte list written from the start of its page; index metadata is an
    in-place write, since it leaves gaps.  The lemmas give the round trips of
    table metadata on a page (C24), of index metadata as a lemma, and a defect: each 8-byte
    length of index metadata is written with 4 bytes, so over a page that is
    not zero it cannot be read back (C25).
  \<^item> \<open>Catalog\<close> (\<^verbatim>\<open>catalog/catalog.cpp\<close> \<open>CatalogManager\<close>): the manager as its
    page store, next page id, catalog meta and the four \<open>unordered_map\<close>s as
    association lists, with the ids of destroyed index trees.  Every method is
    a definition: both constructors, \<open>LoadTable\<close>, \<open>LoadIndex\<close>, \<open>CreateTable\<close>,
    \<open>GetTable\<close>, \<open>GetTables\<close>, \<open>GetTableIndexes\<close>, \<open>CreateIndex\<close>, \<open>GetIndex\<close>,
    \<open>DropTable\<close>, \<open>DropIndex\<close> and \<open>FlushCatalogMetaPage\<close>.  A catalog is well formed (\<open>cat_ok\<close>) when every
    meta page entry has its metadata on its own page and the name maps agree
    with the metadata; \<open>cat_abs\<close> is what clients see of it.  Flushing a
    well-formed catalog and loading it again gives back the same
    \<open>cat_abs\<close>, with fresh next ids (C20).
  \<^item> \<open>Catalog_Inv\<close>: every operation keeps \<open>cat_ok\<close>, so any run of operations
    from the constructor with \<open>init\<close> returns at every step and stays well
    formed (C21).  As a lemma, \<open>GetTableIndexes\<close> of a table of a
    well-formed catalog returns exactly the indexes on that table.  It also shows two
    defects: a \<open>CreateIndex\<close> rolled back after a duplicate key restores what
    clients see but leaks its metadata page (C22), and \<open>DropTable\<close> destroys
    none of its indexes' trees (C23).
  \<^item> \<open>Table_Heap\<close> (\<^verbatim>\<open>storage/table_heap.cpp\<close>, \<^verbatim>\<open>storage/table_iterator.cpp\<close>):
    the heap as first page id, page store and next page id.  The table page,
    whose code is not under src, is modelled from the spec.  Its write latch is
    a flag, and acquiring a held latch blocks, which is \<open>None\<close>.  A heap is
    well formed (\<open>th_wf\<close>) when:
    \<^item> its pages form one chain from the first page;
    \<^item> each page is unlatched and accounts for its bytes.

    It is abstracted by \<open>th_table\<close>, the map from row id to live row.  The
    lemmas give:
    \<^item> \<open>InsertTuple\<close> refines insert on that map and keeps \<open>th_wf\<close> (C26);
      lemmas show the same of \<open>UpdateTuple\<close>, \<open>MarkDelete\<close> and \<open>ApplyDelete\<close>
      for update and delete, and that rollback restores the heap;
    \<^item> the clients' \<open>Begin..End\<close> scan terminates and visits every live row in
      chain order (C29).

    It also shows three defects:
    \<^item> an oversized row is reported inserted but is stored nowhere (C27);
    \<^item> a failed update keeps the page latched, so the executor's fallback
      \<open>MarkDelete\<close> blocks (C28);
    \<^item> \<open>Begin\<close> skips every row when the first page has none (C30).
  \<^item> \<open>Executor\<close> (\<^verbatim>\<open>executor/execute_engine.cpp\<close> \<open>ExecuteInsert\<close>): where the
    catalog, a table heap and the table's indexes meet.  The engine's state is
    the catalog, the heap of each table, the index of each index id and the
    \<open>ExecuteContext\<close>'s count of affected rows.  Value nodes of the parser are
    (node type, text) pairs.  \<open>Field\<close> constructors and indexes are interface
    records, since their code is not under src.  An index is instantiated by
    \<open>map_index\<close>, the key-to-row-id map a unique-key B+ tree implements.  The
    value conversion, the key of each index and the index loop are one
    definition each.  The lemmas give:
    \<^item> a successful insert adds the row to the heap's table under a fresh row
      id and its key to every index of the table (C31);
    \<^item> as a lemma, a value count that differs from the column count fails and
      changes nothing.

    It also shows two defects:
    \<^item> when an index rejects the key, the row is deleted again but the
      indexes before it keep the key pointing at the deleted row (C32);
    \<^item> an oversized row is counted as inserted while the table does not
      change, and every index maps its key to \<open>INVALID_ROWID\<close>
      (\<open>ExecuteInsert_oversized\<close>).
  \<^item> \<open>Executor_DDL\<close> (\<^verbatim>\<open>executor/execute_engine.cpp\<close> \<open>ExecuteCreateTable\<close>,
    \<open>ExecuteDropTable\<close>, \<open>ExecuteShowIndexes\<close>, \<open>ExecuteCreateIndex\<close>,
    \<open>ExecuteDropIndex\<close>): the data-definition handlers over the same state.
    Column definitions of the parser are a datatype, \<open>atoi\<close> is the C
    library's, and a new table's heap is one empty page (\<open>th_create\<close>).  The
    scan by which the catalog's \<open>CreateIndex\<close> fills a new index, a
    parameter in \<open>Catalog\<close>, is run here on the engine's heap and index
    (\<open>ex_create_index\<close>).  The lemmas give:
    \<^item> \<open>ExecuteCreateTable\<close> registers the table with a new heap and its
      \<open>_<table>_primkey\<close> index (\<open>ExecuteCreateTable_creates\<close>);
    \<^item> \<open>ExecuteCreateIndex\<close> fills the index with each row's key, or drops it
      again on a repeated key (C34).

    It also shows a defect: a table created without primary keys gets an
    index on no columns, so every insert after the first fails (C33).
  \<^item> \<open>Executor_Where\<close> and \<open>Executor_Delete\<close>
    (\<^verbatim>\<open>executor/execute_engine.cpp\<close> \<open>ExecuteDelete\<close>,
    \<open>ChooseIndex\<close>, \<open>EvaluateIndex\<close>, \<open>EvaluateWhere\<close>): the condition of a
    \<open>where\<close> clause is a datatype of connector and comparison nodes, and
    \<open>Field\<close>'s comparisons are an interface returning \<open>CmpBool\<close>.
    \<open>EvaluateIndex\<close> records per column a bit mask and the constant of an
    equality; \<open>ChooseIndex\<close> picks the first index usable for an equality
    lookup.  \<open>Executor_Where\<close> holds these and the two loops that the delete
    and the update share: the scan of the heap (\<open>ex_heap_loop\<close>, stepping the
    iterator on the heap after the body) and the loop over the row ids of the
    chosen index's \<open>ScanKey\<close> (\<open>ex_rids_loop\<close>).  A delete runs one of them
    with \<open>ex_delete_row\<close> as body (\<open>ex_delete_scan\<close>, \<open>ex_delete_rids\<close>).
    To reason about the scan, \<open>Table_Heap\<close> describes it over slot positions (\<open>th_slots\<close>, \<open>th_live\<close>): from any slot, \<open>it++\<close>
    reaches the next live row, and a delete changes neither the positions nor
    the later rows.  The lemmas give:
    \<^item> when the heap's first page holds a live row, the scan path equals the
      row-id loop over the rows the heap held before the delete (C35);
    \<^item> under the same condition, with a map index, \<open>DELETE ... WHERE\<close>
      deletes exactly the rows the condition accepts, counts them and removes
      their keys from every index of the table (C36).

    When the first page has no live row, \<open>Begin\<close> returns \<open>End\<close> (C30) and the
    scan deletes nothing.  The map index (\<open>map_index\<close>) compares keys by exact
    equality; the B+ tree's comparator is not under src, and its treatment of a
    null key field is not modelled.  So the lookup that \<open>ChooseIndex\<close> builds for
    \<open>WHERE a = v\<close> on an index over \<open>(a, b)\<close>, with the key \<open>(v, null)\<close>, is a
    finding without a theorem.  The theory also shows a defect: a comparison
    with a null field counts as true, so a row whose \<open>a\<close> is null satisfies
    \<open>a = v and a <> v\<close> (C37).
  \<^item> \<open>Executor_Update\<close> (\<^verbatim>\<open>executor/execute_engine.cpp\<close> \<open>ExecuteUpdate\<close>):
    the same two loops with \<open>ex_update_row\<close> as body.  The body takes the row's
    first \<open>GetColumnCount\<close> fields, applies the \<open>set\<close> clause
    (\<open>ex_set_values\<close>), removes the old keys from every index, calls
    \<open>UpdateTuple\<close> and inserts the new keys (\<open>ex_insert_entries\<close>); a rejected key
    is the code's \<open>ASSERT\<close>, modelled as \<open>None\<close>.  \<open>UpdateTuple\<close>'s result is only
    logged by the code.  With a map as index, the lemmas give:
    \<^item> a new row no larger than the old one refines the abstract update: the
      table maps the row id to the new row, the heap stays well formed, and
      each index swaps the old key for the new one (C38);
    \<^item> a larger row that does not fit in its page is counted as updated and
      its new key is in every index, while the table keeps the old row and the
      page stays write-latched, blocking any later update on that page (C39).

  \<^bold>\<open>Bounds and termination.\<close>  No model runs on fuel.  The B+ tree descents,
  the rebalancing recursion, the iterator walks, the heap's insert loop and the
  scan are all \<open>partial_function (option)\<close> definitions.  Each claim that they
  return is proved from a finite structure: the tree height, an explicit chain
  of leaves, or the page chain \<open>th_chain\<close> of the heap, where non-termination
  would need a cyclic \<open>next_page_id\<close> link.  Word widths are kept where the
  code depends on them:
  \<^item> 8-bit bitmap bytes;
  \<^item> 32-bit counters, \<open>page_id\<close> casts and slot numbers;
  \<^item> the disk manager's \<open>int\<close> arithmetic: \<open>MapPageId\<close>, the read offset and the
    file size wrap at \<open>2^31\<close> (\<open>int32\<close>).  C++ leaves signed overflow undefined;
    the model takes the two's-complement wrap that the compiled code performs.
    Elsewhere page ids are only compared, stored and used as indices, and are
    \<open>int\<close>;
  \<^item> the slot count of a table page, which stays below \<open>2^32\<close> because the
    page accounts for its 4096 bytes.

  \<^bold>\<open>Not modelled.\<close>
  \<^item> The pin counts that the table heap and tree leave to the pool: a fetch
    followed by an unpin keeps page contents.
  \<^item> \<open>NewPage\<close> failure inside the heap and the tree: a fresh page id is always
    available there.  Pool exhaustion is modelled in \<open>Buffer_Pool\<close> itself.
  \<^item> \<open>TableHeap::FreeHeap\<close> and the pool's destructor, which are teardown.
  \<^item> Opening and closing the database file (the disk manager's constructor and
    \<open>Close\<close>), and a failed \<open>stat\<close> in \<open>GetFileSize\<close> (the file always exists).
  \<^item> In the catalog: the B+ tree behind an index (\<open>IndexInfo::Init\<close>, in a header
    not under src); the scan of \<open>CreateIndex\<close> is a parameter saying whether
    every \<open>InsertEntry\<close> succeeded.  Also the destructor, which frees the
    memory heap and then flushes from it.
  \<^item> The execution engine's \<open>ExecuteSelect\<close>, which builds and prints a
    result table.  Also the
    database, transaction and \<open>execfile\<close> handlers, which are file and
    directory I/O, and all printing of results.  The delete's
    \<open>Destroy\<close> of every index after a delete without \<open>where\<close> is modelled
    through the index interface only.  The context's \<open>int\<close> count of
    affected rows is a \<open>nat\<close>: its overflow is not modelled.
  \<^item> Debug output of the tree (\<open>ToGraph\<close>, \<open>ToString\<close>, \<open>Check\<close>) and its empty
    stubs (\<open>FindLeafPage\<close>, \<open>InsertIntoParent\<close>).
\<close>

end
